(* ===== verification/Prelude.thy ===== *)
theory Prelude
  imports Main "HOL-Library.Word" "HOL-Library.AList"
begin

text \<open>
  Shared vocabulary of the development: Rust's integer types as machine words, a result type
  whose failure side separates returned errors from panics, slices with their bounds checks,
  big-endian byte conversion, the checked and saturating arithmetic the sources use, and
  hash maps as association lists with distinct keys.

  Conventions. A \<open>usize\<close> that counts bytes or entries is a \<^typ>\<open>nat\<close>; every other
  integer keeps its width. \<open>std::time::Instant\<close> and \<open>Duration\<close> values are \<^typ>\<open>nat\<close>
  numbers of nanoseconds since an arbitrary origin, so that \<open>duration_since\<close> (which
  saturates at zero) is subtraction on \<^typ>\<open>nat\<close>. A \<open>HashMap\<close> is an association list with
  distinct keys: the list order stands for the iteration order, which Rust leaves open, and
  no property of the development depends on it.
\<close>

unbundle bit_operations_syntax

section \<open>Machine integers\<close>

type_synonym u8 = "8 word"
type_synonym u16 = "16 word"
type_synonym u32 = "32 word"
type_synonym u64 = "64 word"
type_synonym u128 = "128 word"

named_theorems rust_simps \<open>evaluation of the Rust standard library operations\<close>

definition checked_mul :: "'a::len word \<Rightarrow> 'a word \<Rightarrow> 'a word option" where
  "checked_mul a b = (if unat a * unat b < 2 ^ LENGTH('a) then Some (a * b) else None)"

definition saturating_add :: "'a::len word \<Rightarrow> 'a word \<Rightarrow> 'a word" where
  "saturating_add a b = (if unat a + unat b < 2 ^ LENGTH('a) then a + b else - 1)"

definition checked_shl :: "'a::len word \<Rightarrow> nat \<Rightarrow> 'a word option" where
  "checked_shl a n = (if n < LENGTH('a) then Some (push_bit n a) else None)"

lemma checked_mul_eq_Some:
  "checked_mul a b = Some c \<Longrightarrow> unat c = unat a * unat b"
  by (auto simp: checked_mul_def unat_word_ariths split: if_splits)

lemma checked_mul_eq_None:
  "checked_mul (a :: 'a::len word) b = None \<longleftrightarrow> 2 ^ LENGTH('a) \<le> unat a * unat b"
  by (auto simp: checked_mul_def)

lemma unat_saturating_add [rust_simps]:
  fixes a b :: "'a::len word"
  shows "unat (saturating_add a b) = min (unat a + unat b) (2 ^ LENGTH('a) - 1)"
proof -
  have "unat (- 1 :: 'a word) = 2 ^ LENGTH('a) - 1"
    by (simp add: unsigned_minus_1_eq_mask mask_eq_exp_minus_1)
  then show ?thesis
    by (auto simp: saturating_add_def unat_word_ariths)
qed

lemma saturating_add_ge: "unat a \<le> unat (saturating_add a b)"
  by (simp add: unat_saturating_add Suc_leI le_diff_conv2)

lemma unat_ucast_up:
  "LENGTH('a::len) \<le> LENGTH('b::len) \<Longrightarrow> unat (ucast (w :: 'a word) :: 'b word) = unat w"
  by (simp add: unsigned_ucast_eq take_bit_nat_eq_self order_less_le_trans[OF unsigned_less])

lemma ucast_down_up:
  "LENGTH('a::len) \<le> LENGTH('b::len) \<Longrightarrow> ucast (ucast (w :: 'a word) :: 'b word) = w"
  by (rule bit_word_eqI) (simp add: bit_unsigned_iff)

section \<open>Results, errors and panics\<close>

text \<open>
  A fallible Rust function returns a sum: \<^term>\<open>Inl\<close> is the failure. Where the code indexes
  or slices, running out of range is a panic and not an error the caller sees, so the failure
  side keeps the two apart.
\<close>

datatype 'e failure = Err 'e | Panic

definition bind_res :: "'e + 'a \<Rightarrow> ('a \<Rightarrow> 'e + 'b) \<Rightarrow> 'e + 'b" where
  "bind_res m f = (case m of Inl e \<Rightarrow> Inl e | Inr x \<Rightarrow> f x)"

lemma bind_res_simps [simp]:
  "bind_res (Inl e) f = Inl e"
  "bind_res (Inr x) f = f x"
  by (simp_all add: bind_res_def)

lemma bind_res_eq_Inr:
  "bind_res m f = Inr y \<longleftrightarrow> (\<exists>x. m = Inr x \<and> f x = Inr y)"
  by (cases m) auto

lemma bind_res_eq_Inl:
  "bind_res m f = Inl e \<longleftrightarrow> m = Inl e \<or> (\<exists>x. m = Inr x \<and> f x = Inl e)"
  by (cases m) auto

definition map_err :: "('e \<Rightarrow> 'f) \<Rightarrow> 'e + 'a \<Rightarrow> 'f + 'a" where
  "map_err g m = (case m of Inl e \<Rightarrow> Inl (g e) | Inr x \<Rightarrow> Inr x)"

lemma map_err_simps [simp]:
  "map_err g (Inl e) = Inl (g e)"
  "map_err g (Inr x) = Inr x"
  by (simp_all add: map_err_def)

lemma map_err_eq_Inr [simp]: "map_err g m = Inr x \<longleftrightarrow> m = Inr x"
  by (cases m) auto

definition ok_or :: "'a option \<Rightarrow> 'e \<Rightarrow> 'e + 'a" where
  "ok_or m e = (case m of None \<Rightarrow> Inl e | Some x \<Rightarrow> Inr x)"

lemma ok_or_simps [simp]:
  "ok_or None e = Inl e"
  "ok_or (Some x) e = Inr x"
  by (simp_all add: ok_or_def)

lemma ok_or_eq_Inr: "ok_or m e = Inr x \<longleftrightarrow> m = Some x"
  by (cases m) auto

section \<open>Slices\<close>

definition byte_at :: "'a list \<Rightarrow> nat \<Rightarrow> 'e failure + 'a" where
  "byte_at xs i = (if i < length xs then Inr (xs ! i) else Inl Panic)"

definition slice :: "'a list \<Rightarrow> nat \<Rightarrow> nat \<Rightarrow> 'e failure + 'a list" where
  "slice xs i j = (if i \<le> j \<and> j \<le> length xs then Inr (take (j - i) (drop i xs)) else Inl Panic)"

definition slice_from :: "'a list \<Rightarrow> nat \<Rightarrow> 'e failure + 'a list" where
  "slice_from xs i = (if i \<le> length xs then Inr (drop i xs) else Inl Panic)"

lemma byte_at_in_range [simp]: "i < length xs \<Longrightarrow> byte_at xs i = Inr (xs ! i)"
  by (simp add: byte_at_def)

lemma slice_in_range [simp]:
  "i \<le> j \<Longrightarrow> j \<le> length xs \<Longrightarrow> slice xs i j = Inr (take (j - i) (drop i xs))"
  by (simp add: slice_def)

lemma slice_from_in_range [simp]: "i \<le> length xs \<Longrightarrow> slice_from xs i = Inr (drop i xs)"
  by (simp add: slice_from_def)

section \<open>Big-endian bytes\<close>

text \<open>\<open>uN::from_be_bytes\<close> and \<open>uN::to_be_bytes\<close> (the latter with the number of bytes).\<close>

definition from_be_bytes :: "u8 list \<Rightarrow> 'a::len word" where
  "from_be_bytes bs = foldl (\<lambda>acc b. acc * 256 + ucast b) 0 bs"

primrec to_be_bytes :: "nat \<Rightarrow> 'a::len word \<Rightarrow> u8 list" where
  "to_be_bytes 0 w = []"
| "to_be_bytes (Suc n) w = to_be_bytes n (drop_bit 8 w) @ [ucast w]"

lemma from_be_bytes_Nil [simp]: "from_be_bytes [] = 0"
  by (simp add: from_be_bytes_def)

lemma from_be_bytes_snoc: "from_be_bytes (bs @ [b]) = from_be_bytes bs * 256 + ucast b"
  by (simp add: from_be_bytes_def)

lemma length_to_be_bytes [simp]: "length (to_be_bytes n w) = n"
  by (induction n arbitrary: w) auto

definition be_nat :: "u8 list \<Rightarrow> nat" where
  "be_nat bs = foldl (\<lambda>acc b. acc * 256 + unat b) 0 bs"

lemma be_nat_snoc: "be_nat (bs @ [b]) = be_nat bs * 256 + unat b"
  by (simp add: be_nat_def)

lemma be_nat_less: "be_nat bs < 256 ^ length bs"
proof (induction bs rule: rev_induct)
  case Nil
  then show ?case by (simp add: be_nat_def)
next
  case (snoc b bs)
  have "unat b < 256" using unsigned_less[of b] by simp
  with snoc show ?case by (simp add: be_nat_snoc)
qed

lemma from_be_bytes_of_nat: "from_be_bytes bs = (of_nat (be_nat bs) :: 'a::len word)"
proof (induction bs rule: rev_induct)
  case Nil
  then show ?case by (simp add: be_nat_def)
next
  case (snoc b bs)
  have "(ucast b :: 'a word) = of_nat (unat b)" by simp
  with snoc show ?case by (simp add: from_be_bytes_snoc be_nat_snoc)
qed

lemma unat_from_be_bytes:
  assumes "8 * length bs \<le> LENGTH('a::len)"
  shows "unat (from_be_bytes bs :: 'a word) = be_nat bs"
proof -
  have "be_nat bs < 2 ^ (8 * length bs)"
    using be_nat_less[of bs] by (simp add: power_mult)
  also have "\<dots> \<le> 2 ^ LENGTH('a)"
    using assms by (intro power_increasing) auto
  finally show ?thesis
    by (simp add: from_be_bytes_of_nat unat_of_nat)
qed

lemma unat_drop_bit: "unat (drop_bit n w) = unat w div 2 ^ n"
proof -
  have "unat (drop_bit n w) = drop_bit n (unat w)"
    by (simp only: unsigned_drop_bit_eq) (simp add: take_bit_nat_eq_self)
  then show ?thesis by (simp only: drop_bit_eq_div)
qed

lemma be_nat_to_be_bytes: "be_nat (to_be_bytes n w) = unat w mod 256 ^ n"
proof (induction n arbitrary: w)
  case 0
  then show ?case by (simp add: be_nat_def)
next
  case (Suc n)
  have byte: "unat (ucast w :: u8) = unat w mod 256"
    by (simp add: unsigned_ucast_eq take_bit_eq_mod)
  have shift: "unat (drop_bit 8 w) = unat w div 256"
    by (subst unat_drop_bit) simp
  have "be_nat (to_be_bytes (Suc n) w) = (unat w div 256) mod 256 ^ n * 256 + unat w mod 256"
    by (simp add: be_nat_snoc Suc.IH byte shift)
  also have "\<dots> = unat w mod (256 * 256 ^ n)"
    by (simp add: mod_mult2_eq)
  finally show ?case by simp
qed

lemma from_be_to_be_bytes_ucast:
  fixes w :: "'a::len word"
  assumes "LENGTH('a) \<le> 8 * n"
  shows "from_be_bytes (to_be_bytes n w) = (ucast w :: 'b::len word)"
proof -
  have "unat w < 2 ^ LENGTH('a)" by simp
  also have "(2 :: nat) ^ LENGTH('a) \<le> 2 ^ (8 * n)"
    using assms by (intro power_increasing) auto
  also have "(2 :: nat) ^ (8 * n) = 256 ^ n" by (simp add: power_mult)
  finally have "be_nat (to_be_bytes n w) = unat w" by (simp add: be_nat_to_be_bytes)
  then show ?thesis by (simp add: from_be_bytes_of_nat)
qed

lemma from_be_to_be_bytes:
  "LENGTH('a) \<le> 8 * n \<Longrightarrow> from_be_bytes (to_be_bytes n w) = (w :: 'a::len word)"
  by (simp add: from_be_to_be_bytes_ucast)

lemma from_be_bytes_padded: "from_be_bytes (replicate k 0 @ bs) = from_be_bytes bs"
proof -
  have "foldl (\<lambda>acc b. acc * 256 + ucast b) 0 (replicate k (0 :: u8)) = (0 :: 'a::len word)"
    by (induction k) simp_all
  then show ?thesis by (simp add: from_be_bytes_def)
qed

section \<open>Hash maps as association lists\<close>

text \<open>\<open>HashMap::insert\<close> and \<open>HashMap::remove\<close> are \<^const>\<open>AList.update\<close> and
  \<^const>\<open>AList.delete\<close>; \<open>HashMap::len\<close> is the length, which counts entries because keys
  are distinct. The lemmas give what the two do to sums over the entries, to the length and
  to predicates on entries.\<close>

lemma hm_sum_update:
  fixes f :: "'a \<times> 'b \<Rightarrow> nat"
  shows "map_of xs k = Some old \<Longrightarrow>
    sum_list (map f (AList.update k v xs)) + f (k, old) = sum_list (map f xs) + f (k, v)"
  by (induction xs) auto

lemma hm_sum_update_new:
  fixes f :: "'a \<times> 'b \<Rightarrow> nat"
  shows "map_of xs k = None \<Longrightarrow>
    sum_list (map f (AList.update k v xs)) = sum_list (map f xs) + f (k, v)"
  by (induction xs) (auto split: if_splits)

lemma hm_sum_delete:
  fixes f :: "'a \<times> 'b \<Rightarrow> nat"
  shows "distinct (map fst xs) \<Longrightarrow> map_of xs k = Some old \<Longrightarrow>
    sum_list (map f (AList.delete k xs)) + f (k, old) = sum_list (map f xs)"
  by (induction xs) (auto split: if_splits)

lemma hm_length_update:
  "length (AList.update k v xs) = (if map_of xs k = None then Suc (length xs) else length xs)"
  by (induction xs) (auto split: if_splits)

lemma hm_length_delete:
  "distinct (map fst xs) \<Longrightarrow> map_of xs k \<noteq> None \<Longrightarrow> Suc (length (AList.delete k xs)) = length xs"
  by (induction xs) (auto split: if_splits)

lemma hm_list_all_update:
  "list_all P xs \<Longrightarrow> P (k, v) \<Longrightarrow> list_all P (AList.update k v xs)"
  by (induction xs) auto

lemma hm_list_all_delete: "list_all P xs \<Longrightarrow> list_all P (AList.delete k xs)"
  by (auto simp: AList.delete_eq list_all_iff)

lemma hm_list_all_map_of: "list_all P xs \<Longrightarrow> map_of xs k = Some v \<Longrightarrow> P (k, v)"
  by (auto simp: list_all_iff dest: map_of_SomeD)

lemma hm_sum_ge: "map_of xs k = Some v \<Longrightarrow> f (k, v) \<le> (sum_list (map f xs) :: nat)"
  by (induction xs) (auto split: if_splits)

lemma hm_sum_bound: "list_all (\<lambda>x. f x \<le> B) xs \<Longrightarrow> sum_list (map f xs) \<le> (B :: nat) * length xs"
  by (induction xs) auto

end
