(* ===== verification/Ipfix_Wire.thy ===== *)
theory Ipfix_Wire
  imports Prelude
begin

text \<open>
  The wire level of the IPFIX decoder (\<open>src/crates/protocol-ipfix/src\<close>): the error type
  (\<open>error.rs\<close>), the message header (\<open>header.rs\<close>), template records (\<open>template.rs\<close>) and data
  records (\<open>record.rs\<close>). Reads of bytes and slices go through the bounds-checked operations of
  the prelude, so that an index the code does not guard would show up as \<open>Panic\<close>. The lemmas
  show that no input makes these parsers panic, how many bytes each consumes, and that data
  records are decoded exactly when the input starts with a layout the template describes.
\<close>

section \<open>Errors\<close>

datatype DecodeError =
    TooShort nat nat
  | UnsupportedVersion u16
  | MessageTooShortForHeader u16
  | MessageLengthExceedsInput u16 nat
  | SetTooShortForHeader u16
  | SetLengthExceedsMessage u16 nat
  | InvalidTemplateSetId u16
  | TemplateRecordTruncated u16 nat
  | InvalidScopeFieldCount u16 u16
  | InvalidDataTemplateId u16
  | DataRecordTruncated u16 nat nat
  | VariableLengthTruncated
  | ZeroLengthTemplate u16
  | EmptyDataRecord u16
  | TemplateLimit u16

type_synonym 'a decoded = "DecodeError failure + 'a"

definition u16_at :: "u8 list \<Rightarrow> nat \<Rightarrow> u16 decoded" where
  "u16_at xs i = bind_res (byte_at xs i) (\<lambda>a. bind_res (byte_at xs (i + 1)) (\<lambda>b.
     Inr (from_be_bytes [a, b])))"

definition u32_at :: "u8 list \<Rightarrow> nat \<Rightarrow> u32 decoded" where
  "u32_at xs i = bind_res (byte_at xs i) (\<lambda>a. bind_res (byte_at xs (i + 1)) (\<lambda>b.
     bind_res (byte_at xs (i + 2)) (\<lambda>c. bind_res (byte_at xs (i + 3)) (\<lambda>d.
     Inr (from_be_bytes [a, b, c, d])))))"

lemma u16_at_in_range [simp]:
  "i + 1 < length xs \<Longrightarrow> u16_at xs i = Inr (from_be_bytes [xs ! i, xs ! (i + 1)])"
  by (simp add: u16_at_def)

lemma u32_at_in_range [simp]:
  "i + 3 < length xs \<Longrightarrow>
     u32_at xs i = Inr (from_be_bytes [xs ! i, xs ! (i + 1), xs ! (i + 2), xs ! (i + 3)])"
  by (simp add: u32_at_def)

section \<open>The message header\<close>

definition IPFIX_VERSION :: u16 where
  "IPFIX_VERSION = 0x000a"

definition MESSAGE_HEADER_LEN :: nat where
  "MESSAGE_HEADER_LEN = 16"

record MessageHeader =
  mh_version :: u16
  mh_length :: u16
  mh_export_time :: u32
  mh_sequence_number :: u32
  mh_observation_domain_id :: u32

definition parse_header :: "u8 list \<Rightarrow> MessageHeader decoded" where
  "parse_header input =
     (if length input < MESSAGE_HEADER_LEN then
        Inl (Err (TooShort MESSAGE_HEADER_LEN (length input)))
      else bind_res (u16_at input 0) (\<lambda>version.
        if version \<noteq> IPFIX_VERSION then Inl (Err (UnsupportedVersion version))
        else bind_res (u16_at input 2) (\<lambda>len.
          if unat len < MESSAGE_HEADER_LEN then Inl (Err (MessageTooShortForHeader len))
          else if unat len > length input then
            Inl (Err (MessageLengthExceedsInput len (length input)))
          else bind_res (u32_at input 4) (\<lambda>export_time.
            bind_res (u32_at input 8) (\<lambda>sequence_number.
            bind_res (u32_at input 12) (\<lambda>observation_domain_id.
              Inr \<lparr>mh_version = version, mh_length = len, mh_export_time = export_time,
                   mh_sequence_number = sequence_number,
                   mh_observation_domain_id = observation_domain_id\<rparr>))))))"

lemma parse_header_Inr:
  assumes "parse_header input = Inr h"
  shows "16 \<le> unat (mh_length h)" and "unat (mh_length h) \<le> length input"
    and "mh_version h = IPFIX_VERSION"
  using assms by (auto simp: parse_header_def MESSAGE_HEADER_LEN_def bind_res_eq_Inr split: if_splits)

lemma parse_header_no_panic: "parse_header input \<noteq> Inl Panic"
  by (auto simp: parse_header_def MESSAGE_HEADER_LEN_def)

section \<open>Field specifiers and template records\<close>

definition VARIABLE_LENGTH :: u16 where
  "VARIABLE_LENGTH = 0xFFFF"

definition ENTERPRISE_BIT :: u16 where
  "ENTERPRISE_BIT = 0x8000"

record FieldSpecifier =
  fs_information_element_id :: u16
  fs_field_length :: u16
  fs_enterprise_number :: "u32 option"

definition parse_field_specifier :: "u8 list \<Rightarrow> (FieldSpecifier \<times> nat) decoded" where
  "parse_field_specifier input =
     (if length input < 4 then Inl (Err (TemplateRecordTruncated 4 (length input)))
      else bind_res (u16_at input 0) (\<lambda>raw_id. bind_res (u16_at input 2) (\<lambda>field_length.
        let has_enterprise = (raw_id AND ENTERPRISE_BIT \<noteq> 0);
            information_element_id = raw_id AND NOT ENTERPRISE_BIT
        in if has_enterprise then
             (if length input < 8 then Inl (Err (TemplateRecordTruncated 8 (length input)))
              else bind_res (u32_at input 4) (\<lambda>enterprise_number.
                Inr (\<lparr>fs_information_element_id = information_element_id,
                      fs_field_length = field_length,
                      fs_enterprise_number = Some enterprise_number\<rparr>, 8)))
           else Inr (\<lparr>fs_information_element_id = information_element_id,
                      fs_field_length = field_length,
                      fs_enterprise_number = None\<rparr>, 4))))"

record Template =
  tpl_template_id :: u16
  tpl_scope_field_count :: u16
  tpl_fields :: "FieldSpecifier list"

definition fixed_record_len :: "Template \<Rightarrow> nat" where
  "fixed_record_len t = sum_list (map (\<lambda>f.
     if fs_field_length f = VARIABLE_LENGTH then 0 else unat (fs_field_length f)) (tpl_fields t))"

definition has_variable_length_fields :: "Template \<Rightarrow> bool" where
  "has_variable_length_fields t = list_ex (\<lambda>f. fs_field_length f = VARIABLE_LENGTH) (tpl_fields t)"

definition min_field_len :: "FieldSpecifier \<Rightarrow> nat" where
  "min_field_len f = (if fs_field_length f = VARIABLE_LENGTH then 1 else unat (fs_field_length f))"

definition min_record_len :: "Template \<Rightarrow> nat" where
  "min_record_len t = sum_list (map min_field_len (tpl_fields t))"

text \<open>The \<open>for _ in 0..field_count\<close> loop of \<open>Template::parse_record\<close>; the vector's initial
  capacity is not observable and is left out.\<close>

primrec parse_fields ::
    "nat \<Rightarrow> u8 list \<Rightarrow> nat \<Rightarrow> FieldSpecifier list \<Rightarrow> (FieldSpecifier list \<times> nat) decoded" where
  "parse_fields 0 input offset acc = Inr (acc, offset)"
| "parse_fields (Suc n) input offset acc =
     bind_res (slice_from input offset) (\<lambda>rest.
     bind_res (parse_field_specifier rest) (\<lambda>(spec, consumed).
       parse_fields n input (offset + consumed) (acc @ [spec])))"

definition parse_record :: "u8 list \<Rightarrow> bool \<Rightarrow> (Template \<times> nat) decoded" where
  "parse_record input is_options =
     (let header_len = (if is_options then 6 else 4) in
      if length input < header_len then
        Inl (Err (TemplateRecordTruncated (of_nat header_len) (length input)))
      else bind_res (u16_at input 0) (\<lambda>template_id. bind_res (u16_at input 2) (\<lambda>field_count.
        bind_res
          (if is_options then bind_res (u16_at input 4) (\<lambda>scope.
             if scope > field_count then Inl (Err (InvalidScopeFieldCount scope field_count))
             else Inr (scope, 6))
           else Inr (0, 4)) (\<lambda>(scope_field_count, offset).
        bind_res (parse_fields (unat field_count) input offset []) (\<lambda>(fields, offset).
          Inr (\<lparr>tpl_template_id = template_id, tpl_scope_field_count = scope_field_count,
                tpl_fields = fields\<rparr>, offset))))))"

definition parse_template_record :: "u8 list \<Rightarrow> (Template \<times> nat) decoded" where
  "parse_template_record input = parse_record input False"

definition parse_options_template_record :: "u8 list \<Rightarrow> (Template \<times> nat) decoded" where
  "parse_options_template_record input = parse_record input True"

lemma parse_field_specifier_consumed:
  "parse_field_specifier input = Inr (f, n) \<Longrightarrow> 4 \<le> n \<and> n \<le> 8 \<and> n \<le> length input"
  by (auto simp: parse_field_specifier_def Let_def bind_res_eq_Inr split: if_splits)

lemma parse_field_specifier_no_panic: "parse_field_specifier input \<noteq> Inl Panic"
  by (auto simp: parse_field_specifier_def Let_def)

lemma parse_fields_consumed:
  "parse_fields n input offset fs = Inr (fs', offset') \<Longrightarrow> offset \<le> length input \<Longrightarrow>
     offset + 4 * n \<le> offset' \<and> offset' \<le> length input \<and> length fs' = length fs + n"
proof (induction n arbitrary: offset fs)
  case 0
  then show ?case by simp
next
  case (Suc n)
  then obtain f k where f: "parse_field_specifier (drop offset input) = Inr (f, k)"
    and rest: "parse_fields n input (offset + k) (fs @ [f]) = Inr (fs', offset')"
    by (auto simp: bind_res_eq_Inr)
  from parse_field_specifier_consumed[OF f] Suc.prems(2) have k: "4 \<le> k" "offset + k \<le> length input"
    by auto
  from Suc.IH[OF rest k(2)] k show ?case by auto
qed

lemma parse_fields_no_panic:
  "offset \<le> length input \<Longrightarrow> parse_fields n input offset fs \<noteq> Inl Panic"
proof (induction n arbitrary: offset fs)
  case 0
  then show ?case by simp
next
  case (Suc n)
  show ?case
  proof (cases "parse_field_specifier (drop offset input)")
    case (Inl e)
    with Suc.prems parse_field_specifier_no_panic[of "drop offset input"] show ?thesis by auto
  next
    case (Inr fk)
    then obtain f k where fk: "parse_field_specifier (drop offset input) = Inr (f, k)"
      by (cases fk) auto
    with parse_field_specifier_consumed[OF fk] Suc.prems have "offset + k \<le> length input" by auto
    with Suc fk show ?thesis by simp
  qed
qed

lemma parse_record_consumed:
  assumes "parse_record input opt = Inr (t, n)"
  shows "4 \<le> n \<and> n \<le> length input \<and> 4 * length (tpl_fields t) \<le> n"
    and "opt \<or> tpl_scope_field_count t = 0"
    and "unat (tpl_scope_field_count t) \<le> length (tpl_fields t)"
  using assms
  by (auto simp: parse_record_def Let_def bind_res_eq_Inr word_less_nat_alt not_less
           dest!: parse_fields_consumed split: if_splits)

lemma parse_record_no_panic: "parse_record input opt \<noteq> Inl Panic"
  by (auto simp: parse_record_def Let_def bind_res_eq_Inl parse_fields_no_panic split: if_splits)

section \<open>Data records\<close>

record DecodedField =
  df_information_element_id :: u16
  df_enterprise_number :: "u32 option"
  df_value :: "u8 list"

definition as_u64_be :: "DecodedField \<Rightarrow> u64 option" where
  "as_u64_be f =
     (if df_value f = [] \<or> length (df_value f) > 8 then None
      else Some (from_be_bytes (replicate (8 - length (df_value f)) 0 @ df_value f)))"

definition as_ipv4 :: "DecodedField \<Rightarrow> u32 option" where
  "as_ipv4 f = (if length (df_value f) = 4 then Some (from_be_bytes (df_value f)) else None)"

definition as_ipv6 :: "DecodedField \<Rightarrow> u128 option" where
  "as_ipv6 f = (if length (df_value f) = 16 then Some (from_be_bytes (df_value f)) else None)"

record DataRecord =
  dr_template_id :: u16
  dr_fields :: "DecodedField list"

definition read_variable_length_prefix :: "u8 list \<Rightarrow> (nat \<times> nat) decoded" where
  "read_variable_length_prefix input =
     (case input of
        [] \<Rightarrow> Inl (Err VariableLengthTruncated)
      | first # _ \<Rightarrow>
          if first \<noteq> 0xFF then Inr (unat first, 1)
          else if length input < 3 then Inl (Err VariableLengthTruncated)
          else bind_res (u16_at input 1) (\<lambda>len. Inr (unat len, 3)))"

text \<open>The loop over the template's field specifiers of \<open>decode_data_record\<close>. Its \<open>map_err\<close>
  replaces the returned error; a panic stays one.\<close>

definition field_len_of ::
    "u16 \<Rightarrow> FieldSpecifier \<Rightarrow> u8 list \<Rightarrow> nat \<Rightarrow> (nat \<times> nat) decoded" where
  "field_len_of template_id spec input offset =
     (if fs_field_length spec = VARIABLE_LENGTH then
        bind_res (slice_from input offset) (\<lambda>rest.
        bind_res
          (map_err (\<lambda>e. case e of Panic \<Rightarrow> Panic
             | Err _ \<Rightarrow> Err (DataRecordTruncated template_id 1 (length input - offset)))
             (read_variable_length_prefix rest))
          (\<lambda>(len, prefix_len). Inr (len, offset + prefix_len)))
      else Inr (unat (fs_field_length spec), offset))"

primrec decode_fields ::
    "u16 \<Rightarrow> FieldSpecifier list \<Rightarrow> u8 list \<Rightarrow> nat \<Rightarrow> DecodedField list
       \<Rightarrow> (DecodedField list \<times> nat) decoded" where
  "decode_fields template_id [] input offset acc = Inr (acc, offset)"
| "decode_fields template_id (spec # specs) input offset acc =
     bind_res (field_len_of template_id spec input offset) (\<lambda>(field_len, offset).
       if length input < offset + field_len then
         Inl (Err (DataRecordTruncated template_id field_len (length input - offset)))
       else bind_res (slice input offset (offset + field_len)) (\<lambda>value.
         decode_fields template_id specs input (offset + field_len)
           (acc @ [\<lparr>df_information_element_id = fs_information_element_id spec,
                    df_enterprise_number = fs_enterprise_number spec,
                    df_value = value\<rparr>])))"

definition decode_data_record :: "Template \<Rightarrow> u8 list \<Rightarrow> (DataRecord \<times> nat) decoded" where
  "decode_data_record t input =
     bind_res (decode_fields (tpl_template_id t) (tpl_fields t) input 0 []) (\<lambda>(fields, offset).
       Inr (\<lparr>dr_template_id = tpl_template_id t, dr_fields = fields\<rparr>, offset))"

subsection \<open>What the bytes of a record look like\<close>

text \<open>
  The layout RFC 7011 section 7 gives a record: a fixed field is its value, a variable-length
  one is its value after a one-byte length, or after the escape \<open>0xFF\<close> and a two-byte length.
  The relation says nothing about how bytes are read; the decoder is proved equivalent to it.
\<close>

inductive field_layout :: "FieldSpecifier \<Rightarrow> DecodedField \<Rightarrow> u8 list \<Rightarrow> bool" where
  fixed: "fs_field_length f \<noteq> VARIABLE_LENGTH \<Longrightarrow> length v = unat (fs_field_length f) \<Longrightarrow>
    field_layout f \<lparr>df_information_element_id = fs_information_element_id f,
      df_enterprise_number = fs_enterprise_number f, df_value = v\<rparr> v"
| short: "fs_field_length f = VARIABLE_LENGTH \<Longrightarrow> n \<noteq> 0xFF \<Longrightarrow> length v = unat n \<Longrightarrow>
    field_layout f \<lparr>df_information_element_id = fs_information_element_id f,
      df_enterprise_number = fs_enterprise_number f, df_value = v\<rparr> (n # v)"
| long: "fs_field_length f = VARIABLE_LENGTH \<Longrightarrow> length v = unat (from_be_bytes [a, b] :: u16) \<Longrightarrow>
    field_layout f \<lparr>df_information_element_id = fs_information_element_id f,
      df_enterprise_number = fs_enterprise_number f, df_value = v\<rparr> (0xFF # a # b # v)"

inductive record_layout :: "FieldSpecifier list \<Rightarrow> DecodedField list \<Rightarrow> u8 list \<Rightarrow> bool" where
  Nil: "record_layout [] [] []"
| Cons: "field_layout f d bs \<Longrightarrow> record_layout fs ds cs \<Longrightarrow>
    record_layout (f # fs) (d # ds) (bs @ cs)"

inductive_cases record_layout_NilE: "record_layout [] ds bs"
inductive_cases record_layout_ConsE: "record_layout (f # fs) ds bs"

lemma read_prefix_cases:
  assumes "read_variable_length_prefix input = Inr (n, k)"
  obtains (short) c rest where "input = c # rest" "c \<noteq> 0xFF" "n = unat c" "k = 1"
  | (long) a b rest where "input = 0xFF # a # b # rest" "n = unat (from_be_bytes [a, b] :: u16)" "k = 3"
  using assms
  by (cases input rule: list.exhaust; cases "tl input"; cases "tl (tl input)")
     (auto simp: read_variable_length_prefix_def u16_at_def split: if_splits)

lemma read_prefix_no_panic: "read_variable_length_prefix input \<noteq> Inl Panic"
  by (auto simp: read_variable_length_prefix_def split: list.splits)

lemma field_len_of_no_panic:
  "offset \<le> length input \<Longrightarrow> field_len_of tid f input offset \<noteq> Inl Panic"
  using read_prefix_no_panic[of "drop offset input"]
  by (auto simp: field_len_of_def bind_res_eq_Inl map_err_def split: sum.splits failure.splits)

lemma field_len_of_ge: "field_len_of tid f input offset = Inr (n, k) \<Longrightarrow> offset \<le> k"
  by (auto simp: field_len_of_def bind_res_eq_Inr split: if_splits)

lemma field_len_of_sound:
  assumes len: "field_len_of tid f input offset = Inr (n, k)"
    and le: "offset \<le> length input" "k + n \<le> length input"
  shows "field_layout f \<lparr>df_information_element_id = fs_information_element_id f,
      df_enterprise_number = fs_enterprise_number f, df_value = take n (drop k input)\<rparr>
      (take (k + n - offset) (drop offset input))"
proof (cases "fs_field_length f = VARIABLE_LENGTH")
  case False
  with len have "n = unat (fs_field_length f)" "k = offset" by (auto simp: field_len_of_def)
  with False le show ?thesis by (auto intro!: field_layout.fixed)
next
  case True
  with len le(1) obtain p where p: "read_variable_length_prefix (drop offset input) = Inr (n, p)"
    and k: "k = offset + p"
    by (auto simp: field_len_of_def bind_res_eq_Inr)
  have drops: "drop k input = drop p (drop offset input)" by (simp add: k add.commute)
  from p show ?thesis
  proof (cases rule: read_prefix_cases)
    case (short c rest)
    have v: "drop k input = rest" using short by (simp add: drops)
    have "length input - offset = 1 + length rest" using arg_cong[OF short(1), of length] by simp
    with le k short(4) have "n \<le> length rest" by linarith
    moreover have "take (k + n - offset) (drop offset input) = c # take n rest"
      using short k by simp
    ultimately show ?thesis
      unfolding v using True short by (auto intro!: field_layout.short)
  next
    case (long a b rest)
    have v: "drop k input = rest" using long by (simp add: drops)
    have "length input - offset = 3 + length rest" using arg_cong[OF long(1), of length] by simp
    with le k long(3) have "n \<le> length rest" by linarith
    moreover have "take (k + n - offset) (drop offset input) = 0xFF # a # b # take n rest"
      using long k by (simp add: numeral_3_eq_3)
    ultimately show ?thesis
      unfolding v using True long by (auto intro!: field_layout.long)
  qed
qed

lemma field_len_of_complete:
  assumes "field_layout f d bs"
  shows "\<exists>n k. field_len_of tid f (pre @ bs @ post) (length pre) = Inr (n, k) \<and>
    k + n = length pre + length bs \<and> take n (drop k (pre @ bs @ post)) = df_value d \<and>
    d = \<lparr>df_information_element_id = fs_information_element_id f,
      df_enterprise_number = fs_enterprise_number f, df_value = df_value d\<rparr>"
  using assms
proof cases
  case fixed
  then show ?thesis by (auto simp: field_len_of_def)
next
  case (short n v)
  then show ?thesis
    by (auto simp: field_len_of_def read_variable_length_prefix_def)
next
  case (long v a b)
  then show ?thesis
    by (auto simp: field_len_of_def read_variable_length_prefix_def numeral_3_eq_3)
qed

lemma decode_fields_sound:
  "decode_fields tid fs input offset acc = Inr (out, k) \<Longrightarrow> offset \<le> length input \<Longrightarrow>
     \<exists>ds. out = acc @ ds \<and> offset \<le> k \<and> k \<le> length input \<and>
       record_layout fs ds (take (k - offset) (drop offset input))"
proof (induction fs arbitrary: offset acc)
  case Nil
  then show ?case by (auto intro: record_layout.Nil)
next
  case (Cons f fs)
  from Cons.prems(1) obtain n o' where
    len: "field_len_of tid f input offset = Inr (n, o')" and fits: "o' + n \<le> length input"
    by (auto simp: bind_res_eq_Inr not_less split: if_splits)
  let ?d = "\<lparr>df_information_element_id = fs_information_element_id f,
      df_enterprise_number = fs_enterprise_number f, df_value = take n (drop o' input)\<rparr>"
  from Cons.prems(1) len fits have
    "decode_fields tid fs input (o' + n) (acc @ [?d]) = Inr (out, k)" by simp
  from Cons.IH[OF this fits] obtain ds where ds: "out = acc @ ?d # ds" "o' + n \<le> k"
    "k \<le> length input" "record_layout fs ds (take (k - (o' + n)) (drop (o' + n) input))" by auto
  have "offset \<le> o'" using len by (rule field_len_of_ge)
  then have "take (k - offset) (drop offset input) =
      take (o' + n - offset) (drop offset input) @ take (k - (o' + n)) (drop (o' + n) input)"
    using take_add[of "o' + n - offset" "k - (o' + n)" "drop offset input"] ds(2) by simp
  moreover from field_len_of_sound[OF len Cons.prems(2) fits] ds(4)
  have "record_layout (f # fs) (?d # ds)
      (take (o' + n - offset) (drop offset input) @ take (k - (o' + n)) (drop (o' + n) input))"
    by (rule record_layout.Cons)
  ultimately show ?case using ds \<open>offset \<le> o'\<close> by auto
qed

lemma decode_fields_complete:
  "record_layout fs ds bs \<Longrightarrow>
     decode_fields tid fs (pre @ bs @ post) (length pre) acc = Inr (acc @ ds, length pre + length bs)"
proof (induction fs ds bs arbitrary: pre acc rule: record_layout.induct)
  case Nil
  then show ?case by simp
next
  case (Cons f d bs fs ds cs)
  from field_len_of_complete[OF Cons.hyps(1), of tid pre "cs @ post"] obtain n k where
    len: "field_len_of tid f (pre @ bs @ cs @ post) (length pre) = Inr (n, k)"
    and k: "k + n = length pre + length bs" and v: "take n (drop k (pre @ bs @ cs @ post)) = df_value d"
    and d: "\<lparr>df_information_element_id = fs_information_element_id f,
      df_enterprise_number = fs_enterprise_number f, df_value = df_value d\<rparr> = d" by force
  from Cons.IH[of "pre @ bs" "acc @ [d]"] have
    "decode_fields tid fs (pre @ bs @ cs @ post) (length pre + length bs) (acc @ [d]) =
       Inr (acc @ d # ds, length pre + length bs + length cs)" by simp
  with len k v d show ?case by simp
qed

lemma decode_fields_no_panic:
  "offset \<le> length input \<Longrightarrow> decode_fields tid fs input offset acc \<noteq> Inl Panic"
proof (induction fs arbitrary: offset acc)
  case Nil
  then show ?case by simp
next
  case (Cons f fs)
  then show ?case
    using field_len_of_no_panic[OF Cons.prems, of tid f]
    by (auto simp: bind_res_eq_Inl not_less)
qed

lemma field_layout_min: "field_layout f d bs \<Longrightarrow> min_field_len f \<le> length bs"
  by (auto simp: min_field_len_def elim: field_layout.cases)

lemma record_layout_min: "record_layout fs ds bs \<Longrightarrow> sum_list (map min_field_len fs) \<le> length bs"
  by (induction rule: record_layout.induct) (auto dest: field_layout_min)

lemma decode_data_record_sound:
  assumes "decode_data_record t input = Inr (r, n)"
  shows "dr_template_id r = tpl_template_id t" and "n \<le> length input"
    and "record_layout (tpl_fields t) (dr_fields r) (take n input)"
proof -
  from assms obtain ds where
    ds: "decode_fields (tpl_template_id t) (tpl_fields t) input 0 [] = Inr (ds, n)"
    and r: "r = \<lparr>dr_template_id = tpl_template_id t, dr_fields = ds\<rparr>"
    by (auto simp: decode_data_record_def bind_res_eq_Inr)
  from decode_fields_sound[OF ds] r
  show "dr_template_id r = tpl_template_id t" "n \<le> length input"
    "record_layout (tpl_fields t) (dr_fields r) (take n input)" by auto
qed

lemma decode_data_record_complete:
  assumes "record_layout (tpl_fields t) ds bs"
  shows "decode_data_record t (bs @ rest) =
    Inr (\<lparr>dr_template_id = tpl_template_id t, dr_fields = ds\<rparr>, length bs)"
  using decode_fields_complete[OF assms, of "tpl_template_id t" "[]" rest "[]"]
  by (simp add: decode_data_record_def)

lemma decode_data_record_no_panic: "decode_data_record t input \<noteq> Inl Panic"
  by (auto simp: decode_data_record_def bind_res_eq_Inl decode_fields_no_panic)

lemma decode_data_record_consumed:
  assumes "decode_data_record t input = Inr (r, n)"
  shows "min_record_len t \<le> n" and "n \<le> length input"
  using record_layout_min[OF decode_data_record_sound(3)[OF assms]] decode_data_record_sound(2)[OF assms]
  by (simp_all add: min_record_len_def)

text \<open>
  Property C1. A data record decodes exactly when the input starts with bytes laid out as the
  template describes: the decoder returns a record and a length if and only if the record
  carries the template's id and that many bytes of the input are a layout of its fields (fixed
  values, or variable-length values with a one- or three-byte prefix).
\<close>

theorem decode_data_record_refines_layout:
  "decode_data_record t input = Inr (r, n) \<longleftrightarrow>
     dr_template_id r = tpl_template_id t \<and> n \<le> length input \<and>
     record_layout (tpl_fields t) (dr_fields r) (take n input)" (is "?L \<longleftrightarrow> ?R")
proof
  assume ?L
  then show ?R by (auto dest: decode_data_record_sound)
next
  assume R: ?R
  then show ?L
    using decode_data_record_complete[of t "dr_fields r" "take n input" "drop n input"] by simp
qed

end
