(* ===== verification/Ipfix_Decoder.thy ===== *)
theory Ipfix_Decoder
  imports Ipfix_Wire
begin

text \<open>
  The stateful part of the IPFIX decoder: the per-exporter template cache
  (\<open>src/crates/protocol-ipfix/src/template_cache.rs\<close>) and the message decoder
  (\<open>src/crates/protocol-ipfix/src/decoder.rs\<close>). The decoder both reads and writes the cache,
  so every operation returns the cache beside its result; a failure leaves the cache as the
  part of the message before it did. The locale \<open>cache_client\<close> states what the decoder needs of
  a predicate on caches for \<open>decode_message\<close> to keep it; it is interpreted on the
  memory bound of the cache.
\<close>

section \<open>The template cache\<close>

record SamplingInfo =
  si_sampling_interval :: "u32 option"
  si_sampling_algorithm :: "u8 option"

definition MAX_TEMPLATES :: nat where
  "MAX_TEMPLATES = 512"

definition MAX_TEMPLATE_FIELDS :: nat where
  "MAX_TEMPLATE_FIELDS = 8192"

definition IE_SAMPLING_INTERVAL :: u16 where
  "IE_SAMPLING_INTERVAL = 34"

definition IE_SAMPLING_ALGORITHM :: u16 where
  "IE_SAMPLING_ALGORITHM = 35"

record TemplateCache =
  tc_templates :: "(u16 \<times> Template) list"
  tc_fields :: nat
  tc_sampling :: SamplingInfo

definition default_sampling :: SamplingInfo where
  "default_sampling = \<lparr>si_sampling_interval = None, si_sampling_algorithm = None\<rparr>"

definition new_cache :: TemplateCache where
  "new_cache = \<lparr>tc_templates = [], tc_fields = 0, tc_sampling = default_sampling\<rparr>"

definition cache_get :: "TemplateCache \<Rightarrow> u16 \<Rightarrow> Template option" where
  "cache_get c template_id = map_of (tc_templates c) template_id"

definition cache_contains :: "TemplateCache \<Rightarrow> u16 \<Rightarrow> bool" where
  "cache_contains c template_id = (cache_get c template_id \<noteq> None)"

definition cache_len :: "TemplateCache \<Rightarrow> nat" where
  "cache_len c = length (tc_templates c)"

definition cache_is_empty :: "TemplateCache \<Rightarrow> bool" where
  "cache_is_empty c = (tc_templates c = [])"

definition cache_field_count :: "TemplateCache \<Rightarrow> nat" where
  "cache_field_count c = tc_fields c"

text \<open>\<open>self.fields - replaced\<close> is a \<open>usize\<close> subtraction, which panics below zero; the
  invariant \<open>cache_ok\<close> below rules that out.\<close>

definition cache_insert :: "TemplateCache \<Rightarrow> Template \<Rightarrow> unit decoded \<times> TemplateCache" where
  "cache_insert c t =
     (let (templates, replaced) =
        (case map_of (tc_templates c) (tpl_template_id t) of
           Some old \<Rightarrow> (length (tc_templates c), length (tpl_fields old))
         | None \<Rightarrow> (length (tc_templates c) + 1, 0))
      in if tc_fields c < replaced then (Inl Panic, c)
         else let fields = tc_fields c - replaced + length (tpl_fields t) in
           if templates > MAX_TEMPLATES \<or> fields > MAX_TEMPLATE_FIELDS then
             (Inl (Err (TemplateLimit (tpl_template_id t))), c)
           else (Inr (), c\<lparr>tc_fields := fields,
             tc_templates := AList.update (tpl_template_id t) t (tc_templates c)\<rparr>))"

definition cache_remove :: "TemplateCache \<Rightarrow> u16 \<Rightarrow> unit decoded \<times> TemplateCache" where
  "cache_remove c template_id =
     (case map_of (tc_templates c) template_id of
        None \<Rightarrow> (Inr (), c)
      | Some old \<Rightarrow>
          let c' = c\<lparr>tc_templates := AList.delete template_id (tc_templates c)\<rparr> in
          if tc_fields c < length (tpl_fields old) then (Inl Panic, c')
          else (Inr (), c'\<lparr>tc_fields := tc_fields c - length (tpl_fields old)\<rparr>))"

definition cache_clear :: "TemplateCache \<Rightarrow> TemplateCache" where
  "cache_clear c = c\<lparr>tc_templates := [], tc_fields := 0, tc_sampling := default_sampling\<rparr>"

definition observe_field :: "DecodedField \<Rightarrow> SamplingInfo \<Rightarrow> SamplingInfo" where
  "observe_field f s =
     (if df_information_element_id f = IE_SAMPLING_INTERVAL then
        (case as_u64_be f of
           Some v \<Rightarrow> s\<lparr>si_sampling_interval := Some (ucast v)\<rparr> | None \<Rightarrow> s)
      else if df_information_element_id f = IE_SAMPLING_ALGORITHM then
        (case as_u64_be f of
           Some v \<Rightarrow> s\<lparr>si_sampling_algorithm := Some (ucast v)\<rparr> | None \<Rightarrow> s)
      else s)"

definition observe_options_data :: "TemplateCache \<Rightarrow> DataRecord \<Rightarrow> TemplateCache" where
  "observe_options_data c r = c\<lparr>tc_sampling := fold observe_field (dr_fields r) (tc_sampling c)\<rparr>"

section \<open>Decoding a message\<close>

definition TEMPLATE_SET_ID :: u16 where "TEMPLATE_SET_ID = 2"
definition OPTIONS_TEMPLATE_SET_ID :: u16 where "OPTIONS_TEMPLATE_SET_ID = 3"
definition MIN_DATA_SET_ID :: u16 where "MIN_DATA_SET_ID = 256"
definition SET_HEADER_LEN :: nat where "SET_HEADER_LEN = 4"

datatype DecodedSet =
    Templates "Template list"
  | OptionsTemplates "Template list"
  | Data u16 "DataRecord list"
  | UnknownTemplate u16
  | ReservedSetId u16

record DecodedMessage =
  dm_header :: MessageHeader
  dm_sets :: "DecodedSet list"

text \<open>The three \<open>while\<close> loops. Each consumes at least one byte per turn, which is what their
  termination proofs need from the parsers of \<open>Ipfix_Wire\<close>.\<close>

function decode_data_set_loop ::
    "Template \<Rightarrow> u8 list \<Rightarrow> nat \<Rightarrow> DataRecord list \<Rightarrow> DataRecord list decoded" where
  "decode_data_set_loop t set_body offset records =
     (if offset < length set_body then
        if length set_body - offset < max (min_record_len t) 1 then Inr records
        else bind_res (slice_from set_body offset) (\<lambda>rest.
          case decode_data_record t rest of
            Inl e \<Rightarrow> Inl e
          | Inr (r, consumed) \<Rightarrow>
              if consumed = 0 then Inl (Err (EmptyDataRecord (tpl_template_id t)))
              else decode_data_set_loop t set_body (offset + consumed) (records @ [r]))
      else Inr records)"
  by pat_completeness auto
termination
  by (relation "measure (\<lambda>(t, set_body, offset, records). length set_body - offset)") auto

definition decode_data_set :: "Template \<Rightarrow> u8 list \<Rightarrow> DataRecord list decoded" where
  "decode_data_set t set_body = decode_data_set_loop t set_body 0 []"

function parse_template_records_loop ::
    "u8 list \<Rightarrow> bool \<Rightarrow> nat \<Rightarrow> Template list \<Rightarrow> TemplateCache
       \<Rightarrow> Template list decoded \<times> TemplateCache" where
  "parse_template_records_loop set_body is_options offset parsed c =
     (if offset < length set_body then
        if length set_body - offset < SET_HEADER_LEN then (Inr parsed, c)
        else case bind_res (slice_from set_body offset)
            (\<lambda>rest. if is_options then parse_options_template_record rest
                    else parse_template_record rest) of
          Inl e \<Rightarrow> (Inl e, c)
        | Inr (t, consumed) \<Rightarrow>
            if tpl_fields t = [] then
              if tpl_template_id t = TEMPLATE_SET_ID \<or> tpl_template_id t = OPTIONS_TEMPLATE_SET_ID
              then parse_template_records_loop set_body is_options (offset + consumed) parsed
                (cache_clear c)
              else (case cache_remove c (tpl_template_id t) of
                (Inl e, c') \<Rightarrow> (Inl e, c')
              | (Inr _, c') \<Rightarrow>
                  parse_template_records_loop set_body is_options (offset + consumed) parsed c')
            else if min_record_len t = 0 then
              (Inl (Err (ZeroLengthTemplate (tpl_template_id t))), c)
            else (case cache_insert c t of
                (Inl e, c') \<Rightarrow> (Inl e, c')
              | (Inr _, c') \<Rightarrow>
                  parse_template_records_loop set_body is_options (offset + consumed)
                    (parsed @ [t]) c')
      else (Inr parsed, c))"
  by pat_completeness auto
termination
  by (relation "measure (\<lambda>(set_body, opt, offset, parsed, c). length set_body - offset)")
     (auto simp: bind_res_eq_Inr parse_options_template_record_def parse_template_record_def
           dest!: parse_record_consumed(1) split: if_splits)

definition parse_template_records ::
    "u8 list \<Rightarrow> TemplateCache \<Rightarrow> bool \<Rightarrow> Template list decoded \<times> TemplateCache" where
  "parse_template_records set_body c is_options =
     parse_template_records_loop set_body is_options 0 [] c"

definition decode_set :: "u16 \<Rightarrow> u8 list \<Rightarrow> TemplateCache \<Rightarrow> DecodedSet decoded \<times> TemplateCache" where
  "decode_set set_id set_body c =
     (if set_id = TEMPLATE_SET_ID then
        (case parse_template_records set_body c False of
           (Inl e, c') \<Rightarrow> (Inl e, c') | (Inr parsed, c') \<Rightarrow> (Inr (Templates parsed), c'))
      else if set_id = OPTIONS_TEMPLATE_SET_ID then
        (case parse_template_records set_body c True of
           (Inl e, c') \<Rightarrow> (Inl e, c') | (Inr parsed, c') \<Rightarrow> (Inr (OptionsTemplates parsed), c'))
      else if set_id < MIN_DATA_SET_ID then (Inr (ReservedSetId set_id), c)
      else (case cache_get c set_id of
          Some t \<Rightarrow>
            (case decode_data_set t set_body of
               Inl e \<Rightarrow> (Inl e, c)
             | Inr records \<Rightarrow>
                 (Inr (Data set_id records),
                  if tpl_scope_field_count t > 0
                  then foldl observe_options_data c records else c))
        | None \<Rightarrow> (Inr (UnknownTemplate set_id), c)))"

function decode_sets_loop ::
    "u8 list \<Rightarrow> nat \<Rightarrow> DecodedSet list \<Rightarrow> TemplateCache \<Rightarrow> DecodedSet list decoded \<times> TemplateCache"
where
  "decode_sets_loop body offset sets c =
     (if offset < length body then
        (case slice_from body offset of
           Inl e \<Rightarrow> (Inl e, c)
         | Inr remaining \<Rightarrow>
             if length remaining < SET_HEADER_LEN then (Inr sets, c)
             else case bind_res (u16_at remaining 0) (\<lambda>set_id.
                 bind_res (u16_at remaining 2) (\<lambda>set_len. Inr (set_id, set_len))) of
               Inl e \<Rightarrow> (Inl e, c)
             | Inr (set_id, set_len) \<Rightarrow>
                 if unat set_len < SET_HEADER_LEN then (Inl (Err (SetTooShortForHeader set_len)), c)
                 else if unat set_len > length remaining then
                   (Inl (Err (SetLengthExceedsMessage set_len (length remaining))), c)
                 else case slice remaining SET_HEADER_LEN (unat set_len) of
                   Inl e \<Rightarrow> (Inl e, c)
                 | Inr set_body \<Rightarrow>
                     (case decode_set set_id set_body c of
                        (Inl e, c') \<Rightarrow> (Inl e, c')
                      | (Inr decoded, c') \<Rightarrow>
                          decode_sets_loop body (offset + unat set_len) (sets @ [decoded]) c'))
      else (Inr sets, c))"
  by pat_completeness auto
termination
  by (relation "measure (\<lambda>(body, offset, sets, c). length body - offset)")
     (auto simp: SET_HEADER_LEN_def)

definition decode_message ::
    "u8 list \<Rightarrow> TemplateCache \<Rightarrow> DecodedMessage decoded \<times> TemplateCache" where
  "decode_message input c =
     (case parse_header input of
        Inl e \<Rightarrow> (Inl e, c)
      | Inr h \<Rightarrow>
          (case slice input MESSAGE_HEADER_LEN (unat (mh_length h)) of
             Inl e \<Rightarrow> (Inl e, c)
           | Inr body \<Rightarrow>
               (case decode_sets_loop body 0 [] c of
                  (Inl e, c') \<Rightarrow> (Inl e, c')
                | (Inr sets, c') \<Rightarrow> (Inr \<lparr>dm_header = h, dm_sets = sets\<rparr>, c'))))"

declare decode_data_set_loop.simps [simp del] parse_template_records_loop.simps [simp del]
  decode_sets_loop.simps [simp del]

section \<open>The cache's invariant\<close>

definition usable_template :: "Template \<Rightarrow> bool" where
  "usable_template t \<longleftrightarrow> tpl_fields t \<noteq> [] \<and> 0 < min_record_len t"

definition cache_ok :: "TemplateCache \<Rightarrow> bool" where
  "cache_ok c \<longleftrightarrow>
     distinct (map fst (tc_templates c)) \<and>
     list_all (\<lambda>(k, t). tpl_template_id t = k \<and> usable_template t) (tc_templates c) \<and>
     tc_fields c = sum_list (map (\<lambda>(k, t). length (tpl_fields t)) (tc_templates c)) \<and>
     length (tc_templates c) \<le> MAX_TEMPLATES \<and> tc_fields c \<le> MAX_TEMPLATE_FIELDS"

lemma new_cache_ok: "cache_ok new_cache"
  by (simp add: cache_ok_def new_cache_def)

lemma cache_clear_ok: "cache_ok (cache_clear c)"
  by (simp add: cache_ok_def cache_clear_def)

lemma observe_options_data_ok: "cache_ok (observe_options_data c r) = cache_ok c"
  by (simp add: cache_ok_def observe_options_data_def)

lemma cache_get_ok:
  assumes "cache_ok c" and "map_of (tc_templates c) k = Some t"
  shows "usable_template t" and "tpl_template_id t = k" and "length (tpl_fields t) \<le> tc_fields c"
  using assms hm_list_all_map_of[of _ "tc_templates c" k t]
    hm_sum_ge[of "tc_templates c" k t "\<lambda>(k, t). length (tpl_fields t)"]
  by (auto simp: cache_ok_def split: prod.splits)

lemma cache_insert_ok:
  assumes ok: "cache_ok c" and t: "usable_template t"
  shows "cache_ok (snd (cache_insert c t))"
proof (cases "map_of (tc_templates c) (tpl_template_id t)")
  case None
  with ok t hm_sum_update_new[OF None, of "\<lambda>(k, t). length (tpl_fields t)" t] show ?thesis
    by (auto simp: cache_insert_def Let_def cache_ok_def hm_length_update
        intro!: distinct_update hm_list_all_update)
next
  case (Some old)
  with ok t hm_sum_update[OF Some, of "\<lambda>(k, t). length (tpl_fields t)" t] cache_get_ok(3)[OF ok Some]
  show ?thesis
    by (auto simp: cache_insert_def Let_def cache_ok_def hm_length_update
        intro!: distinct_update hm_list_all_update)
qed

lemma cache_remove_ok:
  assumes ok: "cache_ok c"
  shows "cache_ok (snd (cache_remove c k))"
proof (cases "map_of (tc_templates c) k")
  case None
  with ok show ?thesis by (simp add: cache_remove_def)
next
  case (Some old)
  have "distinct (map fst (tc_templates c))" using ok by (simp add: cache_ok_def)
  from hm_sum_delete[OF this Some, of "\<lambda>(k, t). length (tpl_fields t)"] ok Some
    cache_get_ok(3)[OF ok Some] length_delete_le[of k "tc_templates c"]
  show ?thesis
    by (auto simp: cache_remove_def Let_def cache_ok_def intro!: distinct_delete hm_list_all_delete)
qed

lemma cache_insert_no_panic: "cache_ok c \<Longrightarrow> fst (cache_insert c t) \<noteq> Inl Panic"
  by (auto simp: cache_insert_def Let_def split: option.splits dest: cache_get_ok(3))

lemma cache_remove_no_panic: "cache_ok c \<Longrightarrow> fst (cache_remove c k) \<noteq> Inl Panic"
  by (auto simp: cache_remove_def Let_def split: option.splits dest: cache_get_ok(3))

section \<open>Unfolding the loops\<close>

lemma template_loop_stop:
  assumes "\<not> offset < length body \<or> length body - offset < SET_HEADER_LEN"
  shows "parse_template_records_loop body opt offset parsed c = (Inr parsed, c)"
  using assms by (subst parse_template_records_loop.simps) auto

lemma template_loop_step:
  assumes "offset < length body" and "\<not> length body - offset < SET_HEADER_LEN"
  shows "parse_template_records_loop body opt offset parsed c =
    (case parse_record (drop offset body) opt of
       Inl e \<Rightarrow> (Inl e, c)
     | Inr (t, n) \<Rightarrow>
         if tpl_fields t = [] then
           if tpl_template_id t = TEMPLATE_SET_ID \<or> tpl_template_id t = OPTIONS_TEMPLATE_SET_ID
           then parse_template_records_loop body opt (offset + n) parsed (cache_clear c)
           else (case cache_remove c (tpl_template_id t) of
             (Inl e, c') \<Rightarrow> (Inl e, c')
           | (Inr _, c') \<Rightarrow> parse_template_records_loop body opt (offset + n) parsed c')
         else if min_record_len t = 0 then
           (Inl (Err (ZeroLengthTemplate (tpl_template_id t))), c)
         else (case cache_insert c t of
             (Inl e, c') \<Rightarrow> (Inl e, c')
           | (Inr _, c') \<Rightarrow>
               parse_template_records_loop body opt (offset + n) (parsed @ [t]) c'))"
  using assms
  by (subst parse_template_records_loop.simps)
     (auto simp: parse_options_template_record_def parse_template_record_def cong: sum.case_cong)

lemma data_loop_stop:
  assumes "\<not> offset < length body \<or> length body - offset < max (min_record_len t) 1"
  shows "decode_data_set_loop t body offset rs = Inr rs"
  using assms by (subst decode_data_set_loop.simps) auto

lemma data_loop_step:
  assumes "offset < length body" and "\<not> length body - offset < max (min_record_len t) 1"
  shows "decode_data_set_loop t body offset rs =
    (case decode_data_record t (drop offset body) of
       Inl e \<Rightarrow> Inl e
     | Inr (r, n) \<Rightarrow>
         if n = 0 then Inl (Err (EmptyDataRecord (tpl_template_id t)))
         else decode_data_set_loop t body (offset + n) (rs @ [r]))"
  using assms by (subst decode_data_set_loop.simps) (auto cong: sum.case_cong)

lemma sets_loop_stop:
  assumes "\<not> offset < length body \<or> length body - offset < SET_HEADER_LEN"
  shows "decode_sets_loop body offset sets c = (Inr sets, c)"
  using assms by (subst decode_sets_loop.simps) auto

abbreviation set_id_at :: "u8 list \<Rightarrow> nat \<Rightarrow> u16" where
  "set_id_at body offset \<equiv> from_be_bytes [body ! offset, body ! (offset + 1)]"

abbreviation set_len_at :: "u8 list \<Rightarrow> nat \<Rightarrow> u16" where
  "set_len_at body offset \<equiv> from_be_bytes [body ! (offset + 2), body ! (offset + 3)]"

lemma sets_loop_step:
  assumes "offset < length body" and "\<not> length body - offset < SET_HEADER_LEN"
  shows "decode_sets_loop body offset sets c =
    (let set_len = set_len_at body offset in
     if unat set_len < SET_HEADER_LEN then (Inl (Err (SetTooShortForHeader set_len)), c)
     else if unat set_len > length body - offset then
       (Inl (Err (SetLengthExceedsMessage set_len (length body - offset))), c)
     else (case decode_set (set_id_at body offset)
             (take (unat set_len - 4) (drop (offset + 4) body)) c of
         (Inl e, c') \<Rightarrow> (Inl e, c')
       | (Inr d, c') \<Rightarrow> decode_sets_loop body (offset + unat set_len) (sets @ [d]) c'))"
  using assms
  by (subst decode_sets_loop.simps)
     (auto simp: SET_HEADER_LEN_def Let_def add.commute add.left_commute numeral_eq_Suc)

section \<open>Data sets\<close>

definition records_layout :: "Template \<Rightarrow> DataRecord list \<Rightarrow> u8 list list \<Rightarrow> bool" where
  "records_layout t rs bss \<longleftrightarrow> list_all2 (\<lambda>r bs. dr_template_id r = tpl_template_id t \<and>
     record_layout (tpl_fields t) (dr_fields r) bs) rs bss"

lemma data_loop_sound:
  "decode_data_set_loop t body offset rs = Inr out \<Longrightarrow> offset \<le> length body \<Longrightarrow>
     \<exists>rs' bss pad. out = rs @ rs' \<and> drop offset body = concat bss @ pad \<and>
       records_layout t rs' bss \<and> length pad < max (min_record_len t) 1"
proof (induction "length body - offset" arbitrary: offset rs rule: less_induct)
  case less
  show ?case
  proof (cases "offset < length body \<and> \<not> length body - offset < max (min_record_len t) 1")
    case False
    then have "length (drop offset body) < max (min_record_len t) 1" by auto
    with False less.prems show ?thesis
      by (intro exI[of _ "[]"] exI[of _ "drop offset body"])
         (auto simp: data_loop_stop records_layout_def)
  next
    case True
    with less.prems(1) obtain r n where
      r: "decode_data_record t (drop offset body) = Inr (r, n)" and n: "n \<noteq> 0"
      and rest: "decode_data_set_loop t body (offset + n) (rs @ [r]) = Inr out"
      by (auto simp: data_loop_step split: sum.splits if_splits)
    note sound = decode_data_record_sound[OF r]
    have "length body - (offset + n) < length body - offset" and "offset + n \<le> length body"
      using n True sound(2) by auto
    from less.hyps[OF this(1) rest this(2)] obtain rs' bss pad where
      IH: "out = rs @ r # rs'" "drop (offset + n) body = concat bss @ pad"
      "records_layout t rs' bss" "length pad < max (min_record_len t) 1"
      by auto
    have "drop offset body = concat (take n (drop offset body) # bss) @ pad"
      using append_take_drop_id[of n "drop offset body"] IH(2) by (simp add: add.commute)
    with IH sound show ?thesis
      by (intro exI[of _ "r # rs'"] exI[of _ "take n (drop offset body) # bss"] exI[of _ pad])
         (simp add: records_layout_def)
  qed
qed

lemma data_loop_complete:
  assumes "0 < min_record_len t" and "length pad < min_record_len t"
  shows "records_layout t rs' bss \<Longrightarrow>
    decode_data_set_loop t (pre @ concat bss @ pad) (length pre) rs = Inr (rs @ rs')"
  unfolding records_layout_def
proof (induction rs' bss arbitrary: pre rs rule: list_all2_induct)
  case Nil
  show ?case using assms(2) by (subst data_loop_stop) auto
next
  case (Cons r rs' bs bss)
  have len: "min_record_len t \<le> length bs"
    using record_layout_min[of "tpl_fields t" "dr_fields r" bs] Cons.hyps(1)
    by (simp add: min_record_len_def)
  have "decode_data_record t (bs @ concat bss @ pad) = Inr (r, length bs)"
    using decode_data_record_complete[of t "dr_fields r" bs "concat bss @ pad"] Cons.hyps(1) by simp
  with assms(1) len Cons.IH[of "pre @ bs" "rs @ [r]"] show ?case
    by (subst data_loop_step) auto
qed

lemma data_loop_no_panic:
  "offset \<le> length body \<Longrightarrow> decode_data_set_loop t body offset rs \<noteq> Inl Panic"
proof (induction "length body - offset" arbitrary: offset rs rule: less_induct)
  case less
  show ?case
  proof (cases "offset < length body \<and> \<not> length body - offset < max (min_record_len t) 1")
    case False
    then show ?thesis by (auto simp: data_loop_stop)
  next
    case True
    have "n \<noteq> 0 \<Longrightarrow> decode_data_record t (drop offset body) = Inr (r, n) \<Longrightarrow>
        decode_data_set_loop t body (offset + n) (rs @ [r]) \<noteq> Inl Panic" for r n
      using less.hyps[of "offset + n" "rs @ [r]"] True
        decode_data_record_consumed(2)[of t "drop offset body" r n] by auto
    with True decode_data_record_no_panic[of t "drop offset body"] show ?thesis
      by (auto simp: data_loop_step split: sum.splits)
  qed
qed

lemma decode_fields_not_empty:
  "decode_fields tid fs input offset acc \<noteq> Inl (Err (EmptyDataRecord k))"
  by (induction fs arbitrary: offset acc)
     (auto simp: bind_res_eq_Inl field_len_of_def map_err_def slice_def slice_from_def
           split: sum.splits failure.splits if_splits)

lemma data_loop_no_empty:
  "0 < min_record_len t \<Longrightarrow>
     decode_data_set_loop t body offset rs \<noteq> Inl (Err (EmptyDataRecord k))"
proof (induction "length body - offset" arbitrary: offset rs rule: less_induct)
  case less
  show ?case
  proof (cases "offset < length body \<and> \<not> length body - offset < max (min_record_len t) 1")
    case False
    then show ?thesis by (auto simp: data_loop_stop)
  next
    case True
    have "n \<noteq> 0 \<and>
        decode_data_set_loop t body (offset + n) (rs @ [r]) \<noteq> Inl (Err (EmptyDataRecord k))"
      if r: "decode_data_record t (drop offset body) = Inr (r, n)" for r n
    proof -
      have n: "0 < n" using decode_data_record_consumed(1)[OF r] less.prems by simp
      then have "length body - (offset + n) < length body - offset" using True by auto
      from less.hyps[OF this less.prems] n show ?thesis by auto
    qed
    moreover have "decode_data_record t (drop offset body) \<noteq> Inl (Err (EmptyDataRecord k))"
      by (auto simp: decode_data_record_def bind_res_eq_Inl decode_fields_not_empty)
    ultimately show ?thesis using True
      by (auto simp: data_loop_step split: sum.splits)
  qed
qed

lemma parse_record_not_empty: "parse_record input opt \<noteq> Inl (Err (EmptyDataRecord k))"
proof -
  have "parse_field_specifier bs \<noteq> Inl (Err (EmptyDataRecord k))" for bs
    by (auto simp: parse_field_specifier_def Let_def)
  then have "parse_fields n input offset acc \<noteq> Inl (Err (EmptyDataRecord k))" for n offset acc
    by (induction n arbitrary: offset acc) (auto simp: bind_res_eq_Inl slice_from_def)
  then show ?thesis by (auto simp: parse_record_def Let_def bind_res_eq_Inl split: if_splits)
qed

lemma template_loop_no_empty:
  "fst (parse_template_records_loop body opt offset parsed c) \<noteq> Inl (Err (EmptyDataRecord k))"
proof (induction "length body - offset" arbitrary: offset parsed c rule: less_induct)
  case less
  show ?case
  proof (cases "offset < length body \<and> \<not> length body - offset < SET_HEADER_LEN")
    case False
    then show ?thesis by (auto simp: template_loop_stop)
  next
    case True
    note step = template_loop_step[OF conjunct1[OF True] conjunct2[OF True]]
    show ?thesis
    proof (cases "parse_record (drop offset body) opt")
      case (Inl e)
      with parse_record_not_empty[of "drop offset body" opt k] show ?thesis by (auto simp: step)
    next
      case (Inr tn)
      obtain t n where tn: "tn = (t, n)" by (cases tn)
      from parse_record_consumed(1)[OF Inr[unfolded tn]] True
      have "length body - (offset + n) < length body - offset" by auto
      note IH = less.hyps[OF this]
      have "fst (cache_insert c t) \<noteq> Inl (Err (EmptyDataRecord k))"
        "fst (cache_remove c k') \<noteq> Inl (Err (EmptyDataRecord k))" for k'
        by (auto simp: cache_insert_def cache_remove_def Let_def split: option.splits)
      then have "cache_insert c t \<noteq> (Inl (Err (EmptyDataRecord k)), c')"
        "cache_remove c k' \<noteq> (Inl (Err (EmptyDataRecord k)), c')" for k' c'
        by (metis fst_conv)+
      with Inr tn IH show ?thesis
        by (auto simp: step split: prod.splits sum.splits)
    qed
  qed
qed

section \<open>What the decoder relies on\<close>

text \<open>
  A predicate on caches that the four cache operations keep, under which they do not panic
  and every cached template has records of at least one byte, is kept by the decoder.
\<close>

locale cache_client =
  fixes inv :: "TemplateCache \<Rightarrow> bool"
  assumes inv_insert: "inv c \<Longrightarrow> usable_template t \<Longrightarrow> inv (snd (cache_insert c t))"
    and inv_remove: "inv c \<Longrightarrow> inv (snd (cache_remove c k))"
    and inv_clear: "inv c \<Longrightarrow> inv (cache_clear c)"
    and inv_observe: "inv c \<Longrightarrow> inv (observe_options_data c r)"
    and insert_safe: "inv c \<Longrightarrow> fst (cache_insert c t) \<noteq> Inl Panic"
    and remove_safe: "inv c \<Longrightarrow> fst (cache_remove c k) \<noteq> Inl Panic"
    and cached_usable: "inv c \<Longrightarrow> cache_get c k = Some t \<Longrightarrow> usable_template t"
begin

lemma template_records_loop:
  "inv c \<Longrightarrow> inv (snd (parse_template_records_loop body opt offset parsed c)) \<and>
     fst (parse_template_records_loop body opt offset parsed c) \<noteq> Inl Panic"
proof (induction "length body - offset" arbitrary: offset parsed c rule: less_induct)
  case less
  show ?case
  proof (cases "offset < length body \<and> \<not> length body - offset < SET_HEADER_LEN")
    case False
    with less.prems show ?thesis by (auto simp: template_loop_stop)
  next
    case True
    note step = template_loop_step[OF conjunct1[OF True] conjunct2[OF True]]
    show ?thesis
    proof (cases "parse_record (drop offset body) opt")
      case (Inl e)
      with less.prems parse_record_no_panic[of "drop offset body" opt] show ?thesis
        by (auto simp: step)
    next
      case (Inr tn)
      obtain t n where tn: "tn = (t, n)" by (cases tn)
      from parse_record_consumed(1)[OF Inr[unfolded tn]] True
      have "length body - (offset + n) < length body - offset" by auto
      note IH = less.hyps[OF this]
      have "0 < min_record_len t \<Longrightarrow> tpl_fields t \<noteq> [] \<Longrightarrow> usable_template t"
        by (simp add: usable_template_def)
      with Inr tn less.prems show ?thesis
        using IH inv_clear[OF less.prems] inv_remove[OF less.prems, of "tpl_template_id t"]
          inv_insert[OF less.prems, of t] insert_safe[OF less.prems, of t]
          remove_safe[OF less.prems, of "tpl_template_id t"]
        by (auto simp: step split: prod.splits sum.splits)
    qed
  qed
qed

lemma template_records_result:
  "inv c \<Longrightarrow> parse_template_records_loop body opt offset parsed c = (r, c') \<Longrightarrow>
     inv c' \<and> r \<noteq> Inl Panic"
  using template_records_loop[of c body opt offset parsed] by simp

lemma observe_all: "inv c \<Longrightarrow> inv (foldl observe_options_data c rs)"
  by (induction rs arbitrary: c) (auto intro: inv_observe)

lemma set_keeps: "inv c \<Longrightarrow> inv (snd (decode_set set_id body c))"
  by (auto simp: decode_set_def parse_template_records_def observe_all
      split: sum.split prod.split option.split dest: template_records_result)

lemma set_safe: "inv c \<Longrightarrow> fst (decode_set set_id body c) \<noteq> Inl Panic"
  using data_loop_no_panic[of 0 body _ "[]"]
  by (auto simp: decode_set_def parse_template_records_def decode_data_set_def
      split: sum.split prod.split option.split dest: template_records_result)

lemma sets_loop:
  "inv c \<Longrightarrow> inv (snd (decode_sets_loop body offset sets c)) \<and>
     fst (decode_sets_loop body offset sets c) \<noteq> Inl Panic"
proof (induction "length body - offset" arbitrary: offset sets c rule: less_induct)
  case less
  show ?case
  proof (cases "offset < length body \<and> \<not> length body - offset < SET_HEADER_LEN")
    case False
    with less.prems show ?thesis by (auto simp: sets_loop_stop)
  next
    case True
    let ?len = "unat (set_len_at body offset)"
    let ?d = "decode_set (set_id_at body offset) (take (?len - 4) (drop (offset + 4) body)) c"
    have "inv (snd ?d)" and "fst ?d \<noteq> Inl Panic"
      using less.prems by (rule set_keeps, rule set_safe)
    moreover have "inv (snd (decode_sets_loop body (offset + ?len) sets' c')) \<and>
        fst (decode_sets_loop body (offset + ?len) sets' c') \<noteq> Inl Panic"
      if "SET_HEADER_LEN \<le> ?len" "inv c'" for sets' c'
    proof -
      have "length body - (offset + ?len) < length body - offset"
        using that(1) True by (auto simp: SET_HEADER_LEN_def)
      from less.hyps[OF this that(2)] show ?thesis .
    qed
    ultimately show ?thesis using True less.prems
      by (auto simp: sets_loop_step Let_def split: sum.splits prod.splits)
  qed
qed

lemma set_no_empty:
  assumes c: "inv c"
  shows "fst (decode_set set_id body c) \<noteq> Inl (Err (EmptyDataRecord k))"
proof -
  have t: "parse_template_records_loop body opt 0 [] c \<noteq> (Inl (Err (EmptyDataRecord k)), c')"
    for opt c' using template_loop_no_empty[of body opt 0 "[]" c k] by auto
  have d: "decode_data_set_loop t body 0 [] \<noteq> Inl (Err (EmptyDataRecord k))"
    if "cache_get c set_id = Some t" for t
    using data_loop_no_empty cached_usable[OF c that] by (simp add: usable_template_def)
  show ?thesis
    by (auto simp: decode_set_def parse_template_records_def decode_data_set_def t d
        split: sum.split prod.split option.split)
qed

lemma sets_loop_no_empty:
  "inv c \<Longrightarrow> fst (decode_sets_loop body offset sets c) \<noteq> Inl (Err (EmptyDataRecord k))"
proof (induction "length body - offset" arbitrary: offset sets c rule: less_induct)
  case less
  show ?case
  proof (cases "offset < length body \<and> \<not> length body - offset < SET_HEADER_LEN")
    case False
    then show ?thesis by (auto simp: sets_loop_stop)
  next
    case True
    let ?len = "unat (set_len_at body offset)"
    let ?d = "decode_set (set_id_at body offset) (take (?len - 4) (drop (offset + 4) body)) c"
    have "inv (snd ?d)" and "fst ?d \<noteq> Inl (Err (EmptyDataRecord k))"
      using less.prems by (rule set_keeps, rule set_no_empty)
    moreover have "fst (decode_sets_loop body (offset + ?len) sets' c') \<noteq>
        Inl (Err (EmptyDataRecord k))" if "SET_HEADER_LEN \<le> ?len" "inv c'" for sets' c'
    proof -
      have "length body - (offset + ?len) < length body - offset"
        using that(1) True by (auto simp: SET_HEADER_LEN_def)
      from less.hyps[OF this that(2)] show ?thesis .
    qed
    ultimately show ?thesis using True less.prems
      by (auto simp: sets_loop_step Let_def split: sum.splits prod.splits)
  qed
qed

lemma message_no_empty:
  assumes "inv c"
  shows "fst (decode_message input c) \<noteq> Inl (Err (EmptyDataRecord k))"
proof -
  have "decode_sets_loop body 0 [] c \<noteq> (Inl (Err (EmptyDataRecord k)), c')" for body c'
    using sets_loop_no_empty[OF assms, of body 0 "[]" k] by auto
  moreover have "parse_header input \<noteq> Inl (Err (EmptyDataRecord k))"
    by (auto simp: parse_header_def MESSAGE_HEADER_LEN_def)
  ultimately show ?thesis
    by (auto simp: decode_message_def slice_def split: sum.splits prod.splits if_splits)
qed

lemma sets_loop_result:
  "inv c \<Longrightarrow> decode_sets_loop body offset sets c = (r, c') \<Longrightarrow> inv c' \<and> r \<noteq> Inl Panic"
  using sets_loop[of c body offset sets] by simp

lemma message_keeps: "inv c \<Longrightarrow> inv (snd (decode_message input c))"
  by (auto simp: decode_message_def split: sum.splits prod.splits dest: sets_loop_result)

lemma message_safe: "inv c \<Longrightarrow> fst (decode_message input c) \<noteq> Inl Panic"
  using parse_header_no_panic[of input] parse_header_Inr(1,2)[of input]
  by (auto simp: decode_message_def MESSAGE_HEADER_LEN_def slice_def
      split: sum.splits prod.splits if_splits dest: sets_loop_result)

end

interpretation cache: cache_client cache_ok
  by unfold_locales
     (auto simp: cache_insert_ok cache_remove_ok cache_clear_ok observe_options_data_ok
        cache_insert_no_panic cache_remove_no_panic cache_get_def dest: cache_get_ok(1))

section \<open>Properties of the decoder\<close>

text \<open>The cache after a sequence of datagrams, whatever they hold, from an empty one.\<close>

definition cache_after :: "u8 list list \<Rightarrow> TemplateCache" where
  "cache_after inputs = fold (\<lambda>input c. snd (decode_message input c)) inputs new_cache"

lemma cache_after_ok: "cache_ok (cache_after inputs)"
proof -
  have "cache_ok c \<Longrightarrow> cache_ok (fold (\<lambda>input c. snd (decode_message input c)) inputs c)" for c
    by (induction inputs arbitrary: c) (auto intro: cache.message_keeps)
  then show ?thesis by (simp add: cache_after_def new_cache_ok)
qed

text \<open>
  Property C2. Whatever datagrams an exporter sends, its template cache stays within its
  memory bound: at most 512 templates and 8192 field specifiers, the running field count is
  the true total, ids are not cached twice, and every cached template describes records of at
  least one byte.
\<close>

theorem template_cache_stays_bounded:
  "cache_len (cache_after inputs) \<le> 512 \<and>
   cache_field_count (cache_after inputs) \<le> 8192 \<and>
   cache_field_count (cache_after inputs) =
     sum_list (map (length \<circ> tpl_fields \<circ> snd) (tc_templates (cache_after inputs))) \<and>
   distinct (map fst (tc_templates (cache_after inputs))) \<and>
   list_all (\<lambda>(k, t). tpl_template_id t = k \<and> 0 < min_record_len t)
     (tc_templates (cache_after inputs))"
  using cache_after_ok[of inputs]
  by (auto simp: cache_ok_def cache_len_def cache_field_count_def MAX_TEMPLATES_def
      MAX_TEMPLATE_FIELDS_def usable_template_def comp_def case_prod_unfold list_all_iff)

text \<open>
  Property C3. No datagram makes the decoder panic: after any traffic, decoding any bytes ends
  in a message or in an error value; every index and slice is in range and no counter
  underflows. The guard error for a record that consumed no bytes is never returned.
\<close>

theorem decode_message_never_panics:
  "fst (decode_message input (cache_after inputs)) \<noteq> Inl Panic \<and>
   fst (decode_message input (cache_after inputs)) \<noteq> Inl (Err (EmptyDataRecord k))"
  using cache.message_safe[OF cache_after_ok] cache.message_no_empty[OF cache_after_ok] by simp

text \<open>
  A data set decodes to a list of records exactly when it is those records laid
  out one after another, followed by padding too short for another record.
\<close>

theorem decode_data_set_refines_layout:
  assumes "0 < min_record_len t"
  shows "decode_data_set t body = Inr rs \<longleftrightarrow>
    (\<exists>bss pad. body = concat bss @ pad \<and> records_layout t rs bss \<and> length pad < min_record_len t)"
    (is "?L \<longleftrightarrow> ?R")
proof
  assume ?L
  with data_loop_sound[of t body 0 "[]" rs] assms show ?R
    by (force simp: decode_data_set_def max_def split: if_splits)
next
  assume ?R
  with data_loop_complete[OF assms, of _ rs _ "[]" "[]"] show ?L
    by (auto simp: decode_data_set_def)
qed

text \<open>A template of one single-byte element (4, protocolIdentifier), for the witnesses.\<close>

definition protocol_template :: Template where
  "protocol_template = \<lparr>tpl_template_id = 256, tpl_scope_field_count = 0,
     tpl_fields = [\<lparr>fs_information_element_id = 4, fs_field_length = 1,
       fs_enterprise_number = None\<rparr>]\<rparr>"

theorem decode_data_set_refines_layout_witness:
  "0 < min_record_len protocol_template \<and>
   (\<exists>bss pad. [6, 17] = concat bss @ pad \<and>
      records_layout protocol_template
        [\<lparr>dr_template_id = 256, dr_fields = [\<lparr>df_information_element_id = 4,
           df_enterprise_number = None, df_value = [6]\<rparr>]\<rparr>,
         \<lparr>dr_template_id = 256, dr_fields = [\<lparr>df_information_element_id = 4,
           df_enterprise_number = None, df_value = [17]\<rparr>]\<rparr>] bss \<and>
      length pad < min_record_len protocol_template)"
proof -
  have pos: "0 < min_record_len protocol_template" by code_simp
  have "decode_data_set protocol_template [6, 17] = Inr
        [\<lparr>dr_template_id = 256, dr_fields = [\<lparr>df_information_element_id = 4,
           df_enterprise_number = None, df_value = [6]\<rparr>]\<rparr>,
         \<lparr>dr_template_id = 256, dr_fields = [\<lparr>df_information_element_id = 4,
           df_enterprise_number = None, df_value = [17]\<rparr>]\<rparr>]"
    by code_simp
  with decode_data_set_refines_layout[OF pos] pos show ?thesis by blast
qed

end
