(* ===== verification/Ipfix_Replay.thy ===== *)
theory Ipfix_Replay
  imports Ipfix_Decoder
begin

text \<open>
  The message builders of the replay tool (\<open>src/tools/flow-replay/src/synthetic.rs\<close>), which
  write the wire format that the decoder reads, and the round trips between the two. The wall
  clock that \<open>message_header\<close> reads is the argument \<open>now\<close> (seconds, already cast to \<open>u32\<close>).
\<close>

section \<open>The builders\<close>

definition TEMPLATE_ID_IPV4 :: u16 where "TEMPLATE_ID_IPV4 = 256"
definition TEMPLATE_ID_IPV6 :: u16 where "TEMPLATE_ID_IPV6 = 257"
definition OPTIONS_TEMPLATE_ID :: u16 where "OPTIONS_TEMPLATE_ID = 300"

datatype IpProtocol = ReplayTcp | ReplayUdp | ReplayIcmp

primrec protocol_number :: "IpProtocol \<Rightarrow> u8" where
  "protocol_number ReplayTcp = 6"
| "protocol_number ReplayUdp = 17"
| "protocol_number ReplayIcmp = 1"

definition message_header :: "u32 \<Rightarrow> u16 \<Rightarrow> u32 \<Rightarrow> u32 \<Rightarrow> u8 list" where
  "message_header now len sequence_number observation_domain_id =
     to_be_bytes 2 IPFIX_VERSION @ to_be_bytes 2 len @ to_be_bytes 4 now @
     to_be_bytes 4 sequence_number @ to_be_bytes 4 observation_domain_id"

definition wrap_set :: "u16 \<Rightarrow> u8 list \<Rightarrow> u8 list" where
  "wrap_set set_id body =
     to_be_bytes 2 set_id @ to_be_bytes 2 (of_nat (4 + length body) :: u16) @ body"

definition wrap_message :: "u32 \<Rightarrow> u8 list \<Rightarrow> u32 \<Rightarrow> u32 \<Rightarrow> u8 list" where
  "wrap_message now set_bytes sequence_number observation_domain_id =
     message_header now (of_nat (16 + length set_bytes)) sequence_number observation_domain_id @ set_bytes"

text \<open>The \<open>for (ie, len) in [..]\<close> loop of the two template builders.\<close>

definition field_list :: "(u16 \<times> u16) list \<Rightarrow> u8 list" where
  "field_list fs = concat (map (\<lambda>(ie, len). to_be_bytes 2 ie @ to_be_bytes 2 len) fs)"

definition template_message_ipv4 :: "u32 \<Rightarrow> u32 \<Rightarrow> u32 \<Rightarrow> u8 list" where
  "template_message_ipv4 now sequence_number observation_domain_id =
     wrap_message now
       (wrap_set TEMPLATE_SET_ID (to_be_bytes 2 TEMPLATE_ID_IPV4 @ to_be_bytes 2 (7 :: u16) @
          field_list [(8, 4), (12, 4), (7, 2), (11, 2), (4, 1), (1, 8), (2, 8)]))
       sequence_number observation_domain_id"

definition template_message_ipv6 :: "u32 \<Rightarrow> u32 \<Rightarrow> u32 \<Rightarrow> u8 list" where
  "template_message_ipv6 now sequence_number observation_domain_id =
     wrap_message now
       (wrap_set TEMPLATE_SET_ID (to_be_bytes 2 TEMPLATE_ID_IPV6 @ to_be_bytes 2 (7 :: u16) @
          field_list [(27, 16), (28, 16), (7, 2), (11, 2), (4, 1), (1, 8), (2, 8)]))
       sequence_number observation_domain_id"

definition options_template_message :: "u32 \<Rightarrow> u32 \<Rightarrow> u32 \<Rightarrow> u8 list" where
  "options_template_message now sequence_number observation_domain_id =
     wrap_message now
       (wrap_set OPTIONS_TEMPLATE_SET_ID (to_be_bytes 2 OPTIONS_TEMPLATE_ID @
          to_be_bytes 2 (2 :: u16) @ to_be_bytes 2 (1 :: u16) @
          to_be_bytes 2 (10 :: u16) @ to_be_bytes 2 (4 :: u16) @
          to_be_bytes 2 (34 :: u16) @ to_be_bytes 2 (4 :: u16)))
       sequence_number observation_domain_id"

definition options_data_message :: "u32 \<Rightarrow> u32 \<Rightarrow> u32 \<Rightarrow> u32 \<Rightarrow> u32 \<Rightarrow> u8 list" where
  "options_data_message now sequence_number observation_domain_id interface sampling_rate =
     wrap_message now
       (wrap_set OPTIONS_TEMPLATE_ID (to_be_bytes 4 interface @ to_be_bytes 4 sampling_rate))
       sequence_number observation_domain_id"

record Ipv4Record =
  ir_source :: u32
  ir_destination :: u32
  ir_source_port :: u16
  ir_destination_port :: u16
  ir_protocol :: IpProtocol
  ir_byte_count :: u64
  ir_packet_count :: u64

definition IPV4_RECORD_LEN :: nat where
  "IPV4_RECORD_LEN = 29"

definition data_message_ipv4 ::
    "u32 \<Rightarrow> u32 \<Rightarrow> u32 \<Rightarrow> u32 \<Rightarrow> u32 \<Rightarrow> u16 \<Rightarrow> u16 \<Rightarrow> IpProtocol \<Rightarrow> u64 \<Rightarrow> u64 \<Rightarrow> u8 list" where
  "data_message_ipv4 now sequence_number observation_domain_id source destination source_port
       destination_port protocol byte_count packet_count =
     wrap_message now
       (wrap_set TEMPLATE_ID_IPV4 (to_be_bytes 4 source @ to_be_bytes 4 destination @
          to_be_bytes 2 source_port @ to_be_bytes 2 destination_port @
          [protocol_number protocol] @ to_be_bytes 8 byte_count @ to_be_bytes 8 packet_count))
       sequence_number observation_domain_id"

text \<open>The body of the loop of \<open>data_message_ipv4_batch\<close>.\<close>

definition ipv4_record_bytes :: "Ipv4Record \<Rightarrow> u8 list" where
  "ipv4_record_bytes r =
     to_be_bytes 4 (ir_source r) @ to_be_bytes 4 (ir_destination r) @
     to_be_bytes 2 (ir_source_port r) @ to_be_bytes 2 (ir_destination_port r) @
     [protocol_number (ir_protocol r)] @
     to_be_bytes 8 (ir_byte_count r) @ to_be_bytes 8 (ir_packet_count r)"

definition data_message_ipv4_batch :: "u32 \<Rightarrow> u32 \<Rightarrow> u32 \<Rightarrow> Ipv4Record list \<Rightarrow> u8 list" where
  "data_message_ipv4_batch now sequence_number observation_domain_id records =
     wrap_message now (wrap_set TEMPLATE_ID_IPV4 (concat (map ipv4_record_bytes records)))
       sequence_number observation_domain_id"

definition data_message_ipv6 ::
    "u32 \<Rightarrow> u32 \<Rightarrow> u32 \<Rightarrow> u128 \<Rightarrow> u128 \<Rightarrow> u16 \<Rightarrow> u16 \<Rightarrow> IpProtocol \<Rightarrow> u64 \<Rightarrow> u64 \<Rightarrow> u8 list" where
  "data_message_ipv6 now sequence_number observation_domain_id source destination source_port
       destination_port protocol byte_count packet_count =
     wrap_message now
       (wrap_set TEMPLATE_ID_IPV6 (to_be_bytes 16 source @ to_be_bytes 16 destination @
          to_be_bytes 2 source_port @ to_be_bytes 2 destination_port @
          [protocol_number protocol] @ to_be_bytes 8 byte_count @ to_be_bytes 8 packet_count))
       sequence_number observation_domain_id"

lemma length_field_list [simp]: "length (field_list fs) = 4 * length fs"
  by (induction fs) (auto simp: field_list_def)

section \<open>Framing\<close>

lemma u16_at_append: "length pre = n \<Longrightarrow> u16_at (pre @ to_be_bytes 2 w @ post) n = Inr w"
proof -
  assume n: "length pre = n"
  obtain a b where ab: "to_be_bytes 2 w = [a, b]"
    using length_to_be_bytes[of 2 w] by (auto simp: length_Suc_conv numeral_eq_Suc)
  have "from_be_bytes [a, b] = w" using from_be_to_be_bytes[of 2 w] by (simp add: ab)
  then show ?thesis unfolding ab by (simp add: u16_at_def nth_append n)
qed

lemma u32_at_append: "length pre = n \<Longrightarrow> u32_at (pre @ to_be_bytes 4 w @ post) n = Inr w"
proof -
  assume n: "length pre = n"
  obtain a b c d where abcd: "to_be_bytes 4 w = [a, b, c, d]"
    using length_to_be_bytes[of 4 w] by (auto simp: length_Suc_conv numeral_eq_Suc)
  have "from_be_bytes [a, b, c, d] = w" using from_be_to_be_bytes[of 4 w] by (simp add: abcd)
  then show ?thesis unfolding abcd by (simp add: u32_at_def nth_append n)
qed

lemma parse_header_message_header:
  assumes "16 \<le> unat len" "unat len \<le> 16 + length rest"
  shows "parse_header (message_header now len sequence_number domain @ rest) =
    Inr \<lparr>mh_version = IPFIX_VERSION, mh_length = len, mh_export_time = now,
      mh_sequence_number = sequence_number, mh_observation_domain_id = domain\<rparr>"
proof -
  let ?v = "to_be_bytes 2 IPFIX_VERSION" and ?l = "to_be_bytes 2 len" and ?t = "to_be_bytes 4 now"
  let ?s = "to_be_bytes 4 sequence_number" and ?d = "to_be_bytes 4 domain"
  have "u16_at (?v @ ?l @ ?t @ ?s @ ?d @ rest) 0 = Inr IPFIX_VERSION"
    using u16_at_append[of "[]" 0] by simp
  moreover have "u16_at (?v @ ?l @ ?t @ ?s @ ?d @ rest) 2 = Inr len"
    by (rule u16_at_append) simp
  moreover have "u32_at (?v @ ?l @ ?t @ ?s @ ?d @ rest) 4 = Inr now"
    using u32_at_append[of "?v @ ?l" 4] by simp
  moreover have "u32_at (?v @ ?l @ ?t @ ?s @ ?d @ rest) 8 = Inr sequence_number"
    using u32_at_append[of "?v @ ?l @ ?t" 8] by simp
  moreover have "u32_at (?v @ ?l @ ?t @ ?s @ ?d @ rest) 12 = Inr domain"
    using u32_at_append[of "?v @ ?l @ ?t @ ?s" 12] by simp
  ultimately show ?thesis
    using assms by (simp add: parse_header_def message_header_def MESSAGE_HEADER_LEN_def)
qed

lemma sets_loop_wrapped:
  assumes "length body + 4 < 2 ^ 16"
  shows "decode_sets_loop (front @ wrap_set set_id body @ post) (length front) sets c =
    (case decode_set set_id body c of
       (Inl e, c') \<Rightarrow> (Inl e, c')
     | (Inr d, c') \<Rightarrow> decode_sets_loop (front @ wrap_set set_id body @ post)
         (length (front @ wrap_set set_id body)) (sets @ [d]) c')"
proof -
  let ?b = "front @ wrap_set set_id body @ post" and ?n = "length front"
  have "u16_at ?b ?n = Inr set_id"
    unfolding wrap_set_def by (simp add: u16_at_append del: u16_at_in_range)
  moreover have "u16_at ?b (?n + 2) = Inr (of_nat (4 + length body))"
    using u16_at_append[of "front @ to_be_bytes 2 set_id" "?n + 2"] by (simp add: wrap_set_def)
  moreover have len: "length ?b = ?n + 4 + length body + length post" by (simp add: wrap_set_def)
  ultimately have id: "set_id_at ?b ?n = set_id"
    and lenw: "set_len_at ?b ?n = of_nat (4 + length body)" by (simp_all add: numeral_eq_Suc)
  have u: "unat (of_nat (4 + length body) :: u16) = 4 + length body"
    using assms by (simp add: unat_of_nat take_bit_nat_eq_self del: of_nat_add)
  have body: "take (length body) (drop (?n + 4) ?b) = body" by (simp add: wrap_set_def)
  have upto: "length (front @ wrap_set set_id body) = ?n + (4 + length body)" by (simp add: wrap_set_def)
  have step: "?n < length ?b" "\<not> length ?b - ?n < SET_HEADER_LEN" unfolding len by (simp_all add: SET_HEADER_LEN_def)
  show ?thesis
    unfolding sets_loop_step[OF step, of sets c] lenw id Let_def u upto add_diff_cancel_left' body
    by (simp add: len SET_HEADER_LEN_def) (simp add: wrap_set_def)
qed

lemma decode_sets_wrap_set:
  assumes "length body + 4 < 2 ^ 16"
  shows "decode_sets_loop (wrap_set set_id body) 0 [] c =
    (case decode_set set_id body c of
       (Inl e, c') \<Rightarrow> (Inl e, c') | (Inr d, c') \<Rightarrow> (Inr [d], c'))"
  using sets_loop_wrapped[OF assms, of "[]" set_id "[]" "[]" c]
  by (simp add: sets_loop_stop split: sum.split prod.split)

lemma decode_wrapped_sets:
  assumes "16 + length sets < 2 ^ 16"
  shows "decode_message (wrap_message now sets sequence_number domain) c =
    (case decode_sets_loop sets 0 [] c of
       (Inl e, c') \<Rightarrow> (Inl e, c')
     | (Inr ds, c') \<Rightarrow>
         (Inr \<lparr>dm_header = \<lparr>mh_version = IPFIX_VERSION, mh_length = of_nat (16 + length sets),
            mh_export_time = now, mh_sequence_number = sequence_number,
            mh_observation_domain_id = domain\<rparr>, dm_sets = ds\<rparr>, c'))"
proof -
  have u: "unat (of_nat (16 + length sets) :: u16) = 16 + length sets"
    using assms by (simp add: unat_of_nat take_bit_nat_eq_self del: of_nat_add)
  have "slice (wrap_message now sets sequence_number domain) 16 (16 + length sets) = (Inr sets :: u8 list decoded)"
    by (simp add: wrap_message_def message_header_def slice_def)
  moreover have "parse_header (wrap_message now sets sequence_number domain) =
      Inr \<lparr>mh_version = IPFIX_VERSION, mh_length = of_nat (16 + length sets), mh_export_time = now,
        mh_sequence_number = sequence_number, mh_observation_domain_id = domain\<rparr>"
    unfolding wrap_message_def by (rule parse_header_message_header) (simp_all add: u del: of_nat_add)
  ultimately show ?thesis
    by (simp only: decode_message_def sum.case MessageHeader.select_convs u MESSAGE_HEADER_LEN_def)
qed

text \<open>The decoder sees exactly the set that was wrapped, in a message with the header that was
  written, as long as the 16-bit length fields can hold the lengths.\<close>

lemma decode_wrap_message:
  assumes "length body + 20 < 2 ^ 16"
  shows "decode_message (wrap_message now (wrap_set set_id body) sequence_number domain) c =
    (case decode_set set_id body c of
       (Inl e, c') \<Rightarrow> (Inl e, c')
     | (Inr d, c') \<Rightarrow>
         (Inr \<lparr>dm_header = \<lparr>mh_version = IPFIX_VERSION, mh_length = of_nat (length body + 20),
            mh_export_time = now, mh_sequence_number = sequence_number,
            mh_observation_domain_id = domain\<rparr>, dm_sets = [d]\<rparr>, c'))"
proof -
  have len: "16 + length (wrap_set set_id body) = length body + 20" by (simp add: wrap_set_def)
  have "16 + length (wrap_set set_id body) < 2 ^ 16" "length body + 4 < 2 ^ 16" using assms by (simp_all add: len)
  then show ?thesis
    by (simp only: decode_wrapped_sets decode_sets_wrap_set len) (simp split: sum.split prod.split)
qed

section \<open>Round trips\<close>

lemma as_u64_be_to_be_bytes:
  fixes w :: "'a::len word"
  assumes "LENGTH('a) = 8 * n" "n \<le> 8"
  shows "as_u64_be \<lparr>df_information_element_id = ie, df_enterprise_number = en,
    df_value = to_be_bytes n w\<rparr> = Some (ucast w)"
proof -
  have "to_be_bytes n w \<noteq> []"
    using assms(1) length_to_be_bytes[of n w] by (metis list.size(3) mult_0_right len_not_eq_0)
  with assms show ?thesis
    by (simp add: as_u64_be_def from_be_bytes_padded from_be_to_be_bytes_ucast)
qed

text \<open>The templates the messages announce, and the records the data messages carry.\<close>

definition plain_field :: "u16 \<times> u16 \<Rightarrow> FieldSpecifier" where
  "plain_field = (\<lambda>(ie, len). \<lparr>fs_information_element_id = ie, fs_field_length = len,
     fs_enterprise_number = None\<rparr>)"

definition ipv4_template :: Template where
  "ipv4_template = \<lparr>tpl_template_id = 256, tpl_scope_field_count = 0,
     tpl_fields = map plain_field [(8, 4), (12, 4), (7, 2), (11, 2), (4, 1), (1, 8), (2, 8)]\<rparr>"

definition ipv6_template :: Template where
  "ipv6_template = \<lparr>tpl_template_id = 257, tpl_scope_field_count = 0,
     tpl_fields = map plain_field [(27, 16), (28, 16), (7, 2), (11, 2), (4, 1), (1, 8), (2, 8)]\<rparr>"

definition options_template :: Template where
  "options_template = \<lparr>tpl_template_id = 300, tpl_scope_field_count = 1,
     tpl_fields = map plain_field [(10, 4), (34, 4)]\<rparr>"

definition plain_value :: "u16 \<times> u8 list \<Rightarrow> DecodedField" where
  "plain_value = (\<lambda>(ie, v). \<lparr>df_information_element_id = ie, df_enterprise_number = None, df_value = v\<rparr>)"

definition ipv4_data_record :: "Ipv4Record \<Rightarrow> DataRecord" where
  "ipv4_data_record r = \<lparr>dr_template_id = 256, dr_fields = map plain_value
     [(8, to_be_bytes 4 (ir_source r)), (12, to_be_bytes 4 (ir_destination r)),
      (7, to_be_bytes 2 (ir_source_port r)), (11, to_be_bytes 2 (ir_destination_port r)),
      (4, [protocol_number (ir_protocol r)]),
      (1, to_be_bytes 8 (ir_byte_count r)), (2, to_be_bytes 8 (ir_packet_count r))]\<rparr>"

lemma parse_announced:
  "parse_record (to_be_bytes 2 TEMPLATE_ID_IPV4 @ to_be_bytes 2 (7 :: u16) @
     field_list [(8, 4), (12, 4), (7, 2), (11, 2), (4, 1), (1, 8), (2, 8)]) False =
     Inr (ipv4_template, 32)"
  "parse_record (to_be_bytes 2 TEMPLATE_ID_IPV6 @ to_be_bytes 2 (7 :: u16) @
     field_list [(27, 16), (28, 16), (7, 2), (11, 2), (4, 1), (1, 8), (2, 8)]) False =
     Inr (ipv6_template, 32)"
  "parse_record (to_be_bytes 2 OPTIONS_TEMPLATE_ID @ to_be_bytes 2 (2 :: u16) @
     to_be_bytes 2 (1 :: u16) @ to_be_bytes 2 (10 :: u16) @ to_be_bytes 2 (4 :: u16) @
     to_be_bytes 2 (34 :: u16) @ to_be_bytes 2 (4 :: u16)) True = Inr (options_template, 14)"
  by code_simp+

lemma announced_usable:
  "0 < min_record_len ipv4_template" "tpl_fields ipv4_template \<noteq> []"
  "0 < min_record_len ipv6_template" "tpl_fields ipv6_template \<noteq> []"
  "0 < min_record_len options_template" "tpl_fields options_template \<noteq> []"
  by code_simp+

text \<open>A set that holds one template record and nothing else defines that template, or is refused
  because the cache is full.\<close>

lemma template_set_single:
  assumes "parse_record body opt = Inr (t, length body)" "tpl_fields t \<noteq> []" "0 < min_record_len t"
    "4 \<le> length body"
  shows "parse_template_records body c opt =
    (case cache_insert c t of (Inl e, c') \<Rightarrow> (Inl e, c') | (Inr u, c') \<Rightarrow> (Inr [t], c'))"
  using assms unfolding parse_template_records_def
  by (subst template_loop_step)
     (auto simp: SET_HEADER_LEN_def template_loop_stop split: sum.split prod.split)

lemma record_layout_plain:
  "list_all2 (\<lambda>(ie, len) (ie', v). ie = ie' \<and> len \<noteq> VARIABLE_LENGTH \<and> length v = unat len) fs vs \<Longrightarrow>
     record_layout (map plain_field fs) (map plain_value vs) (concat (map snd vs))"
proof (induction fs vs rule: list_all2_induct)
  case Nil
  show ?case by (simp add: record_layout.Nil)
next
  case (Cons f fs v vs)
  have "field_layout (plain_field f) (plain_value v) (snd v)"
    using Cons.hyps(1) field_layout.fixed[of "plain_field f" "snd v"]
    by (auto simp: plain_field_def plain_value_def split: prod.splits)
  with Cons.IH show ?case by (auto intro: record_layout.Cons)
qed

lemma ipv4_record_layout:
  "record_layout (tpl_fields ipv4_template) (dr_fields (ipv4_data_record r)) (ipv4_record_bytes r)"
proof -
  have "ipv4_record_bytes r = concat (map snd
     [(8 :: u16, to_be_bytes 4 (ir_source r)), (12, to_be_bytes 4 (ir_destination r)),
      (7, to_be_bytes 2 (ir_source_port r)), (11, to_be_bytes 2 (ir_destination_port r)),
      (4, [protocol_number (ir_protocol r)]),
      (1, to_be_bytes 8 (ir_byte_count r)), (2, to_be_bytes 8 (ir_packet_count r))])"
    by (simp add: ipv4_record_bytes_def)
  then show ?thesis
    unfolding ipv4_template_def ipv4_data_record_def Template.select_convs DataRecord.select_convs
    by (simp only:) (rule record_layout_plain, simp add: VARIABLE_LENGTH_def)
qed

lemma decode_ipv4_batch_set:
  "decode_data_set ipv4_template (concat (map ipv4_record_bytes rs)) = Inr (map ipv4_data_record rs)"
proof -
  have "records_layout ipv4_template (map ipv4_data_record rs) (map ipv4_record_bytes rs)"
    unfolding records_layout_def
    by (simp add: list_all2_conv_all_nth ipv4_record_layout)
       (simp add: ipv4_template_def ipv4_data_record_def)
  from data_loop_complete[OF announced_usable(1) _ this, of "[]" "[]" "[]"] announced_usable(1)
  show ?thesis by (simp add: decode_data_set_def)
qed

lemma length_ipv4_record_bytes [simp]: "length (ipv4_record_bytes r) = IPV4_RECORD_LEN"
  by (simp add: ipv4_record_bytes_def IPV4_RECORD_LEN_def)

lemma length_ipv4_batch: "length (concat (map ipv4_record_bytes rs)) = IPV4_RECORD_LEN * length rs"
  by (induction rs) simp_all

lemma cache_insert_get:
  "cache_insert c t = (Inr u, c') \<Longrightarrow> cache_get c' (tpl_template_id t) = Some t"
  by (auto simp: cache_insert_def cache_get_def Let_def update_conv' split: option.splits if_splits)

lemma decode_template_message:
  assumes "cache_insert c ipv4_template = (Inr u, c')"
  shows "decode_message (template_message_ipv4 now sq domain) c =
    (Inr \<lparr>dm_header = \<lparr>mh_version = IPFIX_VERSION, mh_length = 52, mh_export_time = now,
       mh_sequence_number = sq, mh_observation_domain_id = domain\<rparr>,
       dm_sets = [Templates [ipv4_template]]\<rparr>, c')"
proof -
  let ?body = "to_be_bytes 2 TEMPLATE_ID_IPV4 @ to_be_bytes 2 (7 :: u16) @
    field_list [(8, 4), (12, 4), (7, 2), (11, 2), (4, 1), (1, 8), (2, 8)]"
  have len: "length ?body = 32" by simp
  have "decode_set TEMPLATE_SET_ID ?body c = (Inr (Templates [ipv4_template]), c')"
    using template_set_single[of ?body False ipv4_template c] parse_announced(1) announced_usable assms
    by (simp add: decode_set_def len)
  then show ?thesis
    unfolding template_message_ipv4_def by (subst decode_wrap_message) (simp_all add: len)
qed

text \<open>
  Property C4. What the replay tool writes, the decoder reads back. After a template message that the
  cache has room for, a batch of IPv4 records that fits the 16-bit length fields decodes to
  exactly those records, in order, under the header that was written, and leaves the cache as
  the template left it.
\<close>

theorem replayed_batch_round_trips:
  assumes room: "cache_insert c ipv4_template = (Inr (), c')"
    and fits: "IPV4_RECORD_LEN * length rs + 20 < 2 ^ 16"
  shows "snd (decode_message (template_message_ipv4 now sq domain) c) = c' \<and>
    decode_message (data_message_ipv4_batch now' sq' domain rs) c' =
      (Inr \<lparr>dm_header = \<lparr>mh_version = IPFIX_VERSION,
          mh_length = of_nat (IPV4_RECORD_LEN * length rs + 20), mh_export_time = now',
          mh_sequence_number = sq', mh_observation_domain_id = domain\<rparr>,
        dm_sets = [Data TEMPLATE_ID_IPV4 (map ipv4_data_record rs)]\<rparr>, c')"
proof -
  have get: "cache_get c' TEMPLATE_ID_IPV4 = Some ipv4_template"
    using cache_insert_get[OF room] by (simp add: ipv4_template_def TEMPLATE_ID_IPV4_def)
  have scope: "tpl_scope_field_count ipv4_template = 0" by (simp add: ipv4_template_def)
  have "decode_set TEMPLATE_ID_IPV4 (concat (map ipv4_record_bytes rs)) c' =
      (Inr (Data TEMPLATE_ID_IPV4 (map ipv4_data_record rs)), c')"
    using get scope decode_ipv4_batch_set[of rs]
    by (simp add: decode_set_def TEMPLATE_SET_ID_def OPTIONS_TEMPLATE_SET_ID_def MIN_DATA_SET_ID_def
        TEMPLATE_ID_IPV4_def)
  with fits show ?thesis
    unfolding data_message_ipv4_batch_def decode_template_message[OF room]
    by (subst decode_wrap_message) (simp_all add: length_ipv4_batch)
qed

definition sample_record :: Ipv4Record where
  "sample_record = \<lparr>ir_source = 0xC0000201, ir_destination = 0xC6336401, ir_source_port = 443,
     ir_destination_port = 51000, ir_protocol = ReplayTcp, ir_byte_count = 1500, ir_packet_count = 2\<rparr>"

theorem replayed_batch_round_trips_witness:
  "fst (decode_message (data_message_ipv4_batch 1 2 7 [sample_record, sample_record])
     (snd (decode_message (template_message_ipv4 0 1 7) new_cache))) =
   Inr \<lparr>dm_header = \<lparr>mh_version = 10, mh_length = 78, mh_export_time = 1,
       mh_sequence_number = 2, mh_observation_domain_id = 7\<rparr>,
     dm_sets = [Data 256 [ipv4_data_record sample_record, ipv4_data_record sample_record]]\<rparr>"
proof -
  let ?c = "\<lparr>tc_templates = [(256, ipv4_template)], tc_fields = 7, tc_sampling = default_sampling\<rparr>"
  have "cache_insert new_cache ipv4_template = (Inr (), ?c)" by code_simp
  from replayed_batch_round_trips[OF this, of "[sample_record, sample_record]" 0 1 7 1 2]
  show ?thesis by (simp add: IPV4_RECORD_LEN_def TEMPLATE_ID_IPV4_def IPFIX_VERSION_def)
qed

text \<open>
  The sampling interval an exporter announces through an options template takes effect:
  after the options template and its data message, the cache reports that interval.
\<close>

theorem announced_sampling_interval_is_cached:
  assumes "cache_insert c options_template = (Inr (), c')"
  shows "si_sampling_interval (tc_sampling (snd (decode_message
      (options_data_message now sq domain interface rate)
      (snd (decode_message (options_template_message now' sq' domain) c))))) = Some rate"
proof -
  let ?body = "to_be_bytes 2 OPTIONS_TEMPLATE_ID @ to_be_bytes 2 (2 :: u16) @
     to_be_bytes 2 (1 :: u16) @ to_be_bytes 2 (10 :: u16) @ to_be_bytes 2 (4 :: u16) @
     to_be_bytes 2 (34 :: u16) @ to_be_bytes 2 (4 :: u16)"
  have "decode_set OPTIONS_TEMPLATE_SET_ID ?body c = (Inr (OptionsTemplates [options_template]), c')"
    using template_set_single[of ?body True options_template c] parse_announced(3) announced_usable assms
    by (simp add: decode_set_def TEMPLATE_SET_ID_def OPTIONS_TEMPLATE_SET_ID_def)
  then have t: "snd (decode_message (options_template_message now' sq' domain) c) = c'"
    unfolding options_template_message_def by (subst decode_wrap_message) simp_all
  let ?vs = "[(10 :: u16, to_be_bytes 4 interface), (34, to_be_bytes 4 rate)]"
  let ?r = "\<lparr>dr_template_id = 300, dr_fields = map plain_value ?vs\<rparr>"
  have "record_layout (tpl_fields options_template) (dr_fields ?r) (concat (map snd ?vs))"
    unfolding options_template_def Template.select_convs DataRecord.select_convs
    by (rule record_layout_plain) (simp add: VARIABLE_LENGTH_def)
  then have "records_layout options_template [?r] [concat (map snd ?vs)]"
    by (simp add: records_layout_def options_template_def)
  from data_loop_complete[OF announced_usable(5) _ this, of "[]" "[]" "[]"] announced_usable(5)
  have "decode_data_set options_template (to_be_bytes 4 interface @ to_be_bytes 4 rate) = Inr [?r]"
    by (simp add: decode_data_set_def)
  moreover have "cache_get c' OPTIONS_TEMPLATE_ID = Some options_template"
    using cache_insert_get[OF assms] by (simp add: options_template_def OPTIONS_TEMPLATE_ID_def)
  ultimately have d: "decode_set OPTIONS_TEMPLATE_ID (to_be_bytes 4 interface @ to_be_bytes 4 rate) c' =
      (Inr (Data OPTIONS_TEMPLATE_ID [?r]), observe_options_data c' ?r)"
    by (simp add: decode_set_def TEMPLATE_SET_ID_def OPTIONS_TEMPLATE_SET_ID_def MIN_DATA_SET_ID_def
        OPTIONS_TEMPLATE_ID_def options_template_def)
  have "si_sampling_interval (tc_sampling (observe_options_data c' ?r)) = Some rate"
    by (simp add: observe_options_data_def observe_field_def plain_value_def IE_SAMPLING_INTERVAL_def
        IE_SAMPLING_ALGORITHM_def as_u64_be_to_be_bytes ucast_down_up)
  with t d show ?thesis
    unfolding options_data_message_def by (subst decode_wrap_message) simp_all
qed

theorem announced_sampling_interval_is_cached_witness:
  "si_sampling_interval (tc_sampling (snd (decode_message (options_data_message 1 2 7 3 1000)
     (snd (decode_message (options_template_message 0 1 7) new_cache))))) = Some 1000"
proof -
  have "cache_insert new_cache options_template =
      (Inr (), \<lparr>tc_templates = [(300, options_template)], tc_fields = 2, tc_sampling = default_sampling\<rparr>)"
    by code_simp
  from announced_sampling_interval_is_cached[OF this] show ?thesis .
qed

section \<open>Messages refused part-way\<close>

abbreviation wrap_sets :: "(u16 \<times> u8 list) list \<Rightarrow> u8 list" where
  "wrap_sets sets \<equiv> concat (map (\<lambda>(set_id, body). wrap_set set_id body) sets)"

lemma sets_loop_continues:
  assumes "decode_sets_loop (front @ wrap_sets sets) (length front) acc c = (Inr ds, c')"
    and "list_all (\<lambda>(set_id, body). length body + 4 < 2 ^ 16) sets"
  shows "decode_sets_loop (front @ wrap_sets sets @ post) (length front) acc c =
    decode_sets_loop (front @ wrap_sets sets @ post) (length (front @ wrap_sets sets)) ds c'"
  using assms
proof (induction sets arbitrary: front acc c)
  case Nil
  then show ?case by (simp add: sets_loop_stop)
next
  case (Cons x sets)
  obtain set_id body where x: "x = (set_id, body)" by fastforce
  with Cons.prems(2) have fits: "length body + 4 < 2 ^ 16" by simp
  from Cons.prems(1) sets_loop_wrapped[OF fits, of front set_id "wrap_sets sets" acc c]
  obtain d c1 where d: "decode_set set_id body c = (Inr d, c1)"
    and rest: "decode_sets_loop ((front @ wrap_set set_id body) @ wrap_sets sets)
      (length (front @ wrap_set set_id body)) (acc @ [d]) c1 = (Inr ds, c')"
    by (auto simp: x split: prod.splits sum.splits)
  from Cons.IH[OF rest] Cons.prems(2) sets_loop_wrapped[OF fits, of front set_id "wrap_sets sets @ post" acc c] d
  show ?case by (simp add: x)
qed

lemma malformed_set_refused:
  assumes "bad = to_be_bytes 2 (set_id :: u16) @ to_be_bytes 2 set_len @ rest" "unat set_len < 4 \<or> length bad < unat set_len"
  shows "decode_sets_loop (front @ bad) (length front) ds c =
    (Inl (Err (if unat set_len < 4 then SetTooShortForHeader set_len
               else SetLengthExceedsMessage set_len (length bad))), c)"
proof -
  let ?b = "front @ bad" and ?n = "length front"
  have "u16_at ?b (?n + 2) = Inr set_len"
    using u16_at_append[of "front @ to_be_bytes 2 set_id" "?n + 2"] by (simp add: assms(1))
  moreover have len: "4 \<le> length bad" by (simp add: assms(1))
  ultimately have lenw: "set_len_at ?b ?n = set_len" by (simp add: numeral_eq_Suc)
  have step: "?n < length ?b" "\<not> length ?b - ?n < SET_HEADER_LEN" using len by (auto simp: SET_HEADER_LEN_def)
  show ?thesis unfolding sets_loop_step[OF step, of ds c] lenw Let_def using assms(2) by (auto simp: SET_HEADER_LEN_def)
qed

text \<open>
  Property C13. A message that is refused part-way is not undone. Take any message of whole sets that
  the decoder accepts and append a set whose length field is below its own header or past the end of
  the message: the longer message is refused as a whole for that set, and yet the cache is left as the
  accepted message leaves it, with every template of the earlier sets defined, replaced or withdrawn.\<close>

theorem refused_message_leaves_templates_cached:
  assumes "decode_message (wrap_message now (wrap_sets sets) sequence_number domain) c = (Inr message, c')"
    and "16 + length (wrap_sets sets @ bad) < 2 ^ 16"
    and "bad = to_be_bytes 2 (set_id :: u16) @ to_be_bytes 2 set_len @ rest" "unat set_len < 4 \<or> length bad < unat set_len"
  shows "decode_message (wrap_message now (wrap_sets sets @ bad) sequence_number domain) c =
    (Inl (Err (if unat set_len < 4 then SetTooShortForHeader set_len
               else SetLengthExceedsMessage set_len (length bad))), c')"
proof -
  have "length body \<le> length (wrap_sets sets) - 4 \<and> 4 \<le> length (wrap_sets sets)" if "(i, body) \<in> set sets" for i body
    using that by (induction sets) (auto simp: wrap_set_def)
  then have small: "list_all (\<lambda>(i, body). length body + 4 < 2 ^ 16) sets"
    using assms(2) by (fastforce simp: list_all_iff)
  have "16 + length (wrap_sets sets) < 2 ^ 16" using assms(2) by simp
  from decode_wrapped_sets[OF this, of now sequence_number domain c] assms(1)
  obtain ds where ds: "decode_sets_loop (wrap_sets sets) 0 [] c = (Inr ds, c')"
    by (auto split: prod.splits sum.splits)
  from sets_loop_continues[of "[]" sets "[]" c ds c' bad] ds small malformed_set_refused[OF assms(3,4)]
  show ?thesis unfolding decode_wrapped_sets[OF assms(2)] by simp
qed

theorem refused_message_leaves_templates_cached_witness:
  "decode_message (wrap_message 0 (wrap_set 2 [1, 0, 0, 1, 0, 4, 0, 1] @ [1, 0, 0, 3]) 0 0) new_cache =
     (Inl (Err (SetTooShortForHeader 3)),
      \<lparr>tc_templates = [(256, protocol_template)], tc_fields = 1, tc_sampling = default_sampling\<rparr>)"
proof -
  have "case decode_message (wrap_message 0 (wrap_sets [(2, [1, 0, 0, 1, 0, 4, 0, 1])]) 0 0) new_cache of
      (r, c) \<Rightarrow> \<not> isl r \<and> c = \<lparr>tc_templates = [(256, protocol_template)], tc_fields = 1, tc_sampling = default_sampling\<rparr>"
    by code_simp
  then obtain m where "decode_message (wrap_message 0 (wrap_sets [(2, [1, 0, 0, 1, 0, 4, 0, 1])]) 0 0) new_cache =
      (Inr m, \<lparr>tc_templates = [(256, protocol_template)], tc_fields = 1, tc_sampling = default_sampling\<rparr>)"
    by (auto simp: isl_def split: prod.splits) (metis obj_sumE)
  moreover have "[1, 0, 0, 3] = to_be_bytes 2 (256 :: u16) @ to_be_bytes 2 (3 :: u16) @ []" by code_simp
  ultimately show ?thesis
    using refused_message_leaves_templates_cached[of 0 "[(2, [1, 0, 0, 1, 0, 4, 0, 1])]" 0 0 new_cache m _ "[1, 0, 0, 3]" 256 3 "[]"]
    by (simp add: wrap_set_def)
qed

end
