(* ===== verification/Net.thy ===== *)
theory Net
  imports Prelude
begin

text \<open>
  What the sources use of \<open>std::net\<close> and \<open>std::fmt\<close>: IP and socket addresses, the canonical
  form of an IPv4-mapped IPv6 address, the textual form of addresses and numbers, and the
  masks that keep the leading bits of an address, which the collector's allowlist, the
  aggregator and the mitigation prefixes each build in their own way.
\<close>

section \<open>Addresses\<close>

datatype IpAddr = V4 u32 | V6 u128

primrec is_ipv4 :: "IpAddr \<Rightarrow> bool" where
  "is_ipv4 (V4 a) = True"
| "is_ipv4 (V6 a) = False"

primrec to_canonical :: "IpAddr \<Rightarrow> IpAddr" where
  "to_canonical (V4 a) = V4 a"
| "to_canonical (V6 a) = (if drop_bit 32 a = 0xffff then V4 (ucast a) else V6 a)"

datatype SocketAddr = SocketAddrV4 u32 u16 | SocketAddrV6 u128 u16 u32 u32

primrec socket_ip :: "SocketAddr \<Rightarrow> IpAddr" where
  "socket_ip (SocketAddrV4 a port) = V4 a"
| "socket_ip (SocketAddrV6 a port flowinfo scope) = V6 a"

lemma to_canonical_idem [simp]: "to_canonical (to_canonical a) = to_canonical a"
  by (cases a) auto

section \<open>Masks\<close>

text \<open>\<open>uN::MAX.checked_shl(n).unwrap_or(0)\<close>.\<close>

definition high_bits :: "nat \<Rightarrow> 'a::len word" where
  "high_bits n = (case checked_shl (- 1) n of None \<Rightarrow> 0 | Some m \<Rightarrow> m)"

lemma bit_high_bits: "bit (high_bits n :: 'a::len word) i \<longleftrightarrow> n \<le> i \<and> i < LENGTH('a)"
  by (auto simp: high_bits_def checked_shl_def bit_not_iff bit_mask_iff dest: bit_imp_le_length)

lemma and_high_bits: "w AND high_bits n = push_bit n (drop_bit n w)"
  by (rule bit_word_eqI) (auto simp: bit_and_iff bit_high_bits bit_push_bit_iff bit_drop_bit_eq)

lemma and_high_bits_idem: "(w AND high_bits n) AND high_bits n = w AND high_bits n"
  by (rule bit_word_eqI) (auto simp: bit_and_iff)

lemma and_high_bits_eq_iff:
  assumes "v AND high_bits n = v"
  shows "w AND high_bits n = v \<longleftrightarrow> drop_bit n w = drop_bit n v"
proof
  assume "w AND high_bits n = v"
  moreover have "drop_bit n (w AND high_bits n) = drop_bit n w"
    by (rule bit_word_eqI) (auto simp: bit_and_iff bit_high_bits bit_drop_bit_eq dest: bit_imp_le_length)
  ultimately show "drop_bit n w = drop_bit n v" by simp
next
  assume "drop_bit n w = drop_bit n v"
  then show "w AND high_bits n = v" using assms by (simp only: and_high_bits)
qed

text \<open>The two notions the components' masks are measured against: an address cut down to its
  leading bits, and agreement of two addresses of one family on them.\<close>

primrec width :: "IpAddr \<Rightarrow> nat" where
  "width (V4 a) = 32"
| "width (V6 a) = 128"

primrec leading :: "nat \<Rightarrow> IpAddr \<Rightarrow> IpAddr" where
  "leading n (V4 a) = V4 (a AND high_bits (32 - n))"
| "leading n (V6 a) = V6 (a AND high_bits (128 - n))"

fun leading_eq :: "nat \<Rightarrow> IpAddr \<Rightarrow> IpAddr \<Rightarrow> bool" where
  "leading_eq n (V4 a) (V4 b) = (drop_bit (32 - n) a = drop_bit (32 - n) b)"
| "leading_eq n (V6 a) (V6 b) = (drop_bit (128 - n) a = drop_bit (128 - n) b)"
| "leading_eq n _ _ = False"

lemma leading_eq_iff:
  "leading n b = b \<Longrightarrow> leading_eq n a b \<longleftrightarrow> is_ipv4 a = is_ipv4 b \<and> leading n a = b"
  by (cases a; cases b) (auto simp: and_high_bits_eq_iff)

lemma leading_eq_family: "leading_eq n x y \<Longrightarrow> is_ipv4 x = is_ipv4 y"
  by (cases x; cases y) auto

lemma leading_eq_refl [simp]: "leading_eq n a a"
  by (cases a) auto

lemma leading_eq_sym: "leading_eq n a b \<Longrightarrow> leading_eq n b a"
  by (cases a; cases b) auto

lemma leading_eq_trans: "leading_eq n a b \<Longrightarrow> leading_eq n b c \<Longrightarrow> leading_eq n a c"
  by (cases a; cases b; cases c) auto

lemma drop_bit_weaken:
  fixes a b :: "'a::len word"
  assumes "drop_bit k a = drop_bit k b" "k \<le> l"
  shows "drop_bit l a = drop_bit l b"
  using arg_cong[OF assms(1), of "drop_bit (l - k)"] assms(2) by (simp only: drop_bit_drop_bit) simp

lemma leading_eq_mono: "leading_eq n a b \<Longrightarrow> m \<le> n \<Longrightarrow> leading_eq m a b"
  by (cases a; cases b) (auto elim!: drop_bit_weaken simp del: drop_bit_eq_div)

lemma leading_idem [simp]: "leading n (leading n a) = leading n a"
  by (cases a) (auto simp: and_high_bits_idem)

lemma leading_width [simp]: "leading (width a) a = a"
  by (cases a) (auto simp: high_bits_def checked_shl_def)

lemma unat_width_minus:
  assumes "unat (len :: u8) \<le> n" "n < 2 ^ 32"
  shows "unat (of_nat n - ucast len :: u32) = n - unat len"
  using assms by (simp add: unat_sub_if' unat_ucast_up unat_of_nat take_bit_nat_eq_self)

section \<open>Textual form\<close>

text \<open>Decimal and lower-case hexadecimal numbers, and the \<open>Display\<close> of addresses: a dotted quad,
  or eight hexadecimal groups in which the first longest run of two or more zero groups is
  written \<open>::\<close>, with the dotted form kept for IPv4-mapped addresses.\<close>

definition digit_char :: "nat \<Rightarrow> char" where
  "digit_char d = (if d < 10 then char_of (48 + d) else char_of (87 + d))"

fun show_radix :: "nat \<Rightarrow> nat \<Rightarrow> string" where
  "show_radix r n = (if n < r \<or> r < 2 then [digit_char n] else show_radix r (n div r) @ [digit_char (n mod r)])"

declare show_radix.simps [simp del]

abbreviation show_nat :: "nat \<Rightarrow> string" where "show_nat \<equiv> show_radix 10"

primrec join :: "string \<Rightarrow> string list \<Rightarrow> string" where
  "join sep [] = []"
| "join sep (x # xs) = (if xs = [] then x else x @ sep @ join sep xs)"

definition show_v4 :: "u32 \<Rightarrow> string" where
  "show_v4 a = join ''.'' (map (show_nat \<circ> unat) (to_be_bytes 4 a))"

definition segments :: "u128 \<Rightarrow> u16 list" where
  "segments a = map (\<lambda>i. ucast (drop_bit (16 * (7 - i)) a)) [0..<8]"

text \<open>The scan for the longest run of zeros; a span is its start and its length.\<close>

primrec longest_zeros :: "u16 list \<Rightarrow> nat \<Rightarrow> nat \<times> nat \<Rightarrow> nat \<times> nat \<Rightarrow> nat \<times> nat" where
  "longest_zeros [] i longest current = longest"
| "longest_zeros (s # ss) i longest current =
     (if s = 0 then
        let current = (if snd current = 0 then (i, 1) else (fst current, snd current + 1)) in
        longest_zeros ss (i + 1) (if snd current > snd longest then current else longest) current
      else longest_zeros ss (i + 1) longest (0, 0))"

definition show_segments :: "u16 list \<Rightarrow> string" where
  "show_segments ss = join '':'' (map (show_radix 16 \<circ> unat) ss)"

definition show_v6 :: "u128 \<Rightarrow> string" where
  "show_v6 a =
     (case to_canonical (V6 a) of
        V4 v \<Rightarrow> ''::ffff:'' @ show_v4 v
      | V6 _ \<Rightarrow>
          let ss = segments a; (start, len) = longest_zeros ss 0 (0, 0) (0, 0) in
          if len > 1 then show_segments (take start ss) @ ''::'' @ show_segments (drop (start + len) ss)
          else show_segments ss)"

primrec show_ip :: "IpAddr \<Rightarrow> string" where
  "show_ip (V4 a) = show_v4 a"
| "show_ip (V6 a) = show_v6 a"

end
