(* ===== verification/Flow.thy ===== *)
theory Flow
  imports Net
begin

text \<open>
  The protocol-independent flow model of \<open>src/crates/common\<close>: the sampling rate and the
  choice of the tier that declares it (\<open>sampling.rs\<close>), and the normalized flow with its
  builder, which scales the raw counters (\<open>flow.rs\<close>). \<open>SystemTime\<close> values are nanoseconds
  since the Unix epoch.
\<close>

section \<open>Sampling\<close>

text \<open>\<open>NonZeroU32\<close> inside: the only constructors used are \<open>new_rate\<close> and \<open>unsampled\<close>.\<close>

datatype SamplingRate = SamplingRate (rate_get: u32)

definition new_rate :: "u32 \<Rightarrow> SamplingRate option" where
  "new_rate r = (if r = 0 then None else Some (SamplingRate r))"

definition unsampled :: SamplingRate where
  "unsampled = SamplingRate 1"

datatype SamplingOverflow = SamplingOverflow

definition rate_apply :: "SamplingRate \<Rightarrow> u64 \<Rightarrow> SamplingOverflow + u64" where
  "rate_apply rate raw = ok_or (checked_mul raw (ucast (rate_get rate))) SamplingOverflow"

datatype SamplingSource = RecordLevel | OptionsTemplate | ExporterConfigured | GlobalDefault | Unsampled

record SamplingInputs =
  in_record_level :: "u32 option"
  in_options_template :: "u32 option"
  in_exporter_configured :: "u32 option"
  in_global_default :: "u32 option"

record ResolvedSampling =
  rs_rate :: SamplingRate
  rs_source :: SamplingSource
  rs_zero_rate_skipped :: bool

text \<open>The closure \<open>consider\<close> of \<open>resolve\<close>, with the flag it captures passed through.\<close>

definition consider_tier :: "u32 option \<Rightarrow> bool \<Rightarrow> SamplingRate option \<times> bool" where
  "consider_tier value zero_rate_skipped =
     (case value of
        Some r \<Rightarrow> if r = 0 then (None, True) else (new_rate r, zero_rate_skipped)
      | None \<Rightarrow> (None, zero_rate_skipped))"

definition resolve :: "SamplingInputs \<Rightarrow> ResolvedSampling" where
  "resolve inputs =
     (case consider_tier (in_record_level inputs) False of
        (Some rate, z) \<Rightarrow>
          \<lparr>rs_rate = rate, rs_source = RecordLevel, rs_zero_rate_skipped = z\<rparr>
      | (None, z) \<Rightarrow>
     (case consider_tier (in_options_template inputs) z of
        (Some rate, z) \<Rightarrow>
          \<lparr>rs_rate = rate, rs_source = OptionsTemplate, rs_zero_rate_skipped = z\<rparr>
      | (None, z) \<Rightarrow>
     (case consider_tier (in_exporter_configured inputs) z of
        (Some rate, z) \<Rightarrow>
          \<lparr>rs_rate = rate, rs_source = ExporterConfigured, rs_zero_rate_skipped = z\<rparr>
      | (None, z) \<Rightarrow>
     (case consider_tier (in_global_default inputs) z of
        (Some rate, z) \<Rightarrow>
          \<lparr>rs_rate = rate, rs_source = GlobalDefault, rs_zero_rate_skipped = z\<rparr>
      | (None, z) \<Rightarrow>
          \<lparr>rs_rate = unsampled, rs_source = Unsampled, rs_zero_rate_skipped = z\<rparr>))))"

text \<open>The reference: the tiers in order of priority, the first declared and non-zero one wins.\<close>

definition tiers :: "SamplingInputs \<Rightarrow> (SamplingSource \<times> u32 option) list" where
  "tiers i = [(RecordLevel, in_record_level i), (OptionsTemplate, in_options_template i),
     (ExporterConfigured, in_exporter_configured i), (GlobalDefault, in_global_default i),
     (Unsampled, Some 1)]"

definition unusable :: "SamplingSource \<times> u32 option \<Rightarrow> bool" where
  "unusable = (\<lambda>(s, v). v = None \<or> v = Some 0)"

text \<open>
  Property C10. Sampling resolution picks the first tier, in the documented priority order, whose rate
  is declared and non-zero, falling back to an unsampled rate of one; and it reports a skipped
  zero exactly when a tier before the chosen one declared zero.
\<close>

theorem resolve_is_first_usable_tier:
  "\<exists>s r rest. dropWhile unusable (tiers i) = (s, Some r) # rest \<and> r \<noteq> 0 \<and>
     resolve i = \<lparr>rs_rate = SamplingRate r, rs_source = s,
       rs_zero_rate_skipped = list_ex (\<lambda>(s, v). v = Some 0) (takeWhile unusable (tiers i))\<rparr>"
  by (auto simp: resolve_def consider_tier_def tiers_def unusable_def new_rate_def unsampled_def
      split: option.splits)

lemma resolve_rate_pos: "0 < unat (rate_get (rs_rate (resolve i)))"
  by (auto simp: resolve_def consider_tier_def new_rate_def unsampled_def unat_gt_0
      split: option.splits)

section \<open>Flows\<close>

datatype Protocol = Icmp | Tcp | Udp | Icmpv6 | Other u8

definition from_ip_protocol_number :: "u8 \<Rightarrow> Protocol" where
  "from_ip_protocol_number n =
     (if n = 1 then Icmp else if n = 6 then Tcp else if n = 17 then Udp
      else if n = 58 then Icmpv6 else Other n)"

primrec as_ip_protocol_number :: "Protocol \<Rightarrow> u8" where
  "as_ip_protocol_number Icmp = 1"
| "as_ip_protocol_number Tcp = 6"
| "as_ip_protocol_number Udp = 17"
| "as_ip_protocol_number Icmpv6 = 58"
| "as_ip_protocol_number (Other n) = n"

lemma protocol_number_round_trip [simp]:
  "as_ip_protocol_number (from_ip_protocol_number n) = n"
  by (simp add: from_ip_protocol_number_def)

definition TCP_FLAG_SYN :: u8 where
  "TCP_FLAG_SYN = 2"

type_synonym SystemTime = nat

record NormalizedFlow =
  nf_source_addr :: IpAddr
  nf_destination_addr :: IpAddr
  nf_source_port :: "u16 option"
  nf_destination_port :: "u16 option"
  nf_protocol :: "Protocol option"
  nf_tcp_flags :: "u8 option"
  nf_bytes :: u64
  nf_packets :: u64
  nf_raw_bytes :: u64
  nf_raw_packets :: u64
  nf_sampling_rate :: SamplingRate
  nf_sampling_source :: SamplingSource
  nf_input_interface :: "u32 option"
  nf_output_interface :: "u32 option"
  nf_source_asn :: "u32 option"
  nf_destination_asn :: "u32 option"
  nf_exporter :: IpAddr
  nf_observation_domain_id :: u32
  nf_start_time :: "SystemTime option"
  nf_end_time :: "SystemTime option"
  nf_fragmented :: bool
  nf_dropped :: bool
  nf_forwarding_status_known :: bool

datatype FlowError = Empty | SamplingOverflowOf string

record NormalizedFlowBuilder =
  fb_source_addr :: IpAddr
  fb_destination_addr :: IpAddr
  fb_source_port :: "u16 option"
  fb_destination_port :: "u16 option"
  fb_protocol :: "Protocol option"
  fb_tcp_flags :: "u8 option"
  fb_raw_bytes :: u64
  fb_raw_packets :: u64
  fb_input_interface :: "u32 option"
  fb_output_interface :: "u32 option"
  fb_source_asn :: "u32 option"
  fb_destination_asn :: "u32 option"
  fb_exporter :: IpAddr
  fb_observation_domain_id :: u32
  fb_start_time :: "SystemTime option"
  fb_end_time :: "SystemTime option"
  fb_fragmented :: bool
  fb_dropped :: bool
  fb_forwarding_status_known :: bool

definition build :: "NormalizedFlowBuilder \<Rightarrow> SamplingRate \<Rightarrow> SamplingSource \<Rightarrow> FlowError + NormalizedFlow" where
  "build b rate source =
     (if fb_raw_bytes b = 0 \<and> fb_raw_packets b = 0 then Inl Empty
      else bind_res (map_err (\<lambda>_. SamplingOverflowOf ''bytes'') (rate_apply rate (fb_raw_bytes b))) (\<lambda>bytes.
        bind_res (map_err (\<lambda>_. SamplingOverflowOf ''packets'') (rate_apply rate (fb_raw_packets b))) (\<lambda>packets.
          Inr \<lparr>nf_source_addr = fb_source_addr b,
            nf_destination_addr = fb_destination_addr b,
            nf_source_port = fb_source_port b,
            nf_destination_port = fb_destination_port b,
            nf_protocol = fb_protocol b,
            nf_tcp_flags = fb_tcp_flags b,
            nf_bytes = bytes,
            nf_packets = packets,
            nf_raw_bytes = fb_raw_bytes b,
            nf_raw_packets = fb_raw_packets b,
            nf_sampling_rate = rate,
            nf_sampling_source = source,
            nf_input_interface = fb_input_interface b,
            nf_output_interface = fb_output_interface b,
            nf_source_asn = fb_source_asn b,
            nf_destination_asn = fb_destination_asn b,
            nf_exporter = fb_exporter b,
            nf_observation_domain_id = fb_observation_domain_id b,
            nf_start_time = fb_start_time b,
            nf_end_time = fb_end_time b,
            nf_fragmented = fb_fragmented b,
            nf_dropped = fb_dropped b,
            nf_forwarding_status_known = fb_forwarding_status_known b\<rparr>)))"

definition is_tcp_syn :: "NormalizedFlow \<Rightarrow> bool" where
  "is_tcp_syn f =
     (nf_protocol f = Some Tcp \<and>
      (case nf_tcp_flags f of Some flags \<Rightarrow> flags AND TCP_FLAG_SYN \<noteq> 0 | None \<Rightarrow> False))"

text \<open>What is true of every flow that a builder produced.\<close>

definition flow_ok :: "NormalizedFlow \<Rightarrow> bool" where
  "flow_ok f \<longleftrightarrow>
     unat (nf_bytes f) = unat (nf_raw_bytes f) * unat (rate_get (nf_sampling_rate f)) \<and>
     unat (nf_packets f) = unat (nf_raw_packets f) * unat (rate_get (nf_sampling_rate f)) \<and>
     (nf_raw_bytes f \<noteq> 0 \<or> nf_raw_packets f \<noteq> 0)"

lemma rate_apply_eq_Inr:
  "rate_apply rate raw = Inr v \<Longrightarrow> unat v = unat raw * unat (rate_get rate)"
  by (auto simp: rate_apply_def ok_or_eq_Inr unat_ucast_up dest!: checked_mul_eq_Some)

lemma rate_apply_eq_Inl:
  "rate_apply rate raw = Inl e \<longleftrightarrow> 2 ^ 64 \<le> unat raw * unat (rate_get rate)"
  by (cases e) (auto simp: rate_apply_def ok_or_def checked_mul_def unat_ucast_up split: option.splits if_splits)

lemma build_flow_ok: "build b rate source = Inr f \<Longrightarrow> flow_ok f"
  by (auto simp: build_def flow_ok_def bind_res_eq_Inr dest: rate_apply_eq_Inr split: if_splits)

end
