(* ===== verification/Normalize.thy ===== *)
theory Normalize
  imports Ipfix_Decoder Flow
begin

text \<open>
  From a decoded IPFIX data record to a normalized flow
  (\<open>src/crates/collector/src/normalize.rs\<close>). The local variables that the loop over the fields
  assigns are the record \<open>Mapped\<close>; \<open>map_field\<close> is the \<open>match\<close> of the loop body.
\<close>

definition IE_OCTET_DELTA_COUNT :: u16 where "IE_OCTET_DELTA_COUNT = 1"
definition IE_PACKET_DELTA_COUNT :: u16 where "IE_PACKET_DELTA_COUNT = 2"
definition IE_PROTOCOL_IDENTIFIER :: u16 where "IE_PROTOCOL_IDENTIFIER = 4"
definition IE_TCP_CONTROL_BITS :: u16 where "IE_TCP_CONTROL_BITS = 6"
definition IE_SOURCE_TRANSPORT_PORT :: u16 where "IE_SOURCE_TRANSPORT_PORT = 7"
definition IE_SOURCE_IPV4_ADDRESS :: u16 where "IE_SOURCE_IPV4_ADDRESS = 8"
definition IE_INGRESS_INTERFACE :: u16 where "IE_INGRESS_INTERFACE = 10"
definition IE_DESTINATION_TRANSPORT_PORT :: u16 where "IE_DESTINATION_TRANSPORT_PORT = 11"
definition IE_DESTINATION_IPV4_ADDRESS :: u16 where "IE_DESTINATION_IPV4_ADDRESS = 12"
definition IE_EGRESS_INTERFACE :: u16 where "IE_EGRESS_INTERFACE = 14"
definition IE_BGP_SOURCE_AS_NUMBER :: u16 where "IE_BGP_SOURCE_AS_NUMBER = 16"
definition IE_BGP_DESTINATION_AS_NUMBER :: u16 where "IE_BGP_DESTINATION_AS_NUMBER = 17"
definition IE_SOURCE_IPV6_ADDRESS :: u16 where "IE_SOURCE_IPV6_ADDRESS = 27"
definition IE_DESTINATION_IPV6_ADDRESS :: u16 where "IE_DESTINATION_IPV6_ADDRESS = 28"
definition IE_FORWARDING_STATUS :: u16 where "IE_FORWARDING_STATUS = 89"

definition FORWARDING_STATUS_DROPPED :: u8 where "FORWARDING_STATUS_DROPPED = 2"

lemmas ie_defs = IE_OCTET_DELTA_COUNT_def IE_PACKET_DELTA_COUNT_def IE_PROTOCOL_IDENTIFIER_def
  IE_TCP_CONTROL_BITS_def IE_SOURCE_TRANSPORT_PORT_def IE_SOURCE_IPV4_ADDRESS_def
  IE_INGRESS_INTERFACE_def IE_DESTINATION_TRANSPORT_PORT_def IE_DESTINATION_IPV4_ADDRESS_def
  IE_EGRESS_INTERFACE_def IE_BGP_SOURCE_AS_NUMBER_def IE_BGP_DESTINATION_AS_NUMBER_def
  IE_SOURCE_IPV6_ADDRESS_def IE_DESTINATION_IPV6_ADDRESS_def IE_FORWARDING_STATUS_def
  IE_SAMPLING_INTERVAL_def

datatype NormalizeError = MissingAddresses | FlowErr FlowError

record ExternalSamplingConfig =
  xs_exporter_configured :: "u32 option"
  xs_global_default :: "u32 option"

record NormalizeOutcome =
  no_flow :: NormalizedFlow
  no_zero_rate_skipped :: bool

record Mapped =
  mp_source_addr :: "IpAddr option"
  mp_destination_addr :: "IpAddr option"
  mp_source_port :: "u16 option"
  mp_destination_port :: "u16 option"
  mp_protocol :: "Protocol option"
  mp_tcp_flags :: "u8 option"
  mp_raw_bytes :: u64
  mp_raw_packets :: u64
  mp_input_interface :: "u32 option"
  mp_output_interface :: "u32 option"
  mp_source_asn :: "u32 option"
  mp_destination_asn :: "u32 option"
  mp_record_level_sampling :: "u32 option"
  mp_forwarding_status_known :: bool
  mp_dropped :: bool

definition unmapped :: Mapped where
  "unmapped = \<lparr>mp_source_addr = None, mp_destination_addr = None, mp_source_port = None,
     mp_destination_port = None, mp_protocol = None, mp_tcp_flags = None, mp_raw_bytes = 0,
     mp_raw_packets = 0, mp_input_interface = None, mp_output_interface = None,
     mp_source_asn = None, mp_destination_asn = None, mp_record_level_sampling = None,
     mp_forwarding_status_known = False, mp_dropped = False\<rparr>"

definition map_field :: "DecodedField \<Rightarrow> Mapped \<Rightarrow> Mapped" where
  "map_field f m =
     (let ie = df_information_element_id f in
      if ie = IE_SOURCE_IPV4_ADDRESS then m\<lparr>mp_source_addr := map_option V4 (as_ipv4 f)\<rparr>
      else if ie = IE_DESTINATION_IPV4_ADDRESS then m\<lparr>mp_destination_addr := map_option V4 (as_ipv4 f)\<rparr>
      else if ie = IE_SOURCE_IPV6_ADDRESS then m\<lparr>mp_source_addr := map_option V6 (as_ipv6 f)\<rparr>
      else if ie = IE_DESTINATION_IPV6_ADDRESS then m\<lparr>mp_destination_addr := map_option V6 (as_ipv6 f)\<rparr>
      else if ie = IE_SOURCE_TRANSPORT_PORT then m\<lparr>mp_source_port := map_option ucast (as_u64_be f)\<rparr>
      else if ie = IE_DESTINATION_TRANSPORT_PORT then
        m\<lparr>mp_destination_port := map_option ucast (as_u64_be f)\<rparr>
      else if ie = IE_PROTOCOL_IDENTIFIER then
        m\<lparr>mp_protocol := map_option (\<lambda>v. from_ip_protocol_number (ucast v)) (as_u64_be f)\<rparr>
      else if ie = IE_TCP_CONTROL_BITS then m\<lparr>mp_tcp_flags := map_option ucast (as_u64_be f)\<rparr>
      else if ie = IE_OCTET_DELTA_COUNT then
        m\<lparr>mp_raw_bytes := (case as_u64_be f of None \<Rightarrow> 0 | Some v \<Rightarrow> v)\<rparr>
      else if ie = IE_PACKET_DELTA_COUNT then
        m\<lparr>mp_raw_packets := (case as_u64_be f of None \<Rightarrow> 0 | Some v \<Rightarrow> v)\<rparr>
      else if ie = IE_INGRESS_INTERFACE then m\<lparr>mp_input_interface := map_option ucast (as_u64_be f)\<rparr>
      else if ie = IE_EGRESS_INTERFACE then m\<lparr>mp_output_interface := map_option ucast (as_u64_be f)\<rparr>
      else if ie = IE_BGP_SOURCE_AS_NUMBER then m\<lparr>mp_source_asn := map_option ucast (as_u64_be f)\<rparr>
      else if ie = IE_BGP_DESTINATION_AS_NUMBER then
        m\<lparr>mp_destination_asn := map_option ucast (as_u64_be f)\<rparr>
      else if ie = IE_SAMPLING_INTERVAL then
        m\<lparr>mp_record_level_sampling := map_option ucast (as_u64_be f)\<rparr>
      else if ie = IE_FORWARDING_STATUS then
        (case as_u64_be f of
           Some v \<Rightarrow> m\<lparr>mp_forwarding_status_known := True,
             mp_dropped := (drop_bit 6 (ucast v :: u8) = FORWARDING_STATUS_DROPPED)\<rparr>
         | None \<Rightarrow> m)
      else m)"

definition map_fields :: "DataRecord \<Rightarrow> Mapped" where
  "map_fields r = fold map_field (dr_fields r) unmapped"

definition sampling_inputs :: "Mapped \<Rightarrow> SamplingInfo \<Rightarrow> ExternalSamplingConfig \<Rightarrow> SamplingInputs" where
  "sampling_inputs m options_sampling external =
     \<lparr>in_record_level = mp_record_level_sampling m,
      in_options_template = si_sampling_interval options_sampling,
      in_exporter_configured = xs_exporter_configured external,
      in_global_default = xs_global_default external\<rparr>"

definition normalize_ipfix_record ::
    "DataRecord \<Rightarrow> IpAddr \<Rightarrow> u32 \<Rightarrow> SamplingInfo \<Rightarrow> ExternalSamplingConfig
       \<Rightarrow> NormalizeError + NormalizeOutcome" where
  "normalize_ipfix_record r exporter observation_domain_id options_sampling external =
     (let m = map_fields r in
      case (mp_source_addr m, mp_destination_addr m) of
        (Some s, Some d) \<Rightarrow>
          let resolved = resolve (sampling_inputs m options_sampling external);
              builder = \<lparr>fb_source_addr = s, fb_destination_addr = d,
                fb_source_port = mp_source_port m,
                fb_destination_port = mp_destination_port m,
                fb_protocol = mp_protocol m,
                fb_tcp_flags = mp_tcp_flags m,
                fb_raw_bytes = mp_raw_bytes m,
                fb_raw_packets = mp_raw_packets m,
                fb_input_interface = mp_input_interface m,
                fb_output_interface = mp_output_interface m,
                fb_source_asn = mp_source_asn m,
                fb_destination_asn = mp_destination_asn m,
                fb_exporter = exporter,
                fb_observation_domain_id = observation_domain_id,
                fb_start_time = None,
                fb_end_time = None,
                fb_fragmented = False,
                fb_dropped = mp_dropped m,
                fb_forwarding_status_known = mp_forwarding_status_known m\<rparr>
          in bind_res (map_err FlowErr (build builder (rs_rate resolved) (rs_source resolved)))
               (\<lambda>flow. Inr \<lparr>no_flow = flow, no_zero_rate_skipped = rs_zero_rate_skipped resolved\<rparr>)
      | _ \<Rightarrow> Inl MissingAddresses)"

section \<open>Which field decides\<close>

text \<open>What a record says, read without the loop: the last field whose element is one of \<open>ies\<close> decides, so
  that a malformed last occurrence hides the earlier ones. Only for the forwarding status does the last
  field that can be read decide.\<close>

definition last_field :: "u16 list \<Rightarrow> DataRecord \<Rightarrow> DecodedField option" where
  "last_field ies r = find (\<lambda>f. df_information_element_id f \<in> set ies) (rev (dr_fields r))"

definition address_of :: "DecodedField \<Rightarrow> IpAddr option" where
  "address_of f = (if df_information_element_id f \<in> {8, 12} then map_option V4 (as_ipv4 f)
     else map_option V6 (as_ipv6 f))"

definition number_of :: "u16 \<Rightarrow> DataRecord \<Rightarrow> u64 option" where
  "number_of ie r = Option.bind (last_field [ie] r) as_u64_be"

definition counter_of :: "u16 \<Rightarrow> DataRecord \<Rightarrow> u64" where
  "counter_of ie r = (case number_of ie r of None \<Rightarrow> 0 | Some v \<Rightarrow> v)"

definition status_of :: "DataRecord \<Rightarrow> u64 option" where
  "status_of r = Option.bind (find (\<lambda>f. df_information_element_id f = 89 \<and> as_u64_be f \<noteq> None) (rev (dr_fields r))) as_u64_be"

lemma map_fields_induct:
  assumes "P unmapped []" "\<And>f fs m. P m fs \<Longrightarrow> P (map_field f m) (fs @ [f])"
  shows "P (map_fields r) (dr_fields r)"
proof -
  have "P (fold map_field fs unmapped) fs" for fs
    by (induction fs rule: rev_induct) (auto simp: assms)
  then show ?thesis by (simp add: map_fields_def)
qed

text \<open>A variable of the loop that the element \<open>ie\<close> assigns and no other one touches.\<close>

lemma map_fields_number:
  assumes "\<And>f m. get (map_field f m) = (if df_information_element_id f = ie then g (as_u64_be f) else get m)"
    and "get unmapped = g None"
  shows "get (map_fields r) = g (number_of ie r)"
  unfolding number_of_def last_field_def
  by (rule map_fields_induct[of "\<lambda>m fs. get m = g (Option.bind (find (\<lambda>f. df_information_element_id f \<in> set [ie]) (rev fs)) as_u64_be)"])
    (simp_all add: assms)

lemma map_fields_address:
  assumes "\<And>f m. get (map_field f m) = (if df_information_element_id f \<in> set ies then address_of f else get m)"
    and "get unmapped = None"
  shows "get (map_fields r) = Option.bind (last_field ies r) address_of"
  unfolding last_field_def
  by (rule map_fields_induct[of "\<lambda>m fs. get m = Option.bind (find (\<lambda>f. df_information_element_id f \<in> set ies) (rev fs)) address_of"])
    (simp_all add: assms)

lemma map_fields_read:
  "mp_source_addr (map_fields r) = Option.bind (last_field [8, 27] r) address_of"
  "mp_destination_addr (map_fields r) = Option.bind (last_field [12, 28] r) address_of"
  "mp_source_port (map_fields r) = map_option ucast (number_of 7 r)"
  "mp_destination_port (map_fields r) = map_option ucast (number_of 11 r)"
  "mp_protocol (map_fields r) = map_option (\<lambda>v. from_ip_protocol_number (ucast v)) (number_of 4 r)"
  "mp_tcp_flags (map_fields r) = map_option ucast (number_of 6 r)"
  "mp_raw_bytes (map_fields r) = counter_of 1 r"
  "mp_raw_packets (map_fields r) = counter_of 2 r"
  "mp_input_interface (map_fields r) = map_option ucast (number_of 10 r)"
  "mp_output_interface (map_fields r) = map_option ucast (number_of 14 r)"
  "mp_source_asn (map_fields r) = map_option ucast (number_of 16 r)"
  "mp_destination_asn (map_fields r) = map_option ucast (number_of 17 r)"
  "mp_record_level_sampling (map_fields r) = map_option ucast (number_of 34 r)"
  unfolding counter_of_def
  by (rule map_fields_address map_fields_number;
      auto simp: unmapped_def map_field_def Let_def ie_defs address_of_def split: option.split)+

lemma map_fields_status:
  "mp_forwarding_status_known (map_fields r) = (status_of r \<noteq> None)"
  "mp_dropped (map_fields r) = (case status_of r of None \<Rightarrow> False | Some v \<Rightarrow> drop_bit 6 (ucast v :: u8) = 2)"
proof -
  let ?s = "\<lambda>fs. Option.bind (find (\<lambda>f. df_information_element_id f = 89 \<and> as_u64_be f \<noteq> None) (rev fs)) as_u64_be"
  have "mp_forwarding_status_known (map_fields r) = (?s (dr_fields r) \<noteq> None) \<and>
      mp_dropped (map_fields r) = (case ?s (dr_fields r) of None \<Rightarrow> False | Some v \<Rightarrow> drop_bit 6 (ucast v :: u8) = 2)"
    by (rule map_fields_induct[of "\<lambda>m fs. mp_forwarding_status_known m = (?s fs \<noteq> None) \<and>
        mp_dropped m = (case ?s fs of None \<Rightarrow> False | Some v \<Rightarrow> drop_bit 6 (ucast v :: u8) = 2)"])
      (auto simp: unmapped_def map_field_def Let_def ie_defs FORWARDING_STATUS_DROPPED_def split: option.split)
  then show "mp_forwarding_status_known (map_fields r) = (status_of r \<noteq> None)"
    "mp_dropped (map_fields r) = (case status_of r of None \<Rightarrow> False | Some v \<Rightarrow> drop_bit 6 (ucast v :: u8) = 2)"
    by (simp_all add: status_of_def)
qed

lemma rate_apply_value:
  "rate_apply rate raw = (if 2 ^ 64 \<le> unat raw * unat (rate_get rate) then Inl SamplingOverflow
     else Inr (of_nat (unat raw * unat (rate_get rate))))"
  by (simp add: rate_apply_def ok_or_def checked_mul_def unat_ucast_up)

text \<open>
  Property C9. What normalization returns, for every record. An address, a port, the protocol, the TCP
  flags, a counter, an interface, an AS number or the record's own sampling interval is read from the
  last field that carries its element, and the forwarding status from the last one that can be read. A
  record without two readable addresses is refused first, then one with both counters zero, then one
  whose scaled bytes and then packets do not fit 64 bits; otherwise the flow has exactly those values,
  the raw counters, and the exact products of the counters with the resolved sampling rate.
\<close>

theorem normalize_scales_exactly:
  fixes r exporter domain options external
  defines "src \<equiv> Option.bind (last_field [8, 27] r) address_of"
    and "dst \<equiv> Option.bind (last_field [12, 28] r) address_of"
    and "bytes \<equiv> counter_of 1 r" and "packets \<equiv> counter_of 2 r"
    and "res \<equiv> resolve \<lparr>in_record_level = map_option ucast (number_of 34 r),
      in_options_template = si_sampling_interval options,
      in_exporter_configured = xs_exporter_configured external, in_global_default = xs_global_default external\<rparr>"
  shows "normalize_ipfix_record r exporter domain options external =
    (case src of None \<Rightarrow> Inl MissingAddresses | Some s \<Rightarrow>
     (case dst of None \<Rightarrow> Inl MissingAddresses | Some d \<Rightarrow>
      if bytes = 0 \<and> packets = 0 then Inl (FlowErr Empty)
      else if 2 ^ 64 \<le> unat bytes * unat (rate_get (rs_rate res)) then Inl (FlowErr (SamplingOverflowOf ''bytes''))
      else if 2 ^ 64 \<le> unat packets * unat (rate_get (rs_rate res)) then Inl (FlowErr (SamplingOverflowOf ''packets''))
      else Inr \<lparr>no_flow = \<lparr>nf_source_addr = s, nf_destination_addr = d,
          nf_source_port = map_option ucast (number_of 7 r),
          nf_destination_port = map_option ucast (number_of 11 r),
          nf_protocol = map_option (\<lambda>v. from_ip_protocol_number (ucast v)) (number_of 4 r),
          nf_tcp_flags = map_option ucast (number_of 6 r),
          nf_bytes = of_nat (unat bytes * unat (rate_get (rs_rate res))),
          nf_packets = of_nat (unat packets * unat (rate_get (rs_rate res))),
          nf_raw_bytes = bytes, nf_raw_packets = packets,
          nf_sampling_rate = rs_rate res, nf_sampling_source = rs_source res,
          nf_input_interface = map_option ucast (number_of 10 r),
          nf_output_interface = map_option ucast (number_of 14 r),
          nf_source_asn = map_option ucast (number_of 16 r),
          nf_destination_asn = map_option ucast (number_of 17 r),
          nf_exporter = exporter, nf_observation_domain_id = domain,
          nf_start_time = None, nf_end_time = None, nf_fragmented = False,
          nf_dropped = (case status_of r of None \<Rightarrow> False | Some v \<Rightarrow> drop_bit 6 (ucast v :: u8) = 2),
          nf_forwarding_status_known = (status_of r \<noteq> None)\<rparr>,
        no_zero_rate_skipped = rs_zero_rate_skipped res\<rparr>))"
proof -
  have res: "resolve (sampling_inputs (map_fields r) options external) = res"
    by (simp add: res_def sampling_inputs_def map_fields_read)
  show ?thesis
    by (simp add: assms(1-4) normalize_ipfix_record_def Let_def res map_fields_read map_fields_status build_def
        rate_apply_value map_err_def split: option.split) blast
qed

lemma normalize_flow_ok:
  "normalize_ipfix_record r exporter domain options external = Inr out \<Longrightarrow> flow_ok (no_flow out)"
  by (auto simp: normalize_ipfix_record_def Let_def bind_res_eq_Inr dest: build_flow_ok
      split: option.splits)

end
