(* ===== verification/Exporter.thy ===== *)
theory Exporter
  imports Ipfix_Decoder Net
begin

text \<open>
  The collector's per-exporter state, its allowlist and its registry
  (\<open>src/crates/collector/src/exporter.rs\<close>). \<open>Instant::now()\<close> is an argument. A \<open>&mut\<close> into the
  registry is modelled by handing the state out and writing it back with \<open>put_exporter\<close>.
\<close>

section \<open>The state of one exporter\<close>

record ExporterState =
  es_template_cache :: TemplateCache
  es_last_sequence_number :: "u32 option"
  es_first_seen :: nat
  es_last_seen :: nat
  es_packets_received :: u64

definition new_exporter :: "nat \<Rightarrow> ExporterState" where
  "new_exporter now = \<lparr>es_template_cache = new_cache, es_last_sequence_number = None,
     es_first_seen = now, es_last_seen = now, es_packets_received = 0\<rparr>"

definition observe_sequence :: "ExporterState \<Rightarrow> u32 \<Rightarrow> nat \<Rightarrow> bool \<times> ExporterState" where
  "observe_sequence e sequence_number now =
     (let e = e\<lparr>es_last_seen := now, es_packets_received := es_packets_received e + 1\<rparr>;
          is_restart = (case es_last_sequence_number e of
            Some prev \<Rightarrow> sequence_number < prev | None \<Rightarrow> False);
          e = (if is_restart then e\<lparr>es_template_cache := cache_clear (es_template_cache e)\<rparr> else e)
      in (is_restart, e\<lparr>es_last_sequence_number := Some sequence_number\<rparr>))"

section \<open>The allowlist\<close>

record AllowedNetwork =
  an_network :: IpAddr
  an_length :: u8

text \<open>\<open>32 - u32::from(length)\<close> is a \<open>u32\<close> subtraction; the callers keep the length in range.\<close>

primrec allow_mask :: "IpAddr \<Rightarrow> u8 \<Rightarrow> IpAddr" where
  "allow_mask (V4 v4) len = V4 (v4 AND high_bits (unat (32 - ucast len :: u32)))"
| "allow_mask (V6 v6) len = V6 (v6 AND high_bits (unat (128 - ucast len :: u32)))"

definition new_allowed :: "IpAddr \<Rightarrow> u8 \<Rightarrow> AllowedNetwork option" where
  "new_allowed network len =
     (let network = to_canonical network; max = (if is_ipv4 network then 32 else 128) in
      if len > max \<or> allow_mask network len \<noteq> network then None
      else Some \<lparr>an_network = network, an_length = len\<rparr>)"

definition allowed_contains :: "AllowedNetwork \<Rightarrow> IpAddr \<Rightarrow> bool" where
  "allowed_contains n addr =
     (let addr = to_canonical addr in
      is_ipv4 addr = is_ipv4 (an_network n) \<and> allow_mask addr (an_length n) = an_network n)"

section \<open>The registry\<close>

record ExporterLimits =
  el_allowed :: "AllowedNetwork list"
  el_max_exporters :: nat
  el_idle_timeout :: nat

definition DEFAULT_MAX_EXPORTERS :: nat where
  "DEFAULT_MAX_EXPORTERS = 1000"

definition DEFAULT_EXPORTER_IDLE_SECS :: nat where
  "DEFAULT_EXPORTER_IDLE_SECS = 3600"

definition default_limits :: ExporterLimits where
  "default_limits = \<lparr>el_allowed = [], el_max_exporters = DEFAULT_MAX_EXPORTERS,
     el_idle_timeout = DEFAULT_EXPORTER_IDLE_SECS * 10 ^ 9\<rparr>"

type_synonym ExporterKey = "SocketAddr \<times> u32"

record ExporterRegistry =
  er_exporters :: "(ExporterKey \<times> ExporterState) list"
  er_limits :: ExporterLimits

definition with_limits :: "ExporterLimits \<Rightarrow> ExporterRegistry" where
  "with_limits limits = \<lparr>er_exporters = [], er_limits = limits\<rparr>"

definition new_exporter_registry :: ExporterRegistry where
  "new_exporter_registry = with_limits default_limits"

definition permits :: "ExporterRegistry \<Rightarrow> IpAddr \<Rightarrow> bool" where
  "permits r addr = (el_allowed (er_limits r) = [] \<or>
     list_ex (\<lambda>n. allowed_contains n addr) (el_allowed (er_limits r)))"

definition put_exporter :: "ExporterKey \<Rightarrow> ExporterState \<Rightarrow> ExporterRegistry \<Rightarrow> ExporterRegistry" where
  "put_exporter key e r = r\<lparr>er_exporters := AList.update key e (er_exporters r)\<rparr>"

definition get_or_create ::
    "ExporterRegistry \<Rightarrow> ExporterKey \<Rightarrow> nat \<Rightarrow> ExporterState option \<times> ExporterRegistry" where
  "get_or_create r key now =
     (let full = (length (er_exporters r) \<ge> el_max_exporters (er_limits r)) in
      case map_of (er_exporters r) key of
        Some e \<Rightarrow> (Some e, r)
      | None \<Rightarrow> if full then (None, r)
          else (Some (new_exporter now), put_exporter key (new_exporter now) r))"

definition evict_idle :: "ExporterRegistry \<Rightarrow> nat \<Rightarrow> nat \<times> ExporterRegistry" where
  "evict_idle r now =
     (let kept = filter (\<lambda>(k, e). now - es_last_seen e \<le> el_idle_timeout (er_limits r)) (er_exporters r)
      in (length (er_exporters r) - length kept, r\<lparr>er_exporters := kept\<rparr>))"

definition exporter_count :: "ExporterRegistry \<Rightarrow> nat" where
  "exporter_count r = length (er_exporters r)"

definition total_template_count :: "ExporterRegistry \<Rightarrow> nat" where
  "total_template_count r =
     sum_list (map (\<lambda>(k, e). cache_len (es_template_cache e)) (er_exporters r))"

section \<open>The registry's invariant\<close>

definition registry_ok :: "ExporterRegistry \<Rightarrow> bool" where
  "registry_ok r \<longleftrightarrow> distinct (map fst (er_exporters r)) \<and>
     length (er_exporters r) \<le> el_max_exporters (er_limits r) \<and>
     list_all (\<lambda>(k, e). cache_ok (es_template_cache e)) (er_exporters r)"

lemma with_limits_ok: "registry_ok (with_limits limits)"
  by (simp add: registry_ok_def with_limits_def)

lemma put_exporter_limits [simp]: "er_limits (put_exporter key e r) = er_limits r"
  by (simp add: put_exporter_def)

lemma put_exporter_ok:
  assumes "registry_ok r" "cache_ok (es_template_cache e)"
    "map_of (er_exporters r) key \<noteq> None \<or> length (er_exporters r) < el_max_exporters (er_limits r)"
  shows "registry_ok (put_exporter key e r)"
  using assms
  by (auto simp: registry_ok_def put_exporter_def hm_length_update distinct_update
      intro: hm_list_all_update split: option.splits)

lemma get_or_create_ok:
  "registry_ok r \<Longrightarrow> get_or_create r key now = (res, r') \<Longrightarrow> registry_ok r'"
  by (auto simp: get_or_create_def Let_def new_exporter_def new_cache_ok
      intro: put_exporter_ok split: option.splits if_splits)

lemma get_or_create_Some:
  assumes "registry_ok r" "get_or_create r key now = (Some e, r')"
  shows "cache_ok (es_template_cache e)" "map_of (er_exporters r') key = Some e" "er_limits r' = er_limits r"
  using assms
  by (auto simp: get_or_create_def Let_def new_exporter_def new_cache_ok put_exporter_def
      registry_ok_def update_conv' split: option.splits if_splits
      dest: hm_list_all_map_of)

lemma get_or_create_None:
  "get_or_create r key now = (None, r') \<Longrightarrow>
     r' = r \<and> map_of (er_exporters r) key = None \<and>
     el_max_exporters (er_limits r) \<le> exporter_count r"
  by (auto simp: get_or_create_def Let_def exporter_count_def split: option.splits if_splits)

lemma observe_sequence_ok:
  "cache_ok (es_template_cache e) \<Longrightarrow> cache_ok (es_template_cache (snd (observe_sequence e s now)))"
  by (auto simp: observe_sequence_def Let_def intro: cache_clear_ok)

lemma evict_idle_ok: "registry_ok r \<Longrightarrow> registry_ok (snd (evict_idle r now))"
  by (auto simp: registry_ok_def evict_idle_def Let_def list_all_iff
      intro: order_trans[OF length_filter_le] distinct_map_filter)

lemma total_template_count_bound:
  assumes "registry_ok r"
  shows "total_template_count r \<le> MAX_TEMPLATES * el_max_exporters (er_limits r)"
proof -
  have "total_template_count r \<le> MAX_TEMPLATES * length (er_exporters r)"
    using assms unfolding registry_ok_def total_template_count_def
    by (intro hm_sum_bound) (auto simp: list_all_iff cache_ok_def cache_len_def)
  also have "\<dots> \<le> MAX_TEMPLATES * el_max_exporters (er_limits r)"
    using assms by (simp add: registry_ok_def)
  finally show ?thesis .
qed

section \<open>What the allowlist lets in\<close>

lemma allow_mask_leading:
  "unat len \<le> width a \<Longrightarrow> allow_mask a len = leading (unat len) a"
  using unat_width_minus[of len 32] unat_width_minus[of len 128] by (cases a) auto

lemma new_allowed_Some:
  assumes "new_allowed network len = Some n"
  shows "unat len \<le> width (to_canonical network)" "an_length n = len"
    "an_network n = to_canonical network" "leading (unat len) (an_network n) = an_network n"
proof -
  show w: "unat len \<le> width (to_canonical network)"
    using assms by (cases "to_canonical network")
      (auto simp: new_allowed_def Let_def word_less_nat_alt not_less split: if_splits)
  show "an_length n = len" "an_network n = to_canonical network"
    using assms by (auto simp: new_allowed_def Let_def split: if_splits)
  show "leading (unat len) (an_network n) = an_network n"
    using assms allow_mask_leading[OF w] by (auto simp: new_allowed_def Let_def split: if_splits)
qed

lemma contains_leading:
  assumes "an_network n = to_canonical network" "unat (an_length n) \<le> width (an_network n)"
    "leading (unat (an_length n)) (an_network n) = an_network n"
  shows "allowed_contains n addr \<longleftrightarrow>
    leading_eq (unat (an_length n)) (to_canonical addr) (to_canonical network)"
  using assms allow_mask_leading[of "an_length n" "to_canonical addr"]
    leading_eq_iff[OF assms(3), of "to_canonical addr"]
  by (cases "to_canonical addr"; cases "to_canonical network") (auto simp: allowed_contains_def)

text \<open>
  Property C11. An allowlist built from network and length pairs lets a source in exactly when it is
  empty or one of its networks is of the source's family and agrees with it on its leading
  bits, IPv4-mapped sources counting as IPv4.
\<close>

theorem permits_exactly_listed_networks:
  assumes "those (map (\<lambda>(network, len). new_allowed network len) specs) = Some ns"
    and "el_allowed (er_limits r) = ns"
  shows "permits r addr \<longleftrightarrow> specs = [] \<or>
    (\<exists>(network, len) \<in> set specs. leading_eq (unat len) (to_canonical addr) (to_canonical network))"
proof -
  have "(ns = [] \<longleftrightarrow> specs = []) \<and> (list_ex (\<lambda>n. allowed_contains n addr) ns \<longleftrightarrow>
      (\<exists>(network, len) \<in> set specs. leading_eq (unat len) (to_canonical addr) (to_canonical network)))"
    using assms(1)
  proof (induction specs arbitrary: ns)
    case Nil
    then show ?case by auto
  next
    case (Cons s specs)
    obtain network len where s: "s = (network, len)" by (cases s)
    from Cons.prems obtain n ns' where n: "new_allowed network len = Some n" and ns: "ns = n # ns'"
      and rest: "those (map (\<lambda>(network, len). new_allowed network len) specs) = Some ns'"
      by (auto simp: s split: option.splits)
    note facts = new_allowed_Some[OF n]
    have "allowed_contains n addr \<longleftrightarrow> leading_eq (unat len) (to_canonical addr) (to_canonical network)"
      using contains_leading[of n network addr] facts by simp
    with Cons.IH[OF rest] show ?case by (auto simp: s ns)
  qed
  with assms(2) show ?thesis by (simp add: permits_def)
qed

theorem permits_exactly_listed_networks_witness:
  "permits (with_limits (default_limits\<lparr>el_allowed := [\<lparr>an_network = V4 0xC0000200, an_length = 24\<rparr>]\<rparr>))
     (V6 0xffffC0000205) \<and>
   \<not> permits (with_limits (default_limits\<lparr>el_allowed := [\<lparr>an_network = V4 0xC0000200, an_length = 24\<rparr>]\<rparr>))
     (V4 0xC0000305)"
proof -
  let ?r = "with_limits (default_limits\<lparr>el_allowed := [\<lparr>an_network = V4 0xC0000200, an_length = 24\<rparr>]\<rparr>)"
  have "those (map (\<lambda>(network, len). new_allowed network len) [(V4 0xC0000200, 24)]) =
      Some [\<lparr>an_network = V4 0xC0000200, an_length = 24\<rparr>]"
    by code_simp
  moreover have "el_allowed (er_limits ?r) = [\<lparr>an_network = V4 0xC0000200, an_length = 24\<rparr>]"
    by (simp add: with_limits_def)
  moreover have "leading_eq (unat (24::u8)) (to_canonical (V6 0xffffC0000205)) (to_canonical (V4 0xC0000200))"
    "\<not> leading_eq (unat (24::u8)) (to_canonical (V4 0xC0000305)) (to_canonical (V4 0xC0000200))"
    by code_simp+
  ultimately show ?thesis
    using permits_exactly_listed_networks[of "[(V4 0xC0000200, 24)]" _ ?r] by auto
qed

end
