(* ===== verification/Prefix_Trie.thy ===== *)
theory Prefix_Trie
  imports Prelude
begin

text \<open>
  The binary trie of the classifier (\<open>src/crates/classifier/src/trie.rs\<close>) and what it
  implements. A trie stands for the map from bit paths to entries that \<open>entry_at\<close> reads off;
  insertion updates that map at one path and reports the paths above and below it, and lookup
  finds the longest path along an address. The locale \<open>prefix_table\<close> states this contract for
  the prefix registry; the trie is its interpretation.
\<close>

section \<open>The trie\<close>

datatype 'a Node = Node "'a Node option" "'a Node option" "'a option"

definition new_node :: "'a Node" where
  "new_node = Node None None None"

primrec node_entry :: "'a Node \<Rightarrow> 'a option" where
  "node_entry (Node c0 c1 e) = e"

record OverlapKind =
  ok_broader :: bool
  ok_existing_prefix_len :: u8

datatype TrieError = TriePrefixTooLong u8 u8 | TrieDuplicatePrefix

record 'a PrefixTrie =
  pt_max_bits :: u8
  pt_root :: "'a Node"

definition new_trie :: "u8 \<Rightarrow> 'a PrefixTrie" where
  "new_trie max_bits = \<lparr>pt_max_bits = max_bits, pt_root = new_node\<rparr>"

text \<open>\<open>max_bits - 1 - depth\<close> does not underflow: the callers keep \<open>depth < max_bits\<close>.\<close>

definition bit_at :: "u128 \<Rightarrow> nat \<Rightarrow> u8 \<Rightarrow> u8" where
  "bit_at addr_bits depth max_bits = ucast (drop_bit (unat max_bits - 1 - depth) addr_bits AND 1)"

fun collect_descendant_lengths :: "'a Node \<Rightarrow> u8 \<Rightarrow> OverlapKind list" where
  "collect_descendant_lengths (Node c0 c1 e) depth =
     concat (map (\<lambda>c. case c of
         None \<Rightarrow> []
       | Some child \<Rightarrow>
           (if node_entry child \<noteq> None
            then [\<lparr>ok_broader = False, ok_existing_prefix_len = depth + 1\<rparr>] else []) @
           collect_descendant_lengths child (depth + 1))
       [c0, c1])"

text \<open>The descent of \<open>PrefixTrie::insert\<close>: \<open>todo\<close> is \<open>prefix_len - depth\<close>, and the node
  handed back replaces the one handed in, which is what the \<open>&mut\<close> walk does to the trie.\<close>

fun insert_at ::
    "u128 \<Rightarrow> u8 \<Rightarrow> 'a \<Rightarrow> nat \<Rightarrow> nat \<Rightarrow> OverlapKind list \<Rightarrow> 'a Node \<Rightarrow> (TrieError + OverlapKind list) \<times> 'a Node"
where
  "insert_at addr_bits max_bits new_entry depth 0 overlaps (Node c0 c1 e) =
     (if e \<noteq> None then (Inl TrieDuplicatePrefix, Node c0 c1 e)
      else (Inr (overlaps @ collect_descendant_lengths (Node c0 c1 e) (of_nat depth)),
            Node c0 c1 (Some new_entry)))"
| "insert_at addr_bits max_bits new_entry depth (Suc todo) overlaps (Node c0 c1 e) =
     (let overlaps = (if e \<noteq> None
            then overlaps @ [\<lparr>ok_broader = True, ok_existing_prefix_len = of_nat depth\<rparr>] else overlaps)
      in if bit_at addr_bits depth max_bits = 0 then
           let (res, c) = insert_at addr_bits max_bits new_entry (depth + 1) todo overlaps
                 (case c0 of None \<Rightarrow> new_node | Some c \<Rightarrow> c)
           in (res, Node (Some c) c1 e)
         else
           let (res, c) = insert_at addr_bits max_bits new_entry (depth + 1) todo overlaps
                 (case c1 of None \<Rightarrow> new_node | Some c \<Rightarrow> c)
           in (res, Node c0 (Some c) e))"

definition trie_insert ::
    "'a PrefixTrie \<Rightarrow> u128 \<Rightarrow> u8 \<Rightarrow> 'a \<Rightarrow> (TrieError + OverlapKind list) \<times> 'a PrefixTrie" where
  "trie_insert t addr_bits prefix_len new_entry =
     (if prefix_len > pt_max_bits t then (Inl (TriePrefixTooLong prefix_len (pt_max_bits t)), t)
      else let (res, root) = insert_at addr_bits (pt_max_bits t) new_entry 0 (unat prefix_len) [] (pt_root t)
           in (res, t\<lparr>pt_root := root\<rparr>))"

text \<open>The loop of \<open>PrefixTrie::lookup\<close>; \<open>todo\<close> is \<open>max_bits - depth\<close>.\<close>

fun lookup_at :: "u128 \<Rightarrow> u8 \<Rightarrow> nat \<Rightarrow> nat \<Rightarrow> ('a \<times> u8) option \<Rightarrow> 'a Node \<Rightarrow> ('a \<times> u8) option" where
  "lookup_at addr_bits max_bits depth 0 best node = best"
| "lookup_at addr_bits max_bits depth (Suc todo) best (Node c0 c1 e) =
     (case (if bit_at addr_bits depth max_bits = 0 then c0 else c1) of
        Some child \<Rightarrow>
          lookup_at addr_bits max_bits (depth + 1) todo
            (case node_entry child of Some e \<Rightarrow> Some (e, of_nat depth + 1) | None \<Rightarrow> best) child
      | None \<Rightarrow> best)"

definition trie_lookup :: "'a PrefixTrie \<Rightarrow> u128 \<Rightarrow> ('a \<times> u8) option" where
  "trie_lookup t addr_bits =
     lookup_at addr_bits (pt_max_bits t) 0 (unat (pt_max_bits t))
       (case node_entry (pt_root t) of Some e \<Rightarrow> Some (e, 0) | None \<Rightarrow> None) (pt_root t)"

section \<open>The map a trie stands for\<close>

fun entry_at :: "'a Node \<Rightarrow> bool list \<Rightarrow> 'a option" where
  "entry_at (Node c0 c1 e) [] = e"
| "entry_at (Node c0 c1 e) (b # bs) =
     (case (if b then c1 else c0) of None \<Rightarrow> None | Some c \<Rightarrow> entry_at c bs)"

definition path :: "nat \<Rightarrow> u128 \<Rightarrow> nat \<Rightarrow> nat \<Rightarrow> bool list" where
  "path w a d n = map (\<lambda>i. bit a (w - 1 - i)) [d..<d + n]"

lemma path_0 [simp]: "path w a d 0 = []"
  by (simp add: path_def)

lemma path_Suc: "path w a d (Suc n) = bit a (w - 1 - d) # path w a (Suc d) n"
  by (simp add: path_def upt_conv_Cons del: upt_Suc)

lemma length_path [simp]: "length (path w a d n) = n"
  by (simp add: path_def)

lemma take_path: "k \<le> n \<Longrightarrow> take k (path w a d n) = path w a d k"
  by (simp add: path_def take_map)

lemma bit_at_0: "bit_at a d m = 0 \<longleftrightarrow> \<not> bit a (unat m - 1 - d)"
proof -
  have "bit_at a d m = 0 \<longleftrightarrow> drop_bit (unat m - 1 - d) a AND 1 = 0"
    unfolding bit_at_def by (metis and_one_eq odd_one unsigned_0 ucast_down_up unsigned_1
        even_of_nat len_num1 zero_neq_one mod2_eq_if)
  also have "\<dots> \<longleftrightarrow> even (drop_bit (unat m - 1 - d) a)"
    by (metis and_one_eq even_iff_mod_2_eq_zero)
  finally show ?thesis by (simp only: bit_iff_odd_drop_bit not_not)
qed

lemma entry_at_new_node [simp]: "entry_at new_node p = None"
  by (cases p) (auto simp: new_node_def)

lemma entry_at_Nil [simp]: "entry_at node [] = node_entry node"
  by (cases node) simp

abbreviation child_or_new :: "'a Node option \<Rightarrow> 'a Node" where
  "child_or_new c \<equiv> (case c of None \<Rightarrow> new_node | Some n \<Rightarrow> n)"

lemma entry_at_Cons: "entry_at (Node c0 c1 e) (b # bs) = entry_at (child_or_new (if b then c1 else c0)) bs"
  by (auto split: option.split)

lemma insert_at_entries:
  assumes "insert_at a m e d n ov node = (res, node')"
  shows "case res of
      Inl err \<Rightarrow> err = TrieDuplicatePrefix \<and> entry_at node (path (unat m) a d n) \<noteq> None \<and>
        entry_at node' = entry_at node
    | Inr ov' \<Rightarrow> entry_at node (path (unat m) a d n) = None \<and>
        entry_at node' = (entry_at node)(path (unat m) a d n := Some e)"
  using assms
proof (induction n arbitrary: d ov node res node')
  case 0
  then show ?case
    by (cases node) (auto simp: fun_eq_iff neq_Nil_conv split: if_splits)
next
  case (Suc n)
  obtain c0 c1 en where node: "node = Node c0 c1 en" by (cases node)
  let ?b = "bit a (unat m - 1 - d)"
  obtain ov' c where ins: "insert_at a m e (d + 1) n ov' (child_or_new (if ?b then c1 else c0)) = (res, c)"
    and node': "node' = (if ?b then Node c0 (Some c) en else Node (Some c) c1 en)"
    using Suc.prems by (auto simp: node Let_def bit_at_0 split: if_splits prod.splits)
  have old: "entry_at node q = (case q of [] \<Rightarrow> en | b # bs \<Rightarrow>
      entry_at (child_or_new (if b then c1 else c0)) bs)" for q
    by (auto simp: node split: list.split option.split)
  have new: "entry_at node' q = (case q of [] \<Rightarrow> en | b # bs \<Rightarrow>
      if b = ?b then entry_at c bs else entry_at (child_or_new (if b then c1 else c0)) bs)" for q
    by (auto simp: node' split: list.split option.split)
  from Suc.IH[OF ins] show ?case
    by (cases res) (auto simp: path_Suc old new fun_eq_iff split: list.splits)
qed

abbreviation narrower :: "u8 \<Rightarrow> nat \<Rightarrow> OverlapKind" where
  "narrower d n \<equiv> \<lparr>ok_broader = False, ok_existing_prefix_len = d + of_nat n\<rparr>"

abbreviation broader :: "nat \<Rightarrow> OverlapKind" where
  "broader n \<equiv> \<lparr>ok_broader = True, ok_existing_prefix_len = of_nat n\<rparr>"

lemma dom_entry_at:
  "dom (entry_at (Node c0 c1 e)) = (if e \<noteq> None then {[]} else {}) \<union>
     Cons False ` dom (entry_at (child_or_new c0)) \<union> Cons True ` dom (entry_at (child_or_new c1))"
  (is "?L = ?R")
proof (rule set_eqI)
  fix q show "q \<in> ?L \<longleftrightarrow> q \<in> ?R"
  proof (cases q)
    case Nil
    then show ?thesis by auto
  next
    case (Cons b bs)
    then show ?thesis by (cases b) (auto simp: domIff image_iff split: option.splits)
  qed
qed

lemma dom_entry_at_root:
  "dom (entry_at n) = (if node_entry n \<noteq> None then {[]} else {}) \<union> (dom (entry_at n) - {[]})"
  by (cases n) (auto simp: dom_def)

lemma collect_descendants_set:
  "set (collect_descendant_lengths n d) = (\<lambda>q. narrower d (length q)) ` (dom (entry_at n) - {[]})"
proof (induction n d rule: collect_descendant_lengths.induct)
  case (1 c0 c1 e d)
  have child: "set (case c of None \<Rightarrow> [] | Some child \<Rightarrow>
      (if node_entry child \<noteq> None then [narrower d 1] else []) @
      collect_descendant_lengths child (d + 1)) =
     (\<lambda>q. narrower d (Suc (length q))) ` dom (entry_at (child_or_new c))"
    if "c \<in> set [c0, c1]" for c
  proof (cases c)
    case None
    then show ?thesis by (simp add: dom_def)
  next
    case (Some n)
    have "narrower (d + 1) k = narrower d (Suc k)" for k by (simp add: add.assoc)
    with 1[OF that Some] Some show ?thesis
      by (subst dom_entry_at_root) (auto simp: image_Un)
  qed
  have "dom (entry_at (Node c0 c1 e)) - {[]} =
      Cons False ` dom (entry_at (child_or_new c0)) \<union> Cons True ` dom (entry_at (child_or_new c1))"
    by (auto simp: dom_entry_at)
  with child[of c0] child[of c1] show ?case by (simp add: image_Un image_image)
qed

lemma insert_at_overlaps:
  assumes "insert_at a m e d n ov node = (Inr ov', node')"
  shows "set ov' = set ov \<union>
    (\<lambda>k. broader (d + k)) ` {k. k < n \<and> path (unat m) a d k \<in> dom (entry_at node)} \<union>
    (\<lambda>q. narrower (of_nat (d + n)) (length q)) `
      ({q. path (unat m) a d n @ q \<in> dom (entry_at node)} - {[]})"
  using assms
proof (induction n arbitrary: d ov node node')
  case 0
  then have "ov' = ov @ collect_descendant_lengths node (of_nat d)"
    by (cases node) (auto split: if_splits)
  then show ?case by (simp add: collect_descendants_set)
next
  case (Suc n)
  obtain c0 c1 en where node: "node = Node c0 c1 en" by (cases node)
  let ?b = "bit a (unat m - 1 - d)"
  let ?c = "child_or_new (if ?b then c1 else c0)"
  obtain c where ins: "insert_at a m e (d + 1) n
      (if en \<noteq> None then ov @ [broader d] else ov) ?c = (Inr ov', c)"
    using Suc.prems by (auto simp: node Let_def bit_at_0 split: if_splits prod.splits)
  have at: "path (unat m) a d (Suc k) @ q \<in> dom (entry_at node) \<longleftrightarrow>
      path (unat m) a (d + 1) k @ q \<in> dom (entry_at ?c)" for k q
    unfolding node path_Suc append_Cons domIff entry_at_Cons by simp
  have "{k. k < Suc n \<and> path (unat m) a d k \<in> dom (entry_at node)} =
     (if en \<noteq> None then {0} else {}) \<union>
     Suc ` {k. k < n \<and> path (unat m) a (d + 1) k \<in> dom (entry_at ?c)}" (is "?L = ?R")
  proof (rule set_eqI)
    fix k show "k \<in> ?L \<longleftrightarrow> k \<in> ?R"
      using at[of "k - 1" "[]"] by (cases k) (auto simp: node)
  qed
  with Suc.IH[OF ins] at show ?case by (auto simp: image_Un image_image)
qed

lemma lookup_at_spec:
  "(\<exists>k e. 0 < k \<and> k \<le> n \<and> entry_at node (path (unat m) a d k) = Some e \<and>
      lookup_at a m d n best node = Some (e, of_nat (d + k)) \<and>
      (\<forall>k'. k < k' \<and> k' \<le> n \<longrightarrow> entry_at node (path (unat m) a d k') = None)) \<or>
   lookup_at a m d n best node = best \<and>
      (\<forall>k. 0 < k \<and> k \<le> n \<longrightarrow> entry_at node (path (unat m) a d k) = None)"
proof (induction n arbitrary: d best node)
  case 0
  then show ?case by simp
next
  case (Suc n)
  obtain c0 c1 en where node: "node = Node c0 c1 en" by (cases node)
  let ?b = "bit a (unat m - 1 - d)"
  have at: "entry_at node (path (unat m) a d (Suc k)) =
      entry_at (child_or_new (if ?b then c1 else c0)) (path (unat m) a (d + 1) k)" for k
    unfolding node path_Suc entry_at_Cons by simp
  show ?case
  proof (cases "if ?b then c1 else c0")
    case None
    then have "lookup_at a m d (Suc n) best node = best" by (auto simp: node bit_at_0 split: if_splits)
    moreover have "entry_at node (path (unat m) a d k) = None" if "0 < k" for k
      using at[of "k - 1"] that None by (simp split: if_splits)
    ultimately show ?thesis by simp
  next
    case (Some c)
    let ?best = "case node_entry c of Some e \<Rightarrow> Some (e, of_nat d + 1) | None \<Rightarrow> best"
    have l: "lookup_at a m d (Suc n) best node = lookup_at a m (d + 1) n ?best c"
      using Some by (auto simp: node bit_at_0 split: if_splits)
    have at': "entry_at node (path (unat m) a d k) = entry_at c (path (unat m) a (d + 1) (k - 1))"
      if "0 < k" for k using at[of "k - 1"] that Some by (simp split: if_splits)
    from Suc.IH[of c "d + 1" ?best] show ?thesis
    proof (elim disjE exE conjE)
      fix k e
      assume k: "0 < k" "k \<le> n" "entry_at c (path (unat m) a (d + 1) k) = Some e"
        "lookup_at a m (d + 1) n ?best c = Some (e, of_nat (d + 1 + k))"
        "\<forall>k'. k < k' \<and> k' \<le> n \<longrightarrow> entry_at c (path (unat m) a (d + 1) k') = None"
      have rest: "entry_at node (path (unat m) a d k') = None" if "Suc k < k'" "k' \<le> Suc n" for k'
        using k(5)[rule_format, of "k' - 1"] that by (cases k') (auto simp: at')
      from k rest show ?thesis unfolding l
        by (intro disjI1 exI[of _ "Suc k"] exI[of _ e]) (simp add: at' add.assoc)
    next
      assume r: "lookup_at a m (d + 1) n ?best c = ?best"
        "\<forall>k. 0 < k \<and> k \<le> n \<longrightarrow> entry_at c (path (unat m) a (d + 1) k) = None"
      show ?thesis
      proof (cases "node_entry c")
        case None
        then have "entry_at node (path (unat m) a d k) = None" if "0 < k" "k \<le> Suc n" for k
          using r(2) that by (cases "k = 1") (auto simp: at')
        with None r(1) show ?thesis unfolding l by simp
      next
        case (Some e)
        with r show ?thesis unfolding l
          by (intro disjI1 exI[of _ 1] exI[of _ e]) (auto simp: at')
      qed
    qed
  qed
qed

section \<open>The contract of a prefix table\<close>

locale prefix_table =
  fixes entries :: "'t \<Rightarrow> bool list \<Rightarrow> 'e option"
    and bits :: "'t \<Rightarrow> nat"
    and ins :: "'t \<Rightarrow> u128 \<Rightarrow> u8 \<Rightarrow> 'e \<Rightarrow> (TrieError + OverlapKind list) \<times> 't"
    and look :: "'t \<Rightarrow> u128 \<Rightarrow> ('e \<times> u8) option"
  assumes ins_too_long: "bits t < unat n \<Longrightarrow> ins t a n e = (Inl (TriePrefixTooLong n (of_nat (bits t))), t)"
    and ins_in_range: "unat n \<le> bits t \<Longrightarrow> ins t a n e = (res, t') \<Longrightarrow> bits t' = bits t \<and>
      (case res of
         Inl err \<Rightarrow> err = TrieDuplicatePrefix \<and> entries t (path (bits t) a 0 (unat n)) \<noteq> None \<and>
           entries t' = entries t
       | Inr ov \<Rightarrow> entries t (path (bits t) a 0 (unat n)) = None \<and>
           entries t' = (entries t)(path (bits t) a 0 (unat n) := Some e))"
    and look_longest: "case look t a of
        None \<Rightarrow> \<forall>k \<le> bits t. entries t (path (bits t) a 0 k) = None
      | Some (e, n) \<Rightarrow> unat n \<le> bits t \<and> entries t (path (bits t) a 0 (unat n)) = Some e \<and>
          (\<forall>k. unat n < k \<and> k \<le> bits t \<longrightarrow> entries t (path (bits t) a 0 k) = None)"
begin

text \<open>A table holds a list of prefixes when its map is theirs, no two the same.\<close>

definition keyed :: "nat \<Rightarrow> (u128 \<times> u8 \<times> 'e) list \<Rightarrow> (bool list \<times> 'e) list" where
  "keyed w ps = map (\<lambda>(a, n, e). (path w a 0 (unat n), e)) ps"

lemma keyed_Cons [simp]: "keyed w ((a, n, e) # ps) = (path w a 0 (unat n), e) # keyed w ps"
  by (simp add: keyed_def)

definition holds :: "'t \<Rightarrow> (u128 \<times> u8 \<times> 'e) list \<Rightarrow> bool" where
  "holds t ps \<longleftrightarrow> entries t = map_of (keyed (bits t) ps) \<and> distinct (map fst (keyed (bits t) ps)) \<and>
     (\<forall>(a, n, e) \<in> set ps. unat n \<le> bits t)"

lemma holds_ins:
  assumes "holds t ps" "ins t a n e = (Inr ov, t')"
  shows "holds t' ((a, n, e) # ps)" and "bits t' = bits t"
    and "path (bits t) a 0 (unat n) \<notin> fst ` set (keyed (bits t) ps)"
proof -
  have n: "unat n \<le> bits t" using assms(2) ins_too_long[of t n a e] by force
  note law = ins_in_range[OF n assms(2)]
  from law show b: "bits t' = bits t" by simp
  from law assms(1) show fresh: "path (bits t) a 0 (unat n) \<notin> fst ` set (keyed (bits t) ps)"
    by (simp add: holds_def map_of_eq_None_iff)
  from law assms(1) n b fresh show "holds t' ((a, n, e) # ps)"
    by (simp add: holds_def)
qed

lemma holds_ins_error:
  assumes "holds t ps" "ins t a n e = (Inl err, t')"
  shows "holds t' ps" and "bits t' = bits t"
    and "bits t < unat n \<and> err = TriePrefixTooLong n (of_nat (bits t)) \<or>
      err = TrieDuplicatePrefix \<and> path (bits t) a 0 (unat n) \<in> fst ` set (keyed (bits t) ps)"
proof -
  show "holds t' ps" and "bits t' = bits t"
    and "bits t < unat n \<and> err = TriePrefixTooLong n (of_nat (bits t)) \<or>
      err = TrieDuplicatePrefix \<and> path (bits t) a 0 (unat n) \<in> fst ` set (keyed (bits t) ps)"
    using assms ins_too_long[of t n a e] ins_in_range[of n t a e "Inl err" t']
    by (cases "bits t < unat n"; force simp: holds_def map_of_eq_None_iff not_less)+
qed

lemma holds_look:
  assumes "holds t ps"
  shows "case look t b of
      None \<Rightarrow> \<forall>(a, n, e) \<in> set ps. path (bits t) a 0 (unat n) \<noteq> path (bits t) b 0 (unat n)
    | Some (e, n) \<Rightarrow> \<exists>a. (a, n, e) \<in> set ps \<and> path (bits t) a 0 (unat n) = path (bits t) b 0 (unat n) \<and>
        (\<forall>(a', n', e') \<in> set ps. path (bits t) a' 0 (unat n') = path (bits t) b 0 (unat n') \<longrightarrow> n' \<le> n)"
proof -
  let ?p = "\<lambda>k. path (bits t) b 0 k"
  have ent: "entries t (?p (unat n)) \<noteq> None" and le: "unat n \<le> bits t"
    if "(a, n, e) \<in> set ps" "path (bits t) a 0 (unat n) = ?p (unat n)" for a n e
    using assms that by (force simp: holds_def keyed_def map_of_eq_None_iff image_iff)+
  show ?thesis
  proof (cases "look t b")
    case None
    with look_longest[of t b] ent le show ?thesis by force
  next
    case (Some en)
    obtain e n where en: "en = (e, n)" by (cases en)
    from look_longest[of t b] Some en have n: "unat n \<le> bits t" "entries t (?p (unat n)) = Some e"
      and none: "\<And>k. unat n < k \<Longrightarrow> k \<le> bits t \<Longrightarrow> entries t (?p k) = None" by auto
    from n(2) assms have "(?p (unat n), e) \<in> set (keyed (bits t) ps)"
      by (auto simp: holds_def dest: map_of_SomeD)
    then obtain a n' where a: "(a, n', e) \<in> set ps" "path (bits t) a 0 (unat n') = ?p (unat n)"
      by (auto simp: keyed_def)
    then have "unat n' = unat n" using length_path by metis
    then have "n' = n" by (simp only: word_unat_eq_iff)
    moreover have "n'' \<le> n" if "(a', n'', e') \<in> set ps" "path (bits t) a' 0 (unat n'') = ?p (unat n'')" for a' n'' e'
      using ent[OF that] le[OF that] none[of "unat n''"] by (force simp: word_le_nat_alt)
    ultimately show ?thesis using a by (auto simp: Some en intro!: exI[of _ a])
  qed
qed

end

section \<open>The trie implements it\<close>

lemma unat_of_nat_u8:
  assumes "k \<le> unat (m :: u8)"
  shows "unat (of_nat k :: u8) = k"
proof -
  have "unat m < 256" using unsigned_less[of m] by simp
  then show ?thesis using assms by (simp add: unat_of_nat)
qed

interpretation trie: prefix_table "\<lambda>t. entry_at (pt_root t)" "\<lambda>t. unat (pt_max_bits t)" trie_insert trie_lookup
proof
  fix t :: "'a PrefixTrie" and n a e
  show "unat (pt_max_bits t) < unat n \<Longrightarrow>
      trie_insert t a n e = (Inl (TriePrefixTooLong n (of_nat (unat (pt_max_bits t)))), t)"
    by (simp add: trie_insert_def word_less_nat_alt)
next
  fix t t' :: "'a PrefixTrie" and n a e res
  assume "unat n \<le> unat (pt_max_bits t)" "trie_insert t a n e = (res, t')"
  then obtain root where ins: "insert_at a (pt_max_bits t) e 0 (unat n) [] (pt_root t) = (res, root)"
    and t': "t' = t\<lparr>pt_root := root\<rparr>"
    by (auto simp: trie_insert_def word_less_nat_alt split: if_splits prod.splits)
  show "unat (pt_max_bits t') = unat (pt_max_bits t) \<and>
      (case res of
         Inl err \<Rightarrow> err = TrieDuplicatePrefix \<and>
           entry_at (pt_root t) (path (unat (pt_max_bits t)) a 0 (unat n)) \<noteq> None \<and>
           entry_at (pt_root t') = entry_at (pt_root t)
       | Inr ov \<Rightarrow> entry_at (pt_root t) (path (unat (pt_max_bits t)) a 0 (unat n)) = None \<and>
           entry_at (pt_root t') = (entry_at (pt_root t))(path (unat (pt_max_bits t)) a 0 (unat n) := Some e))"
    using insert_at_entries[OF ins] by (simp add: t' split: sum.splits)
next
  fix t :: "'a PrefixTrie" and a
  let ?m = "pt_max_bits t"
  let ?best = "case node_entry (pt_root t) of Some e \<Rightarrow> Some (e, 0 :: u8) | None \<Rightarrow> None"
  show "case trie_lookup t a of
        None \<Rightarrow> \<forall>k \<le> unat ?m. entry_at (pt_root t) (path (unat ?m) a 0 k) = None
      | Some (e, n) \<Rightarrow> unat n \<le> unat ?m \<and> entry_at (pt_root t) (path (unat ?m) a 0 (unat n)) = Some e \<and>
          (\<forall>k. unat n < k \<and> k \<le> unat ?m \<longrightarrow> entry_at (pt_root t) (path (unat ?m) a 0 k) = None)"
    using lookup_at_spec[of "unat ?m" "pt_root t" ?m a 0 ?best]
  proof (elim disjE exE conjE)
    fix k e
    assume "k \<le> unat ?m" "entry_at (pt_root t) (path (unat ?m) a 0 k) = Some e"
      "lookup_at a ?m 0 (unat ?m) ?best (pt_root t) = Some (e, of_nat (0 + k))"
      "\<forall>k'. k < k' \<and> k' \<le> unat ?m \<longrightarrow> entry_at (pt_root t) (path (unat ?m) a 0 k') = None"
    then show ?thesis by (simp add: trie_lookup_def unat_of_nat_u8)
  next
    assume r: "lookup_at a ?m 0 (unat ?m) ?best (pt_root t) = ?best"
      "\<forall>k. 0 < k \<and> k \<le> unat ?m \<longrightarrow> entry_at (pt_root t) (path (unat ?m) a 0 k) = None"
    then have "entry_at (pt_root t) (path (unat ?m) a 0 k) = None" if "node_entry (pt_root t) = None" "k \<le> unat ?m" for k
      using that by (cases "k = 0") auto
    with r show ?thesis by (auto simp: trie_lookup_def split: option.split)
  qed
qed

text \<open>
  Inserting a prefix changes the trie at that prefix only, and reports exactly the
  prefixes already there that overlap it: every registered prefix above it as broader and
  every one below it as narrower, each with its own length.
\<close>

theorem trie_insert_reports_exact_overlaps:
  assumes "trie_insert t a n e = (Inr ov, t')"
  shows "entry_at (pt_root t') =
      (entry_at (pt_root t))(path (unat (pt_max_bits t)) a 0 (unat n) := Some e) \<and>
    set ov =
      {\<lparr>ok_broader = True, ok_existing_prefix_len = of_nat k\<rparr> | k.
         k < unat n \<and> entry_at (pt_root t) (path (unat (pt_max_bits t)) a 0 k) \<noteq> None} \<union>
      {\<lparr>ok_broader = False, ok_existing_prefix_len = n + of_nat (length q)\<rparr> | q.
         q \<noteq> [] \<and> entry_at (pt_root t) (path (unat (pt_max_bits t)) a 0 (unat n) @ q) \<noteq> None}"
proof -
  from assms obtain root where
    ins: "insert_at a (pt_max_bits t) e 0 (unat n) [] (pt_root t) = (Inr ov, root)"
    and t': "t' = t\<lparr>pt_root := root\<rparr>"
    by (auto simp: trie_insert_def split: if_splits prod.splits)
  show ?thesis
    using insert_at_entries[OF ins] insert_at_overlaps[OF ins]
    by (auto simp: t' domIff image_iff)
qed

theorem trie_insert_reports_exact_overlaps_witness:
  "\<exists>ov t'. trie_insert (snd (trie_insert (snd (trie_insert (new_trie 32) 0xC0000000 8 ''a''))
       0xC0000200 24 ''b'')) 0xC0000000 16 ''c'' = (Inr ov, t') \<and>
     ov = [\<lparr>ok_broader = True, ok_existing_prefix_len = 8\<rparr>,
           \<lparr>ok_broader = False, ok_existing_prefix_len = 24\<rparr>] \<and>
     entry_at (pt_root t') (path 32 0xC0000000 0 16) = Some ''c''"
proof -
  let ?t = "snd (trie_insert (snd (trie_insert (new_trie 32) 0xC0000000 8 ''a'')) 0xC0000200 24 ''b'')"
  let ?ov = "[\<lparr>ok_broader = True, ok_existing_prefix_len = 8\<rparr>,
    \<lparr>ok_broader = False, ok_existing_prefix_len = 24 :: u8\<rparr>]"
  have "fst (trie_insert ?t 0xC0000000 16 ''c'') = Inr ?ov" by code_simp
  then obtain t' where ins: "trie_insert ?t 0xC0000000 16 ''c'' = (Inr ?ov, t')" by (metis prod.collapse)
  have "pt_max_bits ?t = 32" by code_simp
  with trie_insert_reports_exact_overlaps[OF ins] ins show ?thesis by auto
qed

end
