(* ===== verification/Rust_Text.thy ===== *)
theory Rust_Text
  imports Net
begin

text \<open>
  Rust strings as lists of Unicode scalar values, with what the sources use of \<open>str\<close> and
  \<open>char\<close>: trimming, control and whitespace characters, the UTF-8 bytes behind byte lengths and
  byte slices, and two-digit hexadecimal.
\<close>

type_synonym rust_str = "nat list"

definition lit :: "string \<Rightarrow> rust_str" where
  "lit s = map of_char s"

definition is_control :: "nat \<Rightarrow> bool" where
  "is_control c = (c < 32 \<or> (127 \<le> c \<and> c < 160))"

definition is_whitespace :: "nat \<Rightarrow> bool" where
  "is_whitespace c = ((9 \<le> c \<and> c \<le> 13) \<or> c = 32 \<or> c = 0x85 \<or> c = 0xA0 \<or> c = 0x1680 \<or>
     (0x2000 \<le> c \<and> c \<le> 0x200A) \<or> c = 0x2028 \<or> c = 0x2029 \<or> c = 0x202F \<or> c = 0x205F \<or> c = 0x3000)"

definition trim :: "rust_str \<Rightarrow> rust_str" where
  "trim s = rev (dropWhile is_whitespace (rev (dropWhile is_whitespace s)))"

definition utf8_char :: "nat \<Rightarrow> u8 list" where
  "utf8_char c =
     (if c < 0x80 then [of_nat c]
      else if c < 0x800 then [of_nat (0xC0 + c div 64), of_nat (0x80 + c mod 64)]
      else if c < 0x10000 then
        [of_nat (0xE0 + c div 4096), of_nat (0x80 + c div 64 mod 64), of_nat (0x80 + c mod 64)]
      else [of_nat (0xF0 + c div 262144), of_nat (0x80 + c div 4096 mod 64),
            of_nat (0x80 + c div 64 mod 64), of_nat (0x80 + c mod 64)])"

definition utf8 :: "rust_str \<Rightarrow> u8 list" where
  "utf8 s = concat (map utf8_char s)"

text \<open>A byte offset is a character boundary unless it falls on a continuation byte.\<close>

definition is_char_boundary :: "u8 list \<Rightarrow> nat \<Rightarrow> bool" where
  "is_char_boundary bs i =
     (i = 0 \<or> i = length bs \<or> (i < length bs \<and> \<not> (0x80 \<le> bs ! i \<and> bs ! i < 0xC0)))"

text \<open>\<open>&s[i..j]\<close>, which panics out of range and inside a character.\<close>

definition str_slice :: "u8 list \<Rightarrow> nat \<Rightarrow> nat \<Rightarrow> 'e failure + u8 list" where
  "str_slice bs i j =
     (if i \<le> j \<and> j \<le> length bs \<and> is_char_boundary bs i \<and> is_char_boundary bs j
      then Inr (take (j - i) (drop i bs)) else Inl Panic)"

definition hex_value :: "u8 \<Rightarrow> nat option" where
  "hex_value b =
     (if 48 \<le> b \<and> b \<le> 57 then Some (unat b - 48)
      else if 97 \<le> b \<and> b \<le> 102 then Some (unat b - 87)
      else if 65 \<le> b \<and> b \<le> 70 then Some (unat b - 55)
      else None)"

text \<open>\<open>u8::from_str_radix(s, 16)\<close> on at most two bytes: an optional leading plus, then digits.\<close>

definition u8_from_hex :: "u8 list \<Rightarrow> u8 option" where
  "u8_from_hex s =
     (case s of
        [] \<Rightarrow> None
      | [a] \<Rightarrow> map_option of_nat (hex_value a)
      | [a, b] \<Rightarrow>
          if a = 43 then map_option of_nat (hex_value b)
          else (case (hex_value a, hex_value b) of
             (Some x, Some y) \<Rightarrow> Some (of_nat (16 * x + y)) | _ \<Rightarrow> None)
      | _ \<Rightarrow> None)"

definition hex_digit :: "nat \<Rightarrow> nat" where
  "hex_digit d = (if d < 10 then 48 + d else 87 + d)"

definition hex2 :: "u8 \<Rightarrow> rust_str" where
  "hex2 b = [hex_digit (unat b div 16), hex_digit (unat b mod 16)]"

end
