(* ===== verification/Classifier.thy ===== *)
theory Classifier
  imports Prefix_Trie Rust_Text Flow
begin

text \<open>
  The prefix registry and the direction classifier
  (\<open>src/crates/classifier/src/registry.rs\<close>, \<open>src/crates/classifier/src/direction.rs\<close>): local
  prefixes of both families, each family in a trie of its own, with the texts of the overlap
  warnings and of the classification's reason.
\<close>

section \<open>The registry\<close>

record PrefixEntry =
  pe_tenant :: rust_str
  pe_hostgroup :: "rust_str option"
  pe_prefix_len :: u8

record PrefixMatch =
  pm_entry :: PrefixEntry
  pm_matched_prefix_len :: u8

datatype RegistryError = RegPrefixTooLong u8 u8 | RegDuplicatePrefix

primrec from_trie_error :: "TrieError \<Rightarrow> RegistryError" where
  "from_trie_error (TriePrefixTooLong got limit) = RegPrefixTooLong got limit"
| "from_trie_error TrieDuplicatePrefix = RegDuplicatePrefix"

record OverlapDiagnostic =
  od_network :: IpAddr
  od_prefix_len :: u8
  od_message :: string

record PrefixRegistry =
  pr_ipv4 :: "PrefixEntry PrefixTrie"
  pr_ipv6 :: "PrefixEntry PrefixTrie"
  pr_len :: nat

definition new_prefix_registry :: PrefixRegistry where
  "new_prefix_registry = \<lparr>pr_ipv4 = new_trie 32, pr_ipv6 = new_trie 128, pr_len = 0\<rparr>"

definition registry_is_empty :: "PrefixRegistry \<Rightarrow> bool" where
  "registry_is_empty r = (pr_len r = 0)"

definition registry_len :: "PrefixRegistry \<Rightarrow> nat" where
  "registry_len r = pr_len r"

definition ipv4_bits :: "u32 \<Rightarrow> u128" where
  "ipv4_bits addr = ucast addr"

definition ipv6_bits :: "u128 \<Rightarrow> u128" where
  "ipv6_bits addr = addr"

abbreviation show_u8 :: "u8 \<Rightarrow> string" where
  "show_u8 n \<equiv> show_nat (unat n)"

definition overlap_diagnostic :: "IpAddr \<Rightarrow> u8 \<Rightarrow> OverlapKind \<Rightarrow> OverlapDiagnostic" where
  "overlap_diagnostic network prefix_len o' =
     \<lparr>od_network = network, od_prefix_len = prefix_len,
      od_message = show_ip network @ ''/'' @ show_u8 prefix_len @
        (if ok_broader o' then '' is contained within an already-registered /''
         else '' already contains a more specific, already-registered /'') @
        show_u8 (ok_existing_prefix_len o')\<rparr>"

definition registry_insert ::
    "PrefixRegistry \<Rightarrow> IpAddr \<Rightarrow> u8 \<Rightarrow> rust_str \<Rightarrow> rust_str option
       \<Rightarrow> (RegistryError + OverlapDiagnostic list) \<times> PrefixRegistry" where
  "registry_insert r network prefix_len tenant hostgroup =
     (let entry = \<lparr>pe_tenant = tenant, pe_hostgroup = hostgroup, pe_prefix_len = prefix_len\<rparr>;
          (outcome, r') = (case network of
             V4 addr \<Rightarrow> (let (res, t) = trie_insert (pr_ipv4 r) (ipv4_bits addr) prefix_len entry
                         in (res, r\<lparr>pr_ipv4 := t\<rparr>))
           | V6 addr \<Rightarrow> (let (res, t) = trie_insert (pr_ipv6 r) (ipv6_bits addr) prefix_len entry
                         in (res, r\<lparr>pr_ipv6 := t\<rparr>)))
      in case outcome of
           Inl e \<Rightarrow> (Inl (from_trie_error e), r')
         | Inr overlaps \<Rightarrow>
             (Inr (map (overlap_diagnostic network prefix_len) overlaps), r'\<lparr>pr_len := pr_len r' + 1\<rparr>))"

definition registry_lookup :: "PrefixRegistry \<Rightarrow> IpAddr \<Rightarrow> PrefixMatch option" where
  "registry_lookup r addr =
     (case addr of
        V4 a \<Rightarrow> map_option (\<lambda>(entry, len). \<lparr>pm_entry = entry, pm_matched_prefix_len = len\<rparr>)
          (trie_lookup (pr_ipv4 r) (ipv4_bits a))
      | V6 a \<Rightarrow> map_option (\<lambda>(entry, len). \<lparr>pm_entry = entry, pm_matched_prefix_len = len\<rparr>)
          (trie_lookup (pr_ipv6 r) (ipv6_bits a)))"

section \<open>Building it from configuration\<close>

record PrefixConfigEntry =
  ce_network :: IpAddr
  ce_prefix_len :: u8
  ce_tenant :: rust_str
  ce_hostgroup :: "rust_str option"

record ConfigValidationError =
  ve_index :: nat
  ve_network :: IpAddr
  ve_prefix_len :: u8
  ve_source :: RegistryError

record ValidationReport =
  vr_registry :: PrefixRegistry
  vr_warnings :: "OverlapDiagnostic list"

text \<open>The loop over the entries with their indices.\<close>

fun build_loop ::
    "nat \<Rightarrow> PrefixConfigEntry list \<Rightarrow> PrefixRegistry \<Rightarrow> OverlapDiagnostic list \<Rightarrow> ConfigValidationError list
       \<Rightarrow> PrefixRegistry \<times> OverlapDiagnostic list \<times> ConfigValidationError list" where
  "build_loop index [] registry warnings errors = (registry, warnings, errors)"
| "build_loop index (entry # entries) registry warnings errors =
     (case registry_insert registry (ce_network entry) (ce_prefix_len entry) (ce_tenant entry) (ce_hostgroup entry) of
        (Inr overlaps, registry) \<Rightarrow> build_loop (index + 1) entries registry (warnings @ overlaps) errors
      | (Inl source, registry) \<Rightarrow> build_loop (index + 1) entries registry warnings
          (errors @ [\<lparr>ve_index = index, ve_network = ce_network entry,
             ve_prefix_len = ce_prefix_len entry, ve_source = source\<rparr>]))"

definition build_registry :: "PrefixConfigEntry list \<Rightarrow> ConfigValidationError list + ValidationReport" where
  "build_registry entries =
     (case build_loop 0 entries new_prefix_registry [] [] of
        (registry, warnings, errors) \<Rightarrow>
          if errors = [] then Inr \<lparr>vr_registry = registry, vr_warnings = warnings\<rparr> else Inl errors)"

section \<open>Direction\<close>

datatype Direction = Incoming | Outgoing | Internal | OtherDirection | UnknownDirection

record ClassificationResult =
  cr_direction :: Direction
  cr_source_local :: "bool option"
  cr_destination_local :: "bool option"
  cr_source_matched_tenant :: "rust_str option"
  cr_destination_matched_tenant :: "rust_str option"
  cr_source_matched_hostgroup :: "rust_str option"
  cr_destination_matched_hostgroup :: "rust_str option"
  cr_reason :: string

text \<open>A space, an em dash (U+2014, in UTF-8) and a space.\<close>

definition em_dash :: string where
  "em_dash = [CHR '' '', CHR 0xE2, CHR 0x80, CHR 0x94, CHR '' '']"

definition classify :: "PrefixRegistry \<Rightarrow> NormalizedFlow \<Rightarrow> ClassificationResult" where
  "classify registry flow =
     (if registry_is_empty registry then
        \<lparr>cr_direction = UnknownDirection, cr_source_local = None, cr_destination_local = None,
         cr_source_matched_tenant = None, cr_destination_matched_tenant = None,
         cr_source_matched_hostgroup = None, cr_destination_matched_hostgroup = None,
         cr_reason = ''no local prefixes are configured; direction cannot be determined''\<rparr>
      else
        let source_match = registry_lookup registry (nf_source_addr flow);
            destination_match = registry_lookup registry (nf_destination_addr flow);
            src = show_ip (nf_source_addr flow);
            dst = show_ip (nf_destination_addr flow);
            (direction, reason) = (case (source_match, destination_match) of
               (None, Some d) \<Rightarrow> (Incoming,
                 ''source '' @ src @ '' matched no local prefix; destination '' @ dst @
                 '' matched a local prefix (/'' @ show_u8 (pm_matched_prefix_len d) @ '')'' @
                 em_dash @ ''classified Incoming'')
             | (Some s, None) \<Rightarrow> (Outgoing,
                 ''source '' @ src @ '' matched a local prefix (/'' @ show_u8 (pm_matched_prefix_len s) @
                 ''); destination '' @ dst @ '' matched no local prefix'' @ em_dash @ ''classified Outgoing'')
             | (Some s, Some d) \<Rightarrow> (Internal,
                 ''source '' @ src @ '' (/'' @ show_u8 (pm_matched_prefix_len s) @ '') and destination '' @
                 dst @ '' (/'' @ show_u8 (pm_matched_prefix_len d) @ '') both matched local prefixes'' @
                 em_dash @ ''classified Internal'')
             | (None, None) \<Rightarrow> (OtherDirection,
                 ''neither source '' @ src @ '' nor destination '' @ dst @ '' matched a local prefix'' @
                 em_dash @ ''classified Other''))
        in \<lparr>cr_direction = direction,
            cr_source_local = Some (source_match \<noteq> None),
            cr_destination_local = Some (destination_match \<noteq> None),
            cr_source_matched_tenant = map_option (\<lambda>m. pe_tenant (pm_entry m)) source_match,
            cr_destination_matched_tenant = map_option (\<lambda>m. pe_tenant (pm_entry m)) destination_match,
            cr_source_matched_hostgroup = Option.bind source_match (\<lambda>m. pe_hostgroup (pm_entry m)),
            cr_destination_matched_hostgroup = Option.bind destination_match (\<lambda>m. pe_hostgroup (pm_entry m)),
            cr_reason = reason\<rparr>)"

section \<open>What a registry holds\<close>

text \<open>The prefixes of each family among configuration entries, as the tries index them.\<close>

definition entry_of :: "PrefixConfigEntry \<Rightarrow> PrefixEntry" where
  "entry_of e = \<lparr>pe_tenant = ce_tenant e, pe_hostgroup = ce_hostgroup e, pe_prefix_len = ce_prefix_len e\<rparr>"

primrec addr_bits :: "IpAddr \<Rightarrow> u128" where
  "addr_bits (V4 a) = ipv4_bits a"
| "addr_bits (V6 a) = ipv6_bits a"

definition prefixes :: "bool \<Rightarrow> PrefixConfigEntry list \<Rightarrow> (u128 \<times> u8 \<times> PrefixEntry) list" where
  "prefixes v4 es = map (\<lambda>e. (addr_bits (ce_network e), ce_prefix_len e, entry_of e))
     (filter (\<lambda>e. is_ipv4 (ce_network e) = v4) es)"

definition family :: "bool \<Rightarrow> PrefixRegistry \<Rightarrow> PrefixEntry PrefixTrie" where
  "family v4 r = (if v4 then pr_ipv4 r else pr_ipv6 r)"

definition registry_holds :: "PrefixRegistry \<Rightarrow> PrefixConfigEntry list \<Rightarrow> bool" where
  "registry_holds r es \<longleftrightarrow> pr_len r = length es \<and>
     (\<forall>v4. trie.holds (family v4 r) (prefixes v4 es) \<and>
       pt_max_bits (family v4 r) = (if v4 then 32 else 128))"

text \<open>Two entries are the same prefix when they agree on the length and on that many leading
  bits; an entry covers an address when they agree on the entry's leading bits.\<close>

definition same_prefix :: "PrefixConfigEntry \<Rightarrow> PrefixConfigEntry \<Rightarrow> bool" where
  "same_prefix e e' \<longleftrightarrow> ce_prefix_len e = ce_prefix_len e' \<and>
     leading_eq (unat (ce_prefix_len e)) (ce_network e) (ce_network e')"

definition covers :: "PrefixConfigEntry \<Rightarrow> IpAddr \<Rightarrow> bool" where
  "covers e addr \<longleftrightarrow> leading_eq (unat (ce_prefix_len e)) (ce_network e) addr"

lemma path_eq_iff:
  fixes a b :: "'a::len word"
  assumes "n \<le> LENGTH('a)" "LENGTH('a) \<le> 128"
  shows "path LENGTH('a) (ucast a) 0 n = path LENGTH('a) (ucast b) 0 n \<longleftrightarrow>
    drop_bit (LENGTH('a) - n) a = drop_bit (LENGTH('a) - n) b"
proof -
  have "path LENGTH('a) (ucast a) 0 n = path LENGTH('a) (ucast b) 0 n \<longleftrightarrow>
      (\<forall>i < n. bit a (LENGTH('a) - 1 - i) = bit b (LENGTH('a) - 1 - i))"
    using assms by (auto simp: path_def bit_unsigned_iff)
  also have "\<dots> \<longleftrightarrow> (\<forall>j < LENGTH('a). LENGTH('a) - n \<le> j \<longrightarrow> bit a j = bit b j)"
  proof
    assume *: "\<forall>i < n. bit a (LENGTH('a) - 1 - i) = bit b (LENGTH('a) - 1 - i)"
    show "\<forall>j < LENGTH('a). LENGTH('a) - n \<le> j \<longrightarrow> bit a j = bit b j"
    proof (intro allI impI)
      fix j assume "j < LENGTH('a)" "LENGTH('a) - n \<le> j"
      then have "LENGTH('a) - 1 - j < n" "LENGTH('a) - 1 - (LENGTH('a) - 1 - j) = j"
        using assms by auto
      with * show "bit a j = bit b j" by metis
    qed
  next
    assume "\<forall>j < LENGTH('a). LENGTH('a) - n \<le> j \<longrightarrow> bit a j = bit b j"
    then show "\<forall>i < n. bit a (LENGTH('a) - 1 - i) = bit b (LENGTH('a) - 1 - i)" using assms by simp
  qed
  also have "\<dots> \<longleftrightarrow> drop_bit (LENGTH('a) - n) a = drop_bit (LENGTH('a) - n) b"
  proof
    assume *: "\<forall>j < LENGTH('a). LENGTH('a) - n \<le> j \<longrightarrow> bit a j = bit b j"
    show "drop_bit (LENGTH('a) - n) a = drop_bit (LENGTH('a) - n) b"
      by (rule bit_word_eqI) (use * in \<open>auto simp: bit_drop_bit_eq dest: bit_imp_le_length\<close>)
  next
    assume *: "drop_bit (LENGTH('a) - n) a = drop_bit (LENGTH('a) - n) b"
    show "\<forall>j < LENGTH('a). LENGTH('a) - n \<le> j \<longrightarrow> bit a j = bit b j"
    proof (intro allI impI)
      fix j assume "LENGTH('a) - n \<le> j"
      then show "bit a j = bit b j"
        using arg_cong[OF *, of "\<lambda>w. bit w (j - (LENGTH('a) - n))"] by (simp add: bit_drop_bit_eq del: drop_bit_eq_div)
    qed
  qed
  finally show ?thesis .
qed

lemma path_leading_eq:
  assumes "n \<le> width x" "is_ipv4 x = is_ipv4 y"
  shows "path (width x) (addr_bits x) 0 n = path (width x) (addr_bits y) 0 n \<longleftrightarrow> leading_eq n x y"
proof (cases x)
  case (V4 a)
  with assms obtain b where "y = V4 b" by (cases y) auto
  with V4 assms path_eq_iff[of n a b] show ?thesis by (simp add: ipv4_bits_def)
next
  case (V6 a)
  with assms obtain b where "y = V6 b" by (cases y) auto
  with V6 assms path_eq_iff[of n a b] show ?thesis by (simp add: ipv6_bits_def)
qed

lemma prefixes_Cons:
  "prefixes v4 (e # es) = (if is_ipv4 (ce_network e) = v4
     then (addr_bits (ce_network e), ce_prefix_len e, entry_of e) # prefixes v4 es else prefixes v4 es)"
  by (simp add: prefixes_def)

lemma registry_holds_bits:
  "registry_holds r es \<Longrightarrow> unat (pt_max_bits (family (is_ipv4 x) r)) = width x"
  by (cases x) (simp_all add: registry_holds_def)

lemma new_registry_holds: "registry_holds new_prefix_registry []"
  by (auto simp: registry_holds_def new_prefix_registry_def new_trie_def trie.holds_def trie.keyed_def
      fun_eq_iff prefixes_def family_def)

text \<open>Insertion, in terms of what the registry holds.\<close>

definition insertable :: "PrefixConfigEntry \<Rightarrow> PrefixConfigEntry list \<Rightarrow> bool" where
  "insertable e es \<longleftrightarrow> unat (ce_prefix_len e) \<le> width (ce_network e) \<and> (\<forall>e' \<in> set es. \<not> same_prefix e e')"

abbreviation insert_entry ::
    "PrefixRegistry \<Rightarrow> PrefixConfigEntry \<Rightarrow> (RegistryError + OverlapDiagnostic list) \<times> PrefixRegistry" where
  "insert_entry r e \<equiv> registry_insert r (ce_network e) (ce_prefix_len e) (ce_tenant e) (ce_hostgroup e)"

lemma insert_entry_cases:
  obtains (err) er t r' where
    "trie_insert (family (is_ipv4 (ce_network e)) r) (addr_bits (ce_network e)) (ce_prefix_len e) (entry_of e) = (Inl er, t)"
    "insert_entry r e = (Inl (from_trie_error er), r')" "pr_len r' = pr_len r"
    "\<And>v4. family v4 r' = (if v4 = is_ipv4 (ce_network e) then t else family v4 r)"
  | (ok) ov t ws r' where
    "trie_insert (family (is_ipv4 (ce_network e)) r) (addr_bits (ce_network e)) (ce_prefix_len e) (entry_of e) = (Inr ov, t)"
    "insert_entry r e = (Inr ws, r')" "pr_len r' = Suc (pr_len r)"
    "\<And>v4. family v4 r' = (if v4 = is_ipv4 (ce_network e) then t else family v4 r)"
proof -
  let ?t = "trie_insert (family (is_ipv4 (ce_network e)) r) (addr_bits (ce_network e)) (ce_prefix_len e) (entry_of e)"
  obtain res t where t: "?t = (res, t)" by (cases ?t)
  show thesis
  proof (cases res)
    case (Inl er)
    show thesis
      by (rule err[of er t "snd (insert_entry r e)"]; cases "ce_network e")
         (use t Inl in \<open>auto simp: registry_insert_def family_def entry_of_def\<close>)
  next
    case (Inr ov)
    show thesis
      by (rule ok[of ov t "map (overlap_diagnostic (ce_network e) (ce_prefix_len e)) ov" "snd (insert_entry r e)"];
          cases "ce_network e")
         (use t Inr in \<open>auto simp: registry_insert_def family_def entry_of_def\<close>)
  qed
qed

lemma same_prefix_path:
  assumes "unat (ce_prefix_len e) \<le> width (ce_network e)"
  shows "path (width (ce_network e)) (addr_bits (ce_network e)) 0 (unat (ce_prefix_len e))
      \<in> fst ` set (trie.keyed (width (ce_network e)) (prefixes (is_ipv4 (ce_network e)) es)) \<longleftrightarrow>
    (\<exists>e' \<in> set es. same_prefix e e')"
proof -
  let ?w = "width (ce_network e)" and ?v4 = "is_ipv4 (ce_network e)"
  let ?p = "\<lambda>e. path ?w (addr_bits (ce_network e)) 0 (unat (ce_prefix_len e))"
  have "fst ` set (trie.keyed ?w (prefixes ?v4 es)) = ?p ` {e' \<in> set es. is_ipv4 (ce_network e') = ?v4}"
    by (simp add: trie.keyed_def prefixes_def image_image)
  moreover have "?p e = ?p e' \<longleftrightarrow> same_prefix e e'" if "is_ipv4 (ce_network e') = ?v4" for e'
  proof -
    have "?p e = ?p e' \<Longrightarrow> ce_prefix_len e = ce_prefix_len e'"
      using length_path by (metis word_unat_eq_iff)
    then show ?thesis
      using path_leading_eq[OF assms, of "ce_network e'"] that by (auto simp: same_prefix_def)
  qed
  moreover have "same_prefix e e' \<Longrightarrow> is_ipv4 (ce_network e') = ?v4" for e'
    using leading_eq_family by (auto simp: same_prefix_def)
  ultimately show ?thesis by (auto simp: image_iff)
qed

lemma insert_entry_ok:
  assumes h: "registry_holds r es" and i: "insert_entry r e = (Inr ws, r')"
  shows "registry_holds r' (e # es)" and "insertable e es"
proof -
  let ?v4 = "is_ipv4 (ce_network e)"
  obtain ov t where ins: "trie_insert (family ?v4 r) (addr_bits (ce_network e)) (ce_prefix_len e) (entry_of e) = (Inr ov, t)"
    and r': "pr_len r' = Suc (pr_len r)" "\<And>v4. family v4 r' = (if v4 = ?v4 then t else family v4 r)"
    by (rule insert_entry_cases[of e r]) (use i in auto)
  have t: "trie.holds (family ?v4 r) (prefixes ?v4 es)" using h by (simp add: registry_holds_def)
  note facts = trie.holds_ins[OF t ins]
  from facts(2) have "pt_max_bits t = pt_max_bits (family ?v4 r)" by (simp only: word_unat_eq_iff)
  with facts(1) h r' show "registry_holds r' (e # es)"
    by (auto simp: registry_holds_def prefixes_Cons)
  have "unat (ce_prefix_len e) \<le> width (ce_network e)"
    using facts(1,2) registry_holds_bits[OF h, of "ce_network e"] by (simp add: trie.holds_def)
  with facts(3) same_prefix_path[of e es] registry_holds_bits[OF h, of "ce_network e"]
  show "insertable e es" by (simp add: insertable_def)
qed

lemma insert_entry_error:
  assumes h: "registry_holds r es" and i: "insert_entry r e = (Inl er, r')"
  shows "registry_holds r' es" and "\<not> insertable e es"
proof -
  let ?v4 = "is_ipv4 (ce_network e)"
  obtain er' t where ins: "trie_insert (family ?v4 r) (addr_bits (ce_network e)) (ce_prefix_len e) (entry_of e) = (Inl er', t)"
    and r': "pr_len r' = pr_len r" "\<And>v4. family v4 r' = (if v4 = ?v4 then t else family v4 r)"
    by (rule insert_entry_cases[of e r]) (use i in auto)
  have t: "trie.holds (family ?v4 r) (prefixes ?v4 es)" using h by (simp add: registry_holds_def)
  note facts = trie.holds_ins_error[OF t ins]
  from facts(2) have "pt_max_bits t = pt_max_bits (family ?v4 r)" by (simp only: word_unat_eq_iff)
  with facts(1) h r' show "registry_holds r' es" by (auto simp: registry_holds_def)
  show "\<not> insertable e es"
    using facts(3) same_prefix_path[of e es] registry_holds_bits[OF h, of "ce_network e"]
    by (auto simp: insertable_def)
qed

fun all_insertable :: "PrefixConfigEntry list \<Rightarrow> PrefixConfigEntry list \<Rightarrow> bool" where
  "all_insertable [] acc = True"
| "all_insertable (e # es) acc = (insertable e acc \<and> all_insertable es (e # acc))"

lemma build_loop_errors_grow:
  "build_loop i es r ws errs = (r', ws', errs') \<Longrightarrow> length errs \<le> length errs'"
  by (induction i es r ws errs rule: build_loop.induct) (fastforce split: prod.splits sum.splits)+

lemma build_loop_spec:
  assumes "registry_holds r acc" "build_loop i es r ws errs = (r', ws', errs')"
  shows "(length errs' = length errs \<longleftrightarrow> all_insertable es acc) \<and>
    (all_insertable es acc \<longrightarrow> registry_holds r' (rev es @ acc))"
  using assms
proof (induction es arbitrary: i r ws errs acc)
  case Nil
  then show ?case by simp
next
  case (Cons e es)
  show ?case
  proof (cases "insert_entry r e")
    case (Pair res r1)
    show ?thesis
    proof (cases res)
      case (Inl er)
      note facts = insert_entry_error[OF Cons.prems(1) Pair[unfolded Inl]]
      from Cons.prems(2) Pair Inl facts(2) show ?thesis
        by (auto dest!: build_loop_errors_grow)
    next
      case (Inr ov)
      note facts = insert_entry_ok[OF Cons.prems(1) Pair[unfolded Inr]]
      from Cons.prems(2) Pair Inr have "build_loop (i + 1) es r1 (ws @ ov) errs = (r', ws', errs')" by simp
      from Cons.IH[OF facts(1) this] facts(2) show ?thesis by simp
    qed
  qed
qed

lemma build_registry_holds:
  "build_registry es = Inr rep \<Longrightarrow> registry_holds (vr_registry rep) (rev es)"
  using build_loop_spec[OF new_registry_holds, of 0 es "[]" "[]"]
  by (auto simp: build_registry_def split: prod.splits if_splits)

lemma registry_lookup_holds:
  assumes "registry_holds r es"
  shows "case registry_lookup r addr of
      None \<Rightarrow> \<forall>e \<in> set es. \<not> covers e addr
    | Some m \<Rightarrow> \<exists>e \<in> set es. covers e addr \<and> pm_entry m = entry_of e \<and>
        pm_matched_prefix_len m = ce_prefix_len e \<and>
        (\<forall>e' \<in> set es. covers e' addr \<longrightarrow> ce_prefix_len e' \<le> ce_prefix_len e)"
proof -
  let ?v4 = "is_ipv4 addr" and ?w = "width addr"
  have look: "registry_lookup r addr = map_option (\<lambda>(entry, len). \<lparr>pm_entry = entry, pm_matched_prefix_len = len\<rparr>)
      (trie_lookup (family ?v4 r) (addr_bits addr))"
    by (cases addr) (simp_all add: registry_lookup_def family_def)
  have h: "trie.holds (family ?v4 r) (prefixes ?v4 es)" using assms by (simp add: registry_holds_def)
  note w = registry_holds_bits[OF assms, of addr]
  have in_range: "unat n \<le> ?w" if "(x, n, en) \<in> set (prefixes ?v4 es)" for x n en
    using h that w by (fastforce simp: trie.holds_def)
  have cov: "path ?w (addr_bits (ce_network e)) 0 (unat (ce_prefix_len e)) = path ?w (addr_bits addr) 0 (unat (ce_prefix_len e))
      \<longleftrightarrow> covers e addr" if "e \<in> set es" "is_ipv4 (ce_network e) = ?v4" for e
  proof -
    have "unat (ce_prefix_len e) \<le> ?w" using that in_range by (auto simp: prefixes_def)
    moreover have "width (ce_network e) = ?w" using that(2) by (cases addr; cases "ce_network e") auto
    ultimately show ?thesis using path_leading_eq[of "unat (ce_prefix_len e)" "ce_network e" addr] that(2)
      by (simp add: covers_def)
  qed
  have fam: "covers e addr \<Longrightarrow> is_ipv4 (ce_network e) = ?v4" for e
    using leading_eq_family by (auto simp: covers_def)
  note spec = trie.holds_look[OF h, of "addr_bits addr", unfolded w]
  show ?thesis
  proof (cases "trie_lookup (family ?v4 r) (addr_bits addr)")
    case None
    have "\<not> covers e addr" if "e \<in> set es" for e
      using spec[unfolded None] cov[OF that] fam[of e] that by (fastforce simp: prefixes_def)
    then show ?thesis by (simp add: look None)
  next
    case (Some en)
    obtain entry n where en: "en = (entry, n)" by (cases en)
    from spec[unfolded Some en] obtain e where e: "e \<in> set es" "is_ipv4 (ce_network e) = ?v4"
      "entry = entry_of e" "n = ce_prefix_len e" "covers e addr"
      and best: "\<And>e'. e' \<in> set es \<Longrightarrow> covers e' addr \<Longrightarrow> ce_prefix_len e' \<le> n"
      using cov fam by (fastforce simp: prefixes_def)
    then show ?thesis by (auto simp: look Some en)
  qed
qed

lemma same_prefix_sym: "same_prefix e e' \<longleftrightarrow> same_prefix e' e"
  by (auto simp: same_prefix_def intro: leading_eq_sym)

lemma all_insertable_iff:
  "all_insertable es acc \<longleftrightarrow>
     list_all (\<lambda>e. unat (ce_prefix_len e) \<le> width (ce_network e)) es \<and>
     sorted_wrt (\<lambda>e e'. \<not> same_prefix e e') es \<and> (\<forall>e \<in> set es. \<forall>a \<in> set acc. \<not> same_prefix e a)"
  by (induction es arbitrary: acc) (auto simp: insertable_def same_prefix_sym)

section \<open>Properties of the classifier\<close>

text \<open>
  Property C5. Looking an address up in a registry built from configuration is longest-prefix
  match: nothing is found exactly when no configured prefix covers the address, and otherwise
  the entry found is a configured one that covers it and none that covers it is longer.
\<close>

theorem registry_lookup_is_longest_prefix_match:
  assumes "build_registry es = Inr rep"
  shows "case registry_lookup (vr_registry rep) addr of
      None \<Rightarrow> \<forall>e \<in> set es. \<not> covers e addr
    | Some m \<Rightarrow> \<exists>e \<in> set es. covers e addr \<and> pm_entry m = entry_of e \<and>
        pm_matched_prefix_len m = ce_prefix_len e \<and>
        (\<forall>e' \<in> set es. covers e' addr \<longrightarrow> ce_prefix_len e' \<le> ce_prefix_len e)"
  using registry_lookup_holds[OF build_registry_holds[OF assms], of addr] unfolding set_rev .

definition sample_config :: "PrefixConfigEntry list" where
  "sample_config =
     [\<lparr>ce_network = V4 0xC0000000, ce_prefix_len = 16, ce_tenant = lit ''wide'', ce_hostgroup = None\<rparr>,
      \<lparr>ce_network = V4 0xC0000200, ce_prefix_len = 24, ce_tenant = lit ''narrow'', ce_hostgroup = Some (lit ''web'')\<rparr>]"

theorem registry_lookup_is_longest_prefix_match_witness:
  "\<exists>rep. build_registry sample_config = Inr rep \<and>
     (\<exists>m e. registry_lookup (vr_registry rep) (V4 0xC0000205) = Some m \<and> e \<in> set sample_config \<and>
        pm_entry m = entry_of e \<and> pe_tenant (pm_entry m) = lit ''narrow'' \<and> covers e (V4 0xC0000205))"
proof -
  have "(case build_registry sample_config of Inl _ \<Rightarrow> False | Inr rep \<Rightarrow>
      map_option (pe_tenant \<circ> pm_entry) (registry_lookup (vr_registry rep) (V4 0xC0000205)) = Some (lit ''narrow''))"
    by code_simp
  then obtain rep m where rep: "build_registry sample_config = Inr rep"
    and m: "registry_lookup (vr_registry rep) (V4 0xC0000205) = Some m" "pe_tenant (pm_entry m) = lit ''narrow''"
    by (auto split: sum.splits)
  from registry_lookup_is_longest_prefix_match[OF rep, of "V4 0xC0000205"] m rep show ?thesis by auto
qed

text \<open>
  A configuration is accepted exactly when every prefix length fits its address family
  and no two entries are the same prefix; otherwise at least one error is reported.
\<close>

theorem build_registry_accepts_exactly:
  "(case build_registry es of Inr rep \<Rightarrow> True | Inl errors \<Rightarrow> False) \<longleftrightarrow>
     list_all (\<lambda>e. unat (ce_prefix_len e) \<le> width (ce_network e)) es \<and>
     sorted_wrt (\<lambda>e e'. \<not> same_prefix e e') es"
  using build_loop_spec[OF new_registry_holds, of 0 es "[]" "[]"] all_insertable_iff[of es "[]"]
  by (auto simp: build_registry_def split: prod.splits if_splits)

text \<open>
  The direction of a flow follows from which of its addresses the configured prefixes
  cover: destination only is incoming, source only is outgoing, both internal, neither other;
  with no prefix configured it is unknown.
\<close>

theorem classify_follows_coverage:
  assumes "build_registry es = Inr rep"
  shows "cr_direction (classify (vr_registry rep) f) =
    (if es = [] then UnknownDirection
     else case (\<exists>e \<in> set es. covers e (nf_source_addr f), \<exists>e \<in> set es. covers e (nf_destination_addr f)) of
         (False, True) \<Rightarrow> Incoming
       | (True, False) \<Rightarrow> Outgoing
       | (True, True) \<Rightarrow> Internal
       | (False, False) \<Rightarrow> OtherDirection)"
proof -
  note h = build_registry_holds[OF assms]
  have loc: "(\<exists>e \<in> set es. covers e addr) \<longleftrightarrow> registry_lookup (vr_registry rep) addr \<noteq> None" for addr
    using registry_lookup_holds[OF h, of addr] by (auto split: option.splits)
  have "registry_is_empty (vr_registry rep) \<longleftrightarrow> es = []"
    using h by (simp add: registry_is_empty_def registry_holds_def)
  then show ?thesis
    unfolding classify_def loc by (auto simp: Let_def split: option.splits prod.splits)
qed

definition sample_flow :: NormalizedFlow where
  "sample_flow = \<lparr>nf_source_addr = V4 0x0A000001, nf_destination_addr = V4 0xC0000205,
     nf_source_port = Some 1234, nf_destination_port = Some 53, nf_protocol = Some Udp,
     nf_tcp_flags = None, nf_bytes = 500, nf_packets = 5, nf_raw_bytes = 500, nf_raw_packets = 5,
     nf_sampling_rate = unsampled, nf_sampling_source = Unsampled, nf_input_interface = Some 1,
     nf_output_interface = None, nf_source_asn = None, nf_destination_asn = Some 64500,
     nf_exporter = V4 0x0A0000FE, nf_observation_domain_id = 7, nf_start_time = None,
     nf_end_time = None, nf_fragmented = False, nf_dropped = False, nf_forwarding_status_known = False\<rparr>"

theorem classify_follows_coverage_witness:
  "\<exists>rep. build_registry sample_config = Inr rep \<and>
     cr_direction (classify (vr_registry rep) sample_flow) = Incoming"
proof -
  have "(case build_registry sample_config of Inr rep \<Rightarrow> True | Inl errors \<Rightarrow> False)" by code_simp
  then obtain rep where rep: "build_registry sample_config = Inr rep" by (auto split: sum.splits)
  have "list_ex (\<lambda>e. covers e (nf_destination_addr sample_flow)) sample_config"
    "\<not> list_ex (\<lambda>e. covers e (nf_source_addr sample_flow)) sample_config" "sample_config \<noteq> []"
    by code_simp+
  with classify_follows_coverage[OF rep, of sample_flow] rep show ?thesis
    by (auto simp: list_ex_iff)
qed

end
