(* ===== verification/Bounded_Map.thy ===== *)
theory Bounded_Map
  imports Prelude
begin

text \<open>
  The capacity-limited map of the aggregator (\<open>src/crates/aggregator/src/bounded_map.rs\<close>) with
  least-recently-updated eviction and inactivity expiry. The locale \<open>bounded_store\<close> states what
  the aggregator relies on; the map is its interpretation.
\<close>

section \<open>The map\<close>

record 'v Slot =
  sl_value :: 'v
  sl_last_updated :: nat

record BoundedMapConfig =
  bc_max_entries :: nat
  bc_inactivity_ttl :: nat

datatype UpsertOutcome = Inserted | Updated | InsertedByEviction | Rejected

record ('k, 'v) BoundedMap =
  bm_config :: BoundedMapConfig
  bm_entries :: "('k \<times> 'v Slot) list"

definition new_map :: "BoundedMapConfig \<Rightarrow> ('k, 'v) BoundedMap" where
  "new_map config = \<lparr>bm_config = config, bm_entries = []\<rparr>"

definition map_len :: "('k, 'v) BoundedMap \<Rightarrow> nat" where
  "map_len m = length (bm_entries m)"

definition map_is_empty :: "('k, 'v) BoundedMap \<Rightarrow> bool" where
  "map_is_empty m = (bm_entries m = [])"

definition map_get :: "('k, 'v) BoundedMap \<Rightarrow> 'k \<Rightarrow> 'v option" where
  "map_get m key = map_option sl_value (map_of (bm_entries m) key)"

text \<open>\<open>Iterator::min_by_key\<close>: the first of the entries with the least time.\<close>

fun min_by_time :: "('k \<times> 'v Slot) list \<Rightarrow> ('k \<times> 'v Slot) option" where
  "min_by_time [] = None"
| "min_by_time (x # xs) =
     (case min_by_time xs of
        None \<Rightarrow> Some x
      | Some y \<Rightarrow> if sl_last_updated (snd x) \<le> sl_last_updated (snd y) then Some x else Some y)"

definition least_recently_updated_key :: "('k, 'v) BoundedMap \<Rightarrow> 'k option" where
  "least_recently_updated_key m = map_option fst (min_by_time (bm_entries m))"

definition upsert ::
    "('k, 'v) BoundedMap \<Rightarrow> 'k \<Rightarrow> nat \<Rightarrow> 'v \<Rightarrow> ('v \<Rightarrow> 'v) \<Rightarrow> UpsertOutcome \<times> ('k, 'v) BoundedMap" where
  "upsert m key now initial update =
     (if bc_max_entries (bm_config m) = 0 then (Rejected, m)
      else case map_of (bm_entries m) key of
        Some slot \<Rightarrow>
          (Updated, m\<lparr>bm_entries := AList.update key
             \<lparr>sl_value = update (sl_value slot), sl_last_updated = now\<rparr> (bm_entries m)\<rparr>)
      | None \<Rightarrow>
          let insert = (\<lambda>entries. m\<lparr>bm_entries := AList.update key
                \<lparr>sl_value = update initial, sl_last_updated = now\<rparr> entries\<rparr>)
          in if length (bm_entries m) \<ge> bc_max_entries (bm_config m) then
               (case least_recently_updated_key m of
                  Some victim \<Rightarrow> (InsertedByEviction, insert (AList.delete victim (bm_entries m)))
                | None \<Rightarrow> (Rejected, m))
             else (Inserted, insert (bm_entries m)))"

definition expire_inactive :: "('k, 'v) BoundedMap \<Rightarrow> nat \<Rightarrow> nat \<times> ('k, 'v) BoundedMap" where
  "expire_inactive m now =
     (let ttl = bc_inactivity_ttl (bm_config m);
          kept = filter (\<lambda>(k, slot). now - sl_last_updated slot \<le> ttl) (bm_entries m)
      in (length (bm_entries m) - length kept, m\<lparr>bm_entries := kept\<rparr>))"

definition map_iter :: "('k, 'v) BoundedMap \<Rightarrow> ('k \<times> 'v) list" where
  "map_iter m = map (\<lambda>(k, slot). (k, sl_value slot)) (bm_entries m)"

section \<open>The invariant and the victim\<close>

definition map_ok :: "('k, 'v) BoundedMap \<Rightarrow> bool" where
  "map_ok m \<longleftrightarrow> distinct (map fst (bm_entries m)) \<and> length (bm_entries m) \<le> bc_max_entries (bm_config m)"

lemma min_by_time_None [simp]: "min_by_time xs = None \<longleftrightarrow> xs = []"
  by (cases xs) (auto split: option.splits)

lemma min_by_time_Some:
  "min_by_time xs = Some x \<Longrightarrow> x \<in> set xs \<and> (\<forall>y \<in> set xs. sl_last_updated (snd x) \<le> sl_last_updated (snd y))"
  by (induction xs arbitrary: x) (fastforce split: option.splits if_splits)+

lemma new_map_ok: "map_ok (new_map config)"
  by (simp add: map_ok_def new_map_def)

lemma expire_inactive_ok: "map_ok m \<Longrightarrow> map_ok (snd (expire_inactive m now))"
  by (auto simp: map_ok_def expire_inactive_def Let_def
      intro: distinct_map_filter order_trans[OF length_filter_le])

lemma expire_inactive_config [simp]: "bm_config (snd (expire_inactive m now)) = bm_config m"
  by (simp add: expire_inactive_def Let_def)

text \<open>The three ways an upsert on a map with room for at least one entry can go.\<close>

lemma upsert_cases:
  assumes "map_ok m" "0 < bc_max_entries (bm_config m)"
  obtains (updated) slot where "map_of (bm_entries m) key = Some slot"
      "upsert m key now d f = (Updated, m\<lparr>bm_entries := AList.update key
         \<lparr>sl_value = f (sl_value slot), sl_last_updated = now\<rparr> (bm_entries m)\<rparr>)"
  | (inserted) "map_of (bm_entries m) key = None" "map_len m < bc_max_entries (bm_config m)"
      "upsert m key now d f = (Inserted, m\<lparr>bm_entries := AList.update key
         \<lparr>sl_value = f d, sl_last_updated = now\<rparr> (bm_entries m)\<rparr>)"
  | (evicted) victim slot where "map_of (bm_entries m) key = None"
      "map_len m = bc_max_entries (bm_config m)"
      "map_of (bm_entries m) victim = Some slot"
      "\<And>k s. map_of (bm_entries m) k = Some s \<Longrightarrow> sl_last_updated slot \<le> sl_last_updated s"
      "upsert m key now d f = (InsertedByEviction, m\<lparr>bm_entries := AList.update key
         \<lparr>sl_value = f d, sl_last_updated = now\<rparr> (AList.delete victim (bm_entries m))\<rparr>)"
proof (cases "map_of (bm_entries m) key")
  case (Some slot)
  show thesis by (rule updated[OF Some]) (use assms Some in \<open>simp add: upsert_def\<close>)
next
  case None
  show thesis
  proof (cases "length (bm_entries m) < bc_max_entries (bm_config m)")
    case True
    show thesis by (rule inserted[OF None]) (use assms None True in \<open>simp_all add: upsert_def map_len_def\<close>)
  next
    case False
    with assms have full: "length (bm_entries m) = bc_max_entries (bm_config m)" "bm_entries m \<noteq> []"
      by (auto simp: map_ok_def)
    then obtain x where x: "min_by_time (bm_entries m) = Some x"
      by (cases "min_by_time (bm_entries m)") auto
    note least = min_by_time_Some[OF x]
    have dist: "distinct (map fst (bm_entries m))" using assms(1) by (simp add: map_ok_def)
    show thesis
    proof (rule evicted[of "fst x" "snd x"])
      show "map_of (bm_entries m) (fst x) = Some (snd x)"
        using least dist by (simp add: map_of_eq_Some_iff)
      show "sl_last_updated (snd x) \<le> sl_last_updated s" if "map_of (bm_entries m) k = Some s" for k s
        using least map_of_SomeD[OF that] by fastforce
      show "upsert m key now d f = (InsertedByEviction, m\<lparr>bm_entries := AList.update key
         \<lparr>sl_value = f d, sl_last_updated = now\<rparr> (AList.delete (fst x) (bm_entries m))\<rparr>)"
        using assms(2) None False x by (simp add: upsert_def least_recently_updated_key_def)
    qed (use None full in \<open>simp_all add: map_len_def\<close>)
  qed
qed

lemma upsert_zero: "bc_max_entries (bm_config m) = 0 \<Longrightarrow> upsert m key now d f = (Rejected, m)"
  by (simp add: upsert_def)

section \<open>The contract of a bounded store\<close>

locale bounded_store =
  fixes ok :: "'m \<Rightarrow> bool"
    and cap size_of :: "'m \<Rightarrow> nat"
    and get :: "'m \<Rightarrow> 'k \<Rightarrow> 'v option"
    and up :: "'m \<Rightarrow> 'k \<Rightarrow> nat \<Rightarrow> 'v \<Rightarrow> ('v \<Rightarrow> 'v) \<Rightarrow> UpsertOutcome \<times> 'm"
    and sweep :: "'m \<Rightarrow> nat \<Rightarrow> nat \<times> 'm"
  assumes ok_size: "ok m \<Longrightarrow> size_of m \<le> cap m"
    and up_ok: "ok m \<Longrightarrow> ok (snd (up m k now d f)) \<and> cap (snd (up m k now d f)) = cap m"
    and up_zero: "cap m = 0 \<Longrightarrow> up m k now d f = (Rejected, m)"
    and up_get: "ok m \<Longrightarrow> 0 < cap m \<Longrightarrow>
      get (snd (up m k now d f)) k = Some (f (case get m k of None \<Rightarrow> d | Some v \<Rightarrow> v))"
    and up_other: "ok m \<Longrightarrow> k' \<noteq> k \<Longrightarrow> get (snd (up m k now d f)) k' = get m k' \<or>
      fst (up m k now d f) = InsertedByEviction \<and> get (snd (up m k now d f)) k' = None"
    and sweep_ok: "ok m \<Longrightarrow> ok (snd (sweep m now)) \<and> cap (snd (sweep m now)) = cap m"
begin

text \<open>A client's work on a store: updates of keys at times, and sweeps.\<close>

definition run :: "('k \<times> nat \<times> 'v \<times> ('v \<Rightarrow> 'v)) + nat \<Rightarrow> 'm \<Rightarrow> 'm" where
  "run op m = (case op of Inl (k, now, d, f) \<Rightarrow> snd (up m k now d f) | Inr now \<Rightarrow> snd (sweep m now))"

lemma run_keeps: "ok m \<Longrightarrow> ok (run op m) \<and> cap (run op m) = cap m"
  using up_ok sweep_ok by (auto simp: run_def split: sum.split)

lemma runs_keep: "ok m \<Longrightarrow> ok (fold run ops m) \<and> cap (fold run ops m) = cap m"
  by (induction ops arbitrary: m) (auto simp: run_keeps)

lemma runs_bounded: "ok m \<Longrightarrow> size_of (fold run ops m) \<le> cap m"
  using ok_size runs_keep by metis

text \<open>What an update does to the value of any key: it is the updated one, untouched, or gone to
  make room.\<close>

lemma up_grows:
  assumes "ok m" "\<And>v. R v (f v)" "\<And>v. R v v" "get m k' = Some v"
  shows "case get (snd (up m k now d f)) k' of Some v' \<Rightarrow> R v v' | None \<Rightarrow>
    fst (up m k now d f) = InsertedByEviction"
proof (cases "0 < cap m \<and> k' = k")
  case True
  with assms up_get[of m k now d f] show ?thesis by simp
next
  case False
  show ?thesis
  proof (cases "k' = k")
    case True
    with False have "cap m = 0" by simp
    with assms(3,4) True up_zero show ?thesis by simp
  next
    case False
    with assms up_other[of m k' k now d f] show ?thesis by auto
  qed
qed

end

lemma map_get_update:
  "map_get (m\<lparr>bm_entries := AList.update k s es\<rparr>) k' =
     (if k' = k then Some (sl_value s) else map_option sl_value (map_of es k'))"
  by (simp add: map_get_def update_conv')

interpretation bounded: bounded_store map_ok "\<lambda>m. bc_max_entries (bm_config m)" map_len map_get upsert expire_inactive
proof
  fix m :: "('k, 'v) BoundedMap" and k k' :: 'k and now :: nat and d :: 'v and f :: "'v \<Rightarrow> 'v"
  show "map_ok m \<Longrightarrow> map_len m \<le> bc_max_entries (bm_config m)"
    by (simp add: map_ok_def map_len_def)
  show "bc_max_entries (bm_config m) = 0 \<Longrightarrow> upsert m k now d f = (Rejected, m)"
    by (rule upsert_zero)
  show "map_ok m \<Longrightarrow> map_ok (snd (expire_inactive m now)) \<and>
      bc_max_entries (bm_config (snd (expire_inactive m now))) = bc_max_entries (bm_config m)"
    by (simp add: expire_inactive_ok)
  assume ok: "map_ok m"
  show "map_ok (snd (upsert m k now d f)) \<and>
      bc_max_entries (bm_config (snd (upsert m k now d f))) = bc_max_entries (bm_config m)"
  proof (cases "bc_max_entries (bm_config m) = 0")
    case False
    then have "0 < bc_max_entries (bm_config m)" by simp
    with ok show ?thesis
    proof (cases rule: upsert_cases[of m k now d f])
      case (evicted victim slot)
      have "Suc (length (AList.delete victim (bm_entries m))) = length (bm_entries m)"
        using ok evicted(3) by (intro hm_length_delete) (simp_all add: map_ok_def)
      with ok evicted show ?thesis
        by (auto simp: map_ok_def hm_length_update distinct_update distinct_delete delete_conv' map_len_def)
    qed (use ok in \<open>auto simp: map_ok_def hm_length_update distinct_update map_len_def\<close>)
  qed (use ok in \<open>simp add: upsert_zero\<close>)
  show "0 < bc_max_entries (bm_config m) \<Longrightarrow>
      map_get (snd (upsert m k now d f)) k = Some (f (case map_get m k of None \<Rightarrow> d | Some v \<Rightarrow> v))"
    by (cases rule: upsert_cases[OF ok, of k now d f]) (auto simp: map_get_update, auto simp: map_get_def)
  assume neq: "k' \<noteq> k"
  show "map_get (snd (upsert m k now d f)) k' = map_get m k' \<or>
      fst (upsert m k now d f) = InsertedByEviction \<and> map_get (snd (upsert m k now d f)) k' = None"
  proof (cases "bc_max_entries (bm_config m) = 0")
    case False
    then have "0 < bc_max_entries (bm_config m)" by simp
    with ok show ?thesis
      by (cases rule: upsert_cases[of m k now d f])
         (use neq in \<open>auto simp: map_get_update delete_conv', auto simp: map_get_def\<close>)
  qed (simp add: upsert_zero)
qed

section \<open>Properties of the map\<close>

text \<open>
  A bounded map never holds more entries than its configured maximum, nor one key
  twice, whatever sequence of updates and inactivity sweeps it goes through.
\<close>

theorem bounded_map_never_overflows:
  "map_len (fold (\<lambda>op m. case op of
      Inl (k, now, d, f) \<Rightarrow> snd (upsert m k now d f) | Inr now \<Rightarrow> snd (expire_inactive m now))
      operations (new_map config)) \<le> bc_max_entries config \<and>
    distinct (map fst (bm_entries (fold (\<lambda>op m. case op of
      Inl (k, now, d, f) \<Rightarrow> snd (upsert m k now d f) | Inr now \<Rightarrow> snd (expire_inactive m now))
      operations (new_map config))))"
  using bounded.runs_keep[OF new_map_ok, of operations config] bounded.runs_bounded[OF new_map_ok, of operations config]
  unfolding bounded.run_def by (simp add: map_ok_def new_map_def)

text \<open>
  An update reaches its key and at most one other: the key's value becomes the updated
  old (or initial) value at the given time; when a new key meets a full map, exactly one
  entry goes, one that was updated no later than any other; every remaining entry is as
  it was.
\<close>

theorem upsert_evicts_only_the_stalest:
  assumes "map_ok m" and "0 < bc_max_entries (bm_config m)"
  shows "let (out, m') = upsert m k now d f; old = map_of (bm_entries m);
      new = old(k := Some \<lparr>sl_value = f (case old k of None \<Rightarrow> d | Some s \<Rightarrow> sl_value s),
        sl_last_updated = now\<rparr>)
    in (case out of
        Updated \<Rightarrow> old k \<noteq> None \<and> map_of (bm_entries m') = new
      | Inserted \<Rightarrow> old k = None \<and> map_len m < bc_max_entries (bm_config m) \<and> map_of (bm_entries m') = new
      | InsertedByEviction \<Rightarrow> old k = None \<and> map_len m = bc_max_entries (bm_config m) \<and>
          (\<exists>victim slot. old victim = Some slot \<and> map_of (bm_entries m') = new(victim := None) \<and>
            (\<forall>s \<in> ran old. sl_last_updated slot \<le> sl_last_updated s))
      | Rejected \<Rightarrow> False)"
  using assms
proof (cases rule: upsert_cases[of m k now d f])
  case (evicted victim slot)
  then have "k \<noteq> victim" by auto
  with evicted show ?thesis
    by (auto simp: Let_def update_conv' delete_conv' ran_def fun_upd_twist intro!: exI[of _ victim])
qed (auto simp: Let_def update_conv')

definition small_map :: "(nat, nat) BoundedMap" where
  "small_map = \<lparr>bm_config = \<lparr>bc_max_entries = 2, bc_inactivity_ttl = 10\<rparr>,
     bm_entries = [(1, \<lparr>sl_value = 100, sl_last_updated = 7\<rparr>), (2, \<lparr>sl_value = 200, sl_last_updated = 3\<rparr>)]\<rparr>"

theorem upsert_evicts_only_the_stalest_witness:
  "fst (upsert small_map 3 9 0 Suc) = InsertedByEviction \<and>
   (\<exists>victim slot. map_of (bm_entries small_map) victim = Some slot \<and>
     map_of (bm_entries (snd (upsert small_map 3 9 0 Suc))) victim = None \<and> sl_last_updated slot \<le> 3)"
proof -
  have out: "fst (upsert small_map 3 9 0 Suc) = InsertedByEviction" by code_simp
  have "map_ok small_map" "0 < bc_max_entries (bm_config small_map)" by code_simp+
  from upsert_evicts_only_the_stalest[OF this, of 3 9 0 Suc] out obtain victim slot where
    v: "map_of (bm_entries small_map) victim = Some slot"
    "map_of (bm_entries (snd (upsert small_map 3 9 0 Suc))) victim = None"
    "\<forall>s \<in> ran (map_of (bm_entries small_map)). sl_last_updated slot \<le> sl_last_updated s"
    by (auto simp: Let_def split: prod.splits)
  have "map_of (bm_entries small_map) 2 = Some \<lparr>sl_value = 200, sl_last_updated = 3\<rparr>" by code_simp
  with v(3) have "sl_last_updated slot \<le> 3" by (force simp: ran_def)
  with v out show ?thesis by blast
qed

end
