(* ===== verification/Aggregator.thy ===== *)
theory Aggregator
  imports Bounded_Map Classifier
begin

text \<open>
  The traffic aggregator (\<open>src/crates/aggregator/src\<close>): saturating counters
  (\<open>counters.rs\<close>), tumbling rate windows (\<open>rate_window.rs\<close>) and the multi-dimensional
  aggregator over them (\<open>aggregator.rs\<close>). Floating-point arithmetic is a parameter, the record
  \<open>f64_ops\<close>: the windows only ever compute a rate and store it. The loop that rolls a window
  forward would not end for a window of length zero, so it is a partial function; it is proved
  to return for every window the code can build. The masks subtract a configured prefix length that
  nothing validates: with overflow checks compiled in (\<open>overflow_checks\<close>, as in a debug build) a length
  past the address width panics, without them the subtraction wraps. An operation that does not
  return, because its loop runs on or because it panics, is \<open>None\<close>.
\<close>

section \<open>Counters\<close>

record TrafficCounters =
  tf_bytes :: u64
  tf_packets :: u64
  tf_flows :: u64
  tf_tcp_bytes :: u64
  tf_tcp_packets :: u64
  tf_udp_bytes :: u64
  tf_udp_packets :: u64
  tf_icmp_bytes :: u64
  tf_icmp_packets :: u64
  tf_tcp_syn_packets :: u64
  tf_fragmented_packets :: u64
  tf_dropped_packets :: u64

definition default_counters :: TrafficCounters where
  "default_counters = \<lparr>tf_bytes = 0, tf_packets = 0, tf_flows = 0, tf_tcp_bytes = 0,
     tf_tcp_packets = 0, tf_udp_bytes = 0, tf_udp_packets = 0, tf_icmp_bytes = 0,
     tf_icmp_packets = 0, tf_tcp_syn_packets = 0, tf_fragmented_packets = 0, tf_dropped_packets = 0\<rparr>"

definition counters_add :: "NormalizedFlow \<Rightarrow> TrafficCounters \<Rightarrow> TrafficCounters" where
  "counters_add flow c =
     (let c = c\<lparr>tf_bytes := saturating_add (tf_bytes c) (nf_bytes flow),
                tf_packets := saturating_add (tf_packets c) (nf_packets flow),
                tf_flows := saturating_add (tf_flows c) 1\<rparr>;
          c = (case nf_protocol flow of
             Some Tcp \<Rightarrow>
               let c = c\<lparr>tf_tcp_bytes := saturating_add (tf_tcp_bytes c) (nf_bytes flow),
                          tf_tcp_packets := saturating_add (tf_tcp_packets c) (nf_packets flow)\<rparr>
               in if is_tcp_syn flow
                  then c\<lparr>tf_tcp_syn_packets := saturating_add (tf_tcp_syn_packets c) (nf_packets flow)\<rparr>
                  else c
           | Some Udp \<Rightarrow>
               c\<lparr>tf_udp_bytes := saturating_add (tf_udp_bytes c) (nf_bytes flow),
                 tf_udp_packets := saturating_add (tf_udp_packets c) (nf_packets flow)\<rparr>
           | Some Icmp \<Rightarrow>
               c\<lparr>tf_icmp_bytes := saturating_add (tf_icmp_bytes c) (nf_bytes flow),
                 tf_icmp_packets := saturating_add (tf_icmp_packets c) (nf_packets flow)\<rparr>
           | Some Icmpv6 \<Rightarrow>
               c\<lparr>tf_icmp_bytes := saturating_add (tf_icmp_bytes c) (nf_bytes flow),
                 tf_icmp_packets := saturating_add (tf_icmp_packets c) (nf_packets flow)\<rparr>
           | _ \<Rightarrow> c);
          c = (if nf_fragmented flow
               then c\<lparr>tf_fragmented_packets := saturating_add (tf_fragmented_packets c) (nf_packets flow)\<rparr>
               else c)
      in if nf_forwarding_status_known flow \<and> nf_dropped flow
         then c\<lparr>tf_dropped_packets := saturating_add (tf_dropped_packets c) (nf_packets flow)\<rparr>
         else c)"

section \<open>Rate windows\<close>

record 'f f64_ops =
  f64_of_u64 :: "u64 \<Rightarrow> 'f"
  f64_as_secs :: "nat \<Rightarrow> 'f"
  f64_mul :: "'f \<Rightarrow> 'f \<Rightarrow> 'f"
  f64_div :: "'f \<Rightarrow> 'f \<Rightarrow> 'f"
  f64_eight :: 'f

definition WINDOW_DURATIONS :: "nat list" where
  "WINDOW_DURATIONS = map (\<lambda>s. s * 10 ^ 9) [1, 5, 15, 60, 300]"

record 'f RateSample =
  rt_bps :: 'f
  rt_pps :: 'f
  rt_fps :: 'f

record 'f Window =
  wi_duration :: nat
  wi_window_start :: nat
  wi_bytes :: u64
  wi_packets :: u64
  wi_flows :: u64
  wi_last_finalized :: "'f RateSample option"

definition new_window :: "nat \<Rightarrow> nat \<Rightarrow> 'f Window" where
  "new_window duration now = \<lparr>wi_duration = duration, wi_window_start = now, wi_bytes = 0,
     wi_packets = 0, wi_flows = 0, wi_last_finalized = None\<rparr>"

text \<open>The body of the \<open>while\<close> loop of \<open>roll_if_elapsed\<close>.\<close>

definition finalize_window :: "'f f64_ops \<Rightarrow> 'f Window \<Rightarrow> 'f Window" where
  "finalize_window ops w =
     (let secs = f64_as_secs ops (wi_duration w) in
      w\<lparr>wi_last_finalized := Some
          \<lparr>rt_bps = f64_div ops (f64_mul ops (f64_of_u64 ops (wi_bytes w)) (f64_eight ops)) secs,
           rt_pps = f64_div ops (f64_of_u64 ops (wi_packets w)) secs,
           rt_fps = f64_div ops (f64_of_u64 ops (wi_flows w)) secs\<rparr>,
        wi_window_start := wi_window_start w + wi_duration w,
        wi_bytes := 0, wi_packets := 0, wi_flows := 0\<rparr>)"

partial_function (option) roll_if_elapsed :: "'f f64_ops \<Rightarrow> nat \<Rightarrow> 'f Window \<Rightarrow> 'f Window option" where
  "roll_if_elapsed ops now w =
     (if now - wi_window_start w \<ge> wi_duration w then roll_if_elapsed ops now (finalize_window ops w)
      else Some w)"

declare roll_if_elapsed.simps [code]

definition window_record :: "'f f64_ops \<Rightarrow> nat \<Rightarrow> u64 \<Rightarrow> u64 \<Rightarrow> 'f Window \<Rightarrow> 'f Window option" where
  "window_record ops now bytes packets w =
     map_option (\<lambda>w. w\<lparr>wi_bytes := saturating_add (wi_bytes w) bytes,
        wi_packets := saturating_add (wi_packets w) packets,
        wi_flows := saturating_add (wi_flows w) 1\<rparr>) (roll_if_elapsed ops now w)"

type_synonym 'f RateWindowSet = "'f Window list"

definition new_window_set :: "nat \<Rightarrow> 'f RateWindowSet" where
  "new_window_set now = map (\<lambda>d. new_window d now) WINDOW_DURATIONS"

definition window_set_record :: "'f f64_ops \<Rightarrow> nat \<Rightarrow> u64 \<Rightarrow> u64 \<Rightarrow> 'f RateWindowSet \<Rightarrow> 'f RateWindowSet option" where
  "window_set_record ops now bytes packets ws = those (map (window_record ops now bytes packets) ws)"

definition window_set_tick :: "'f f64_ops \<Rightarrow> nat \<Rightarrow> 'f RateWindowSet \<Rightarrow> 'f RateWindowSet option" where
  "window_set_tick ops now ws = those (map (roll_if_elapsed ops now) ws)"

definition rates :: "'f RateWindowSet \<Rightarrow> (nat \<times> 'f RateSample option) list" where
  "rates ws = map (\<lambda>w. (wi_duration w, wi_last_finalized w)) ws"

section \<open>The aggregator\<close>

record AggregatorConfig =
  ac_max_hosts :: nat
  ac_max_networks :: nat
  ac_max_hostgroups :: nat
  ac_max_asns :: nat
  ac_max_exporters :: nat
  ac_max_interfaces :: nat
  ac_max_protocols :: nat
  ac_inactivity_ttl :: nat
  ac_ipv4_prefix_lengths :: "u8 list"
  ac_ipv6_prefix_lengths :: "u8 list"

definition default_aggregator_config :: AggregatorConfig where
  "default_aggregator_config = \<lparr>ac_max_hosts = 100000, ac_max_networks = 50000,
     ac_max_hostgroups = 1000, ac_max_asns = 10000, ac_max_exporters = 1000,
     ac_max_interfaces = 10000, ac_max_protocols = 64, ac_inactivity_ttl = 300 * 10 ^ 9,
     ac_ipv4_prefix_lengths = [], ac_ipv6_prefix_lengths = []\<rparr>"

record IngestReport =
  ig_evictions :: u32
  ig_rejections :: u32

type_synonym 'k tracked = "('k, TrafficCounters) BoundedMap"

record 'f Aggregator =
  ag_config :: AggregatorConfig
  ag_total_counters :: TrafficCounters
  ag_total_ipv4_counters :: TrafficCounters
  ag_total_ipv6_counters :: TrafficCounters
  ag_total_rates :: "'f RateWindowSet"
  ag_ipv4_hosts :: "u32 tracked"
  ag_ipv6_hosts :: "u128 tracked"
  ag_ipv4_slash24 :: "u32 tracked"
  ag_ipv4_networks :: "(u32 \<times> u8) tracked"
  ag_ipv6_networks :: "(u128 \<times> u8) tracked"
  ag_hostgroups :: "rust_str tracked"
  ag_asns :: "u32 tracked"
  ag_exporters :: "IpAddr tracked"
  ag_input_interfaces :: "u32 tracked"
  ag_output_interfaces :: "u32 tracked"
  ag_protocols :: "Protocol tracked"

definition new_aggregator :: "AggregatorConfig \<Rightarrow> nat \<Rightarrow> 'f Aggregator" where
  "new_aggregator config now =
     (let ttl = ac_inactivity_ttl config;
          bounded = (\<lambda>n. \<lparr>bc_max_entries = n, bc_inactivity_ttl = ttl\<rparr>);
          hosts_cfg = bounded (ac_max_hosts config);
          networks_cfg = bounded (ac_max_networks config)
      in \<lparr>ag_config = config,
          ag_total_counters = default_counters,
          ag_total_ipv4_counters = default_counters,
          ag_total_ipv6_counters = default_counters,
          ag_total_rates = new_window_set now,
          ag_ipv4_hosts = new_map hosts_cfg,
          ag_ipv6_hosts = new_map hosts_cfg,
          ag_ipv4_slash24 = new_map networks_cfg,
          ag_ipv4_networks = new_map networks_cfg,
          ag_ipv6_networks = new_map networks_cfg,
          ag_hostgroups = new_map (bounded (ac_max_hostgroups config)),
          ag_asns = new_map (bounded (ac_max_asns config)),
          ag_exporters = new_map (bounded (ac_max_exporters config)),
          ag_input_interfaces = new_map (bounded (ac_max_interfaces config)),
          ag_output_interfaces = new_map (bounded (ac_max_interfaces config)),
          ag_protocols = new_map (bounded (ac_max_protocols config))\<rparr>)"

definition track :: "'k tracked \<Rightarrow> 'k \<Rightarrow> NormalizedFlow \<Rightarrow> nat \<Rightarrow> IngestReport \<Rightarrow> 'k tracked \<times> IngestReport" where
  "track m key flow now report =
     (case upsert m key now default_counters (counters_add flow) of (outcome, m) \<Rightarrow>
        (m, case outcome of
              InsertedByEviction \<Rightarrow> report\<lparr>ig_evictions := ig_evictions report + 1\<rparr>
            | Rejected \<Rightarrow> report\<lparr>ig_rejections := ig_rejections report + 1\<rparr>
            | _ \<Rightarrow> report))"

text \<open>\<open>if let Some(key) = key { track(..) }\<close>.\<close>

definition track_some :: "'k tracked \<Rightarrow> 'k option \<Rightarrow> NormalizedFlow \<Rightarrow> nat \<Rightarrow> IngestReport \<Rightarrow> 'k tracked \<times> IngestReport" where
  "track_some m key flow now report =
     (case key of Some k \<Rightarrow> track m k flow now report | None \<Rightarrow> (m, report))"

definition profile_sub :: "bool \<Rightarrow> u32 \<Rightarrow> u32 \<Rightarrow> u32 option" where
  "profile_sub overflow_checks a b = (if overflow_checks \<and> a < b then None else Some (a - b))"

definition mask_v4 :: "bool \<Rightarrow> u32 \<Rightarrow> u8 \<Rightarrow> u32 option" where
  "mask_v4 overflow_checks addr prefix_len =
     (if prefix_len = 0 then Some 0
      else map_option (\<lambda>n. addr AND high_bits (unat n)) (profile_sub overflow_checks 32 (ucast prefix_len)))"

definition mask_v6 :: "bool \<Rightarrow> u128 \<Rightarrow> u8 \<Rightarrow> u128 option" where
  "mask_v6 overflow_checks addr prefix_len =
     (if prefix_len = 0 then Some 0
      else map_option (\<lambda>n. addr AND high_bits (unat n)) (profile_sub overflow_checks 128 (ucast prefix_len)))"

fun track_lengths ::
    "(u8 \<Rightarrow> 'k option) \<Rightarrow> ('k \<times> u8) tracked \<Rightarrow> u8 list \<Rightarrow> NormalizedFlow \<Rightarrow> nat \<Rightarrow> IngestReport
     \<Rightarrow> (('k \<times> u8) tracked \<times> IngestReport) option" where
  "track_lengths network_of m [] flow now report = Some (m, report)"
| "track_lengths network_of m (len # lens) flow now report =
     Option.bind (network_of len) (\<lambda>network.
       case track m (network, len) flow now report of (m, report) \<Rightarrow> track_lengths network_of m lens flow now report)"

definition track_address ::
    "bool \<Rightarrow> 'f Aggregator \<Rightarrow> IpAddr \<Rightarrow> NormalizedFlow \<Rightarrow> nat \<Rightarrow> IngestReport \<Rightarrow> ('f Aggregator \<times> IngestReport) option" where
  "track_address overflow_checks ag addr flow now report =
     (case addr of
        V4 a \<Rightarrow>
          (case track (ag_ipv4_hosts ag) a flow now report of (hosts, report) \<Rightarrow>
           Option.bind (mask_v4 overflow_checks a 24) (\<lambda>network.
           case track (ag_ipv4_slash24 ag) network flow now report of (slash24, report) \<Rightarrow>
           map_option (\<lambda>(networks, report).
               (ag\<lparr>ag_ipv4_hosts := hosts, ag_ipv4_slash24 := slash24, ag_ipv4_networks := networks\<rparr>, report))
             (track_lengths (mask_v4 overflow_checks a) (ag_ipv4_networks ag)
                (ac_ipv4_prefix_lengths (ag_config ag)) flow now report)))
      | V6 a \<Rightarrow>
          (case track (ag_ipv6_hosts ag) a flow now report of (hosts, report) \<Rightarrow>
           map_option (\<lambda>(networks, report).
               (ag\<lparr>ag_ipv6_hosts := hosts, ag_ipv6_networks := networks\<rparr>, report))
             (track_lengths (mask_v6 overflow_checks a) (ag_ipv6_networks ag)
                (ac_ipv6_prefix_lengths (ag_config ag)) flow now report)))"

text \<open>The family of the totals is that of the source address.\<close>

definition add_totals :: "NormalizedFlow \<Rightarrow> 'f Aggregator \<Rightarrow> 'f Aggregator" where
  "add_totals flow ag =
     (let ag = ag\<lparr>ag_total_counters := counters_add flow (ag_total_counters ag)\<rparr> in
      case nf_source_addr flow of
        V4 _ \<Rightarrow> ag\<lparr>ag_total_ipv4_counters := counters_add flow (ag_total_ipv4_counters ag)\<rparr>
      | V6 _ \<Rightarrow> ag\<lparr>ag_total_ipv6_counters := counters_add flow (ag_total_ipv6_counters ag)\<rparr>)"

definition ingest ::
    "bool \<Rightarrow> 'f f64_ops \<Rightarrow> 'f Aggregator \<Rightarrow> NormalizedFlow \<Rightarrow> ClassificationResult \<Rightarrow> nat
     \<Rightarrow> ('f Aggregator \<times> IngestReport) option" where
  "ingest overflow_checks ops ag flow classification now =
     (let ag = add_totals flow ag
      in Option.bind (window_set_record ops now (nf_bytes flow) (nf_packets flow) (ag_total_rates ag)) (\<lambda>total_rates.
        let ag = ag\<lparr>ag_total_rates := total_rates\<rparr>;
            report = \<lparr>ig_evictions = 0, ig_rejections = 0\<rparr>;
            (exporters, report) = track (ag_exporters ag) (nf_exporter flow) flow now report;
            (inputs, report) = track_some (ag_input_interfaces ag) (nf_input_interface flow) flow now report;
            (outputs, report) = track_some (ag_output_interfaces ag) (nf_output_interface flow) flow now report;
            (protocols, report) = track_some (ag_protocols ag) (nf_protocol flow) flow now report;
            ag = ag\<lparr>ag_exporters := exporters, ag_input_interfaces := inputs,
              ag_output_interfaces := outputs, ag_protocols := protocols\<rparr>
        in Option.bind (track_address overflow_checks ag (nf_source_addr flow) flow now report) (\<lambda>(ag, report).
           Option.bind (track_address overflow_checks ag (nf_destination_addr flow) flow now report) (\<lambda>(ag, report).
        let (asns, report) = track_some (ag_asns ag) (nf_source_asn flow) flow now report;
            (asns, report) = track_some asns (nf_destination_asn flow) flow now report;
            (hostgroups, report) = track_some (ag_hostgroups ag)
              (cr_source_matched_hostgroup classification) flow now report;
            (hostgroups, report) = track_some hostgroups
              (cr_destination_matched_hostgroup classification) flow now report
        in Some (ag\<lparr>ag_asns := asns, ag_hostgroups := hostgroups\<rparr>, report)))))"

definition aggregator_expire_inactive :: "'f f64_ops \<Rightarrow> 'f Aggregator \<Rightarrow> nat \<Rightarrow> ('f Aggregator \<times> nat) option" where
  "aggregator_expire_inactive ops ag now =
     map_option (\<lambda>total_rates.
       let (n1, ipv4_hosts) = expire_inactive (ag_ipv4_hosts ag) now;
           (n2, ipv6_hosts) = expire_inactive (ag_ipv6_hosts ag) now;
           (n3, ipv4_slash24) = expire_inactive (ag_ipv4_slash24 ag) now;
           (n4, ipv4_networks) = expire_inactive (ag_ipv4_networks ag) now;
           (n5, ipv6_networks) = expire_inactive (ag_ipv6_networks ag) now;
           (n6, hostgroups) = expire_inactive (ag_hostgroups ag) now;
           (n7, asns) = expire_inactive (ag_asns ag) now;
           (n8, exporters) = expire_inactive (ag_exporters ag) now;
           (n9, inputs) = expire_inactive (ag_input_interfaces ag) now;
           (n10, outputs) = expire_inactive (ag_output_interfaces ag) now;
           (n11, protocols) = expire_inactive (ag_protocols ag) now
       in (ag\<lparr>ag_total_rates := total_rates, ag_ipv4_hosts := ipv4_hosts, ag_ipv6_hosts := ipv6_hosts,
             ag_ipv4_slash24 := ipv4_slash24, ag_ipv4_networks := ipv4_networks,
             ag_ipv6_networks := ipv6_networks, ag_hostgroups := hostgroups, ag_asns := asns,
             ag_exporters := exporters, ag_input_interfaces := inputs,
             ag_output_interfaces := outputs, ag_protocols := protocols\<rparr>,
           n1 + n2 + n3 + n4 + n5 + n6 + n7 + n8 + n9 + n10 + n11))
       (window_set_tick ops now (ag_total_rates ag))"

definition active_hosts :: "'f Aggregator \<Rightarrow> nat" where
  "active_hosts ag = map_len (ag_ipv4_hosts ag) + map_len (ag_ipv6_hosts ag)"

definition active_networks :: "'f Aggregator \<Rightarrow> nat" where
  "active_networks ag = map_len (ag_ipv4_slash24 ag) + map_len (ag_ipv4_networks ag) + map_len (ag_ipv6_networks ag)"

definition active_hostgroups :: "'f Aggregator \<Rightarrow> nat" where
  "active_hostgroups ag = map_len (ag_hostgroups ag)"

definition active_asns :: "'f Aggregator \<Rightarrow> nat" where
  "active_asns ag = map_len (ag_asns ag)"

section \<open>Rolling a window forward\<close>

text \<open>The closed form of the loop: how many whole windows have passed, and the rate of the last
  of them, which is an empty one as soon as more than one has passed.\<close>

definition rolled :: "'f f64_ops \<Rightarrow> nat \<Rightarrow> 'f Window \<Rightarrow> 'f Window" where
  "rolled ops now w =
     (let n = (now - wi_window_start w) div wi_duration w;
          w1 = finalize_window ops w
      in if n = 0 then w
         else (if n = 1 then w1 else finalize_window ops w1)
           \<lparr>wi_window_start := wi_window_start w + n * wi_duration w\<rparr>)"

lemma finalize_window_simps [simp]:
  "wi_duration (finalize_window ops w) = wi_duration w"
  "wi_window_start (finalize_window ops w) = wi_window_start w + wi_duration w"
  "wi_bytes (finalize_window ops w) = 0" "wi_packets (finalize_window ops w) = 0"
  "wi_flows (finalize_window ops w) = 0"
  by (simp_all add: finalize_window_def Let_def)

lemma finalize_window_thrice:
  "finalize_window ops (finalize_window ops (finalize_window ops w)) =
     (finalize_window ops (finalize_window ops w))\<lparr>wi_window_start := wi_window_start w + 3 * wi_duration w\<rparr>"
  by (simp add: finalize_window_def Let_def)

lemma rolled_step:
  assumes "0 < wi_duration w" "wi_duration w \<le> now - wi_window_start w"
  shows "rolled ops now (finalize_window ops w) = rolled ops now w"
proof -
  let ?d = "wi_duration w" and ?s = "wi_window_start w"
  have n: "(now - ?s) div ?d = Suc ((now - (?s + ?d)) div ?d)"
    using assms by (simp add: le_div_geq)
  show ?thesis
  proof (cases "(now - (?s + ?d)) div ?d")
    case 0
    with n show ?thesis by (simp add: rolled_def Let_def)
  next
    case (Suc k)
    with n show ?thesis
      by (cases k) (auto simp: rolled_def Let_def finalize_window_thrice)
  qed
qed

lemma roll_if_elapsed_closed:
  "0 < wi_duration w \<Longrightarrow> roll_if_elapsed ops now w = Some (rolled ops now w)"
proof (induction "now - wi_window_start w" arbitrary: w rule: less_induct)
  case less
  show ?case
  proof (cases "wi_duration w \<le> now - wi_window_start w")
    case True
    have "now - wi_window_start (finalize_window ops w) < now - wi_window_start w"
      using True less.prems by simp
    from less.hyps[OF this] less.prems True rolled_step[OF less.prems True, of ops]
    show ?thesis by (subst roll_if_elapsed.simps) simp
  next
    case False
    then show ?thesis by (subst roll_if_elapsed.simps) (simp add: rolled_def Let_def)
  qed
qed

lemma rolled_duration [simp]: "wi_duration (rolled ops now w) = wi_duration w"
  by (simp add: rolled_def Let_def)

lemma those_map_Some: "(\<And>x. x \<in> set xs \<Longrightarrow> f x = Some (g x)) \<Longrightarrow> those (map f xs) = Some (map g xs)"
  by (induction xs) auto

definition windows_ok :: "'f RateWindowSet \<Rightarrow> bool" where
  "windows_ok ws \<longleftrightarrow> map wi_duration ws = WINDOW_DURATIONS"

lemma windows_ok_pos: "windows_ok ws \<Longrightarrow> w \<in> set ws \<Longrightarrow> 0 < wi_duration w"
proof -
  assume "windows_ok ws" "w \<in> set ws"
  then have "wi_duration w \<in> set WINDOW_DURATIONS" unfolding windows_ok_def by (metis image_eqI set_map)
  then show ?thesis by (auto simp: WINDOW_DURATIONS_def)
qed

lemma window_set_record_total:
  "windows_ok ws \<Longrightarrow> \<exists>ws'. window_set_record ops now b p ws = Some ws' \<and> windows_ok ws'"
  unfolding window_set_record_def
  by (subst those_map_Some[where g = "\<lambda>w. (rolled ops now w)\<lparr>wi_bytes := saturating_add (wi_bytes (rolled ops now w)) b,
        wi_packets := saturating_add (wi_packets (rolled ops now w)) p,
        wi_flows := saturating_add (wi_flows (rolled ops now w)) 1\<rparr>"])
     (auto simp: window_record_def roll_if_elapsed_closed windows_ok_pos, simp add: windows_ok_def comp_def)

lemma window_set_tick_total:
  "windows_ok ws \<Longrightarrow> \<exists>ws'. window_set_tick ops now ws = Some ws' \<and> windows_ok ws'"
  unfolding window_set_tick_def
  by (subst those_map_Some[where g = "rolled ops now"])
     (auto simp: roll_if_elapsed_closed windows_ok_pos, simp add: windows_ok_def comp_def)

section \<open>Counters\<close>

text \<open>Every breakdown counter stays within the total it breaks down.\<close>

definition counters_ok :: "TrafficCounters \<Rightarrow> bool" where
  "counters_ok c \<longleftrightarrow>
     tf_tcp_bytes c \<le> tf_bytes c \<and> tf_udp_bytes c \<le> tf_bytes c \<and> tf_icmp_bytes c \<le> tf_bytes c \<and>
     tf_tcp_packets c \<le> tf_packets c \<and> tf_udp_packets c \<le> tf_packets c \<and>
     tf_icmp_packets c \<le> tf_packets c \<and> tf_tcp_syn_packets c \<le> tf_tcp_packets c \<and>
     tf_fragmented_packets c \<le> tf_packets c \<and> tf_dropped_packets c \<le> tf_packets c"

lemma saturating_add_mono: "a \<le> b \<Longrightarrow> saturating_add a c \<le> saturating_add b c"
  by (simp add: word_le_nat_alt unat_saturating_add)

lemma saturating_add_ge': "a \<le> saturating_add a b"
  using saturating_add_ge by (simp add: word_le_nat_alt)

lemma default_counters_ok: "counters_ok default_counters"
  by (simp add: counters_ok_def default_counters_def)

lemma counters_add_ok: "counters_ok c \<Longrightarrow> counters_ok (counters_add f c)"
  unfolding counters_ok_def counters_add_def Let_def
  by (auto split: option.split Protocol.split
      intro: saturating_add_mono order_trans[OF _ saturating_add_ge'])

section \<open>The aggregator's invariant\<close>

definition tracked_ok :: "nat \<Rightarrow> 'k tracked \<Rightarrow> bool" where
  "tracked_ok n m \<longleftrightarrow> map_ok m \<and> bc_max_entries (bm_config m) = n \<and>
     (\<forall>k v. map_get m k = Some v \<longrightarrow> counters_ok v)"

lemma tracked_ok_new: "tracked_ok n (new_map \<lparr>bc_max_entries = n, bc_inactivity_ttl = ttl\<rparr>)"
  by (simp add: tracked_ok_def new_map_ok) (simp add: new_map_def map_get_def)

lemma tracked_len: "tracked_ok n m \<Longrightarrow> map_len m \<le> n"
  using bounded.ok_size[of m] by (auto simp: tracked_ok_def)

lemma tracked_ok_upsert:
  assumes "tracked_ok n m"
  shows "tracked_ok n (snd (upsert m k now default_counters (counters_add f)))" (is "tracked_ok n ?m")
proof -
  have ok: "map_ok m" and cap: "bc_max_entries (bm_config m) = n"
    and vals: "\<And>k v. map_get m k = Some v \<Longrightarrow> counters_ok v" using assms by (auto simp: tracked_ok_def)
  have "counters_ok v" if "map_get ?m k' = Some v" for k' v
  proof (cases "n = 0 \<or> k' \<noteq> k")
    case True
    with that vals bounded.up_zero[of m k now default_counters "counters_add f"] cap
      bounded.up_other[OF ok, of k' k now default_counters "counters_add f"]
    show ?thesis by auto
  next
    case False
    with that bounded.up_get[OF ok, of k now default_counters "counters_add f"] cap
    show ?thesis by (auto intro!: counters_add_ok default_counters_ok dest: vals split: option.splits)
  qed
  with bounded.up_ok[OF ok, of k now default_counters "counters_add f"] cap
  show ?thesis by (simp add: tracked_ok_def)
qed

lemma track_ok: "tracked_ok n m \<Longrightarrow> track m k f now report = (m', report') \<Longrightarrow> tracked_ok n m'"
  using tracked_ok_upsert[of n m k now f] by (auto simp: track_def split: prod.splits)

lemma track_some_ok: "tracked_ok n m \<Longrightarrow> track_some m k f now report = (m', report') \<Longrightarrow> tracked_ok n m'"
  by (auto simp: track_some_def dest: track_ok split: option.splits)

lemma track_lengths_ok:
  "tracked_ok n m \<Longrightarrow> list_all (\<lambda>len. network_of len \<noteq> None) lens \<Longrightarrow>
     \<exists>m' report'. track_lengths network_of m lens f now report = Some (m', report') \<and> tracked_ok n m'"
proof (induction lens arbitrary: m report)
  case (Cons len lens)
  then obtain network where network: "network_of len = Some network" by auto
  obtain m1 r1 where t: "track m (network, len) f now report = (m1, r1)" by fastforce
  from Cons.IH[OF track_ok[OF Cons.prems(1) t], of r1] Cons.prems(2) show ?case by (simp add: network t)
qed simp

text \<open>The prefix lengths fit their address families, unless a subtraction past zero wraps anyway.\<close>

definition lengths_fit :: "bool \<Rightarrow> AggregatorConfig \<Rightarrow> bool" where
  "lengths_fit overflow_checks config \<longleftrightarrow> \<not> overflow_checks \<or>
     list_all (\<lambda>len. len \<le> 32) (ac_ipv4_prefix_lengths config) \<and>
     list_all (\<lambda>len. len \<le> 128) (ac_ipv6_prefix_lengths config)"

lemma mask_returns:
  "mask_v4 oc a len = None \<longleftrightarrow> oc \<and> 32 < len" "mask_v6 oc b len = None \<longleftrightarrow> oc \<and> 128 < len"
  by (auto simp: mask_v4_def mask_v6_def profile_sub_def word_less_nat_alt unat_ucast_up)

lemma masks_return:
  assumes "lengths_fit oc config"
  shows "list_all (\<lambda>len. mask_v4 oc a len \<noteq> None) (ac_ipv4_prefix_lengths config)"
    "list_all (\<lambda>len. mask_v6 oc b len \<noteq> None) (ac_ipv6_prefix_lengths config)"
  using assms by (auto simp: lengths_fit_def list_all_iff mask_returns)

lemma tracked_ok_expire:
  assumes "tracked_ok n m"
  shows "tracked_ok n (snd (expire_inactive m now))"
proof -
  have "map_get m k = Some v" if "map_get (snd (expire_inactive m now)) k = Some v" for k v
  proof -
    have dist: "distinct (map fst (bm_entries m))" using assms by (simp add: tracked_ok_def map_ok_def)
    from that obtain slot where "(k, slot) \<in> set (bm_entries m)" "v = sl_value slot"
      by (auto simp: map_get_def expire_inactive_def Let_def dest!: map_of_SomeD)
    with dist show ?thesis by (simp add: map_get_def)
  qed
  with assms show ?thesis by (auto simp: tracked_ok_def expire_inactive_ok)
qed

definition aggregator_ok :: "'f Aggregator \<Rightarrow> bool" where
  "aggregator_ok ag \<longleftrightarrow> windows_ok (ag_total_rates ag) \<and>
     counters_ok (ag_total_counters ag) \<and> counters_ok (ag_total_ipv4_counters ag) \<and>
     counters_ok (ag_total_ipv6_counters ag) \<and>
     tracked_ok (ac_max_hosts (ag_config ag)) (ag_ipv4_hosts ag) \<and>
     tracked_ok (ac_max_hosts (ag_config ag)) (ag_ipv6_hosts ag) \<and>
     tracked_ok (ac_max_networks (ag_config ag)) (ag_ipv4_slash24 ag) \<and>
     tracked_ok (ac_max_networks (ag_config ag)) (ag_ipv4_networks ag) \<and>
     tracked_ok (ac_max_networks (ag_config ag)) (ag_ipv6_networks ag) \<and>
     tracked_ok (ac_max_hostgroups (ag_config ag)) (ag_hostgroups ag) \<and>
     tracked_ok (ac_max_asns (ag_config ag)) (ag_asns ag) \<and>
     tracked_ok (ac_max_exporters (ag_config ag)) (ag_exporters ag) \<and>
     tracked_ok (ac_max_interfaces (ag_config ag)) (ag_input_interfaces ag) \<and>
     tracked_ok (ac_max_interfaces (ag_config ag)) (ag_output_interfaces ag) \<and>
     tracked_ok (ac_max_protocols (ag_config ag)) (ag_protocols ag)"

lemma new_aggregator_ok: "aggregator_ok (new_aggregator config now)"
  by (simp add: aggregator_ok_def new_aggregator_def Let_def default_counters_ok tracked_ok_new
      windows_ok_def new_window_set_def new_window_def comp_def)

lemma track_address_ok:
  assumes "aggregator_ok ag" "lengths_fit oc (ag_config ag)"
  shows "\<exists>ag' report'. track_address oc ag addr f now report = Some (ag', report') \<and> aggregator_ok ag' \<and>
    ag_config ag' = ag_config ag"
proof (cases addr)
  case (V4 a)
  obtain h r1 where h: "track (ag_ipv4_hosts ag) a f now report = (h, r1)" by fastforce
  obtain network where network: "mask_v4 oc a 24 = Some network"
    using mask_returns(1)[of oc a 24] by (cases "mask_v4 oc a 24") auto
  obtain s r2 where s: "track (ag_ipv4_slash24 ag) network f now r1 = (s, r2)" by fastforce
  have "tracked_ok (ac_max_networks (ag_config ag)) (ag_ipv4_networks ag)" using assms(1) by (simp add: aggregator_ok_def)
  from track_lengths_ok[OF this masks_return(1)[OF assms(2)], of a f now r2] assms(1) track_ok[OF _ h] track_ok[OF _ s]
  show ?thesis by (auto simp: V4 track_address_def h network s aggregator_ok_def)
next
  case (V6 a)
  obtain h r1 where h: "track (ag_ipv6_hosts ag) a f now report = (h, r1)" by fastforce
  have "tracked_ok (ac_max_networks (ag_config ag)) (ag_ipv6_networks ag)" using assms(1) by (simp add: aggregator_ok_def)
  from track_lengths_ok[OF this masks_return(2)[OF assms(2)], of a f now r1] assms(1) track_ok[OF _ h]
  show ?thesis by (auto simp: V6 track_address_def h aggregator_ok_def)
qed

lemma add_totals_ok:
  "aggregator_ok ag \<Longrightarrow> aggregator_ok (add_totals f ag)"
  "ag_config (add_totals f ag) = ag_config ag"
  "ag_total_rates (add_totals f ag) = ag_total_rates ag"
  by (cases "nf_source_addr f"; simp add: add_totals_def aggregator_ok_def counters_add_ok)+

text \<open>A flow that the aggregator takes in goes through \<open>track_address\<close> twice; what surrounds the two
  calls leaves the addresses that have an entry alone.\<close>

definition host_addresses :: "'f Aggregator \<Rightarrow> IpAddr set" where
  "host_addresses ag = V4 ` dom (map_of (bm_entries (ag_ipv4_hosts ag))) \<union> V6 ` dom (map_of (bm_entries (ag_ipv6_hosts ag)))"

lemma ingest_steps:
  fixes ag :: "'f Aggregator"
  assumes "aggregator_ok ag" "lengths_fit oc (ag_config ag)"
  obtains ag1 ag2 ag3 ag' :: "'f Aggregator" and r1 r2 r3 report where
    "aggregator_ok ag1" "ag_config ag1 = ag_config ag" "host_addresses ag1 = host_addresses ag"
    "track_address oc ag1 (nf_source_addr f) f now r1 = Some (ag2, r2)"
    "aggregator_ok ag2" "ag_config ag2 = ag_config ag"
    "track_address oc ag2 (nf_destination_addr f) f now r2 = Some (ag3, r3)"
    "ingest oc ops ag f cls now = Some (ag', report)" "aggregator_ok ag'" "ag_config ag' = ag_config ag"
    "host_addresses ag' = host_addresses ag3"
proof -
  have w: "windows_ok (ag_total_rates ag)" using assms(1) by (simp add: aggregator_ok_def)
  obtain ws where ws: "window_set_record ops now (nf_bytes f) (nf_packets f) (ag_total_rates ag) = Some ws"
    "windows_ok ws" using window_set_record_total[OF w] by blast
  let ?ag0 = "(add_totals f ag)\<lparr>ag_total_rates := ws\<rparr>" and ?rep = "\<lparr>ig_evictions = 0, ig_rejections = 0\<rparr>"
  obtain ex r1 where t1: "track (ag_exporters ?ag0) (nf_exporter f) f now ?rep = (ex, r1)" by fastforce
  obtain inp r2 where t2: "track_some (ag_input_interfaces ?ag0) (nf_input_interface f) f now r1 = (inp, r2)" by fastforce
  obtain out r3 where t3: "track_some (ag_output_interfaces ?ag0) (nf_output_interface f) f now r2 = (out, r3)" by fastforce
  obtain pr r4 where t4: "track_some (ag_protocols ?ag0) (nf_protocol f) f now r3 = (pr, r4)" by fastforce
  let ?ag1 = "?ag0\<lparr>ag_exporters := ex, ag_input_interfaces := inp, ag_output_interfaces := out, ag_protocols := pr\<rparr>"
  have ok0: "aggregator_ok ?ag0" using add_totals_ok(1)[OF assms(1), of f] ws(2) unfolding aggregator_ok_def by simp
  have ok1: "aggregator_ok ?ag1"
    using ok0 track_ok[OF _ t1] track_some_ok[OF _ t2] track_some_ok[OF _ t3] track_some_ok[OF _ t4]
    unfolding aggregator_ok_def by simp
  have cfg: "ag_config ?ag1 = ag_config ag" by (simp add: add_totals_ok(2))
  have fit1: "lengths_fit oc (ag_config ?ag1)" unfolding cfg by (rule assms(2))
  obtain ag2 r5 where ag2: "track_address oc ?ag1 (nf_source_addr f) f now r4 = Some (ag2, r5)" "aggregator_ok ag2"
    "ag_config ag2 = ag_config ?ag1" using track_address_ok[OF ok1 fit1] by blast
  from fit1 ag2(3) have fit2: "lengths_fit oc (ag_config ag2)" by simp
  obtain ag3 r6 where ag3: "track_address oc ag2 (nf_destination_addr f) f now r5 = Some (ag3, r6)" "aggregator_ok ag3"
    "ag_config ag3 = ag_config ag2" using track_address_ok[OF ag2(2) fit2] by blast
  obtain as1 r7 where t7: "track_some (ag_asns ag3) (nf_source_asn f) f now r6 = (as1, r7)" by fastforce
  obtain as2 r8 where t8: "track_some as1 (nf_destination_asn f) f now r7 = (as2, r8)" by fastforce
  obtain hg1 r9 where t9: "track_some (ag_hostgroups ag3) (cr_source_matched_hostgroup cls) f now r8 = (hg1, r9)" by fastforce
  obtain hg2 r10 where t10: "track_some hg1 (cr_destination_matched_hostgroup cls) f now r9 = (hg2, r10)" by fastforce
  have "aggregator_ok (ag3\<lparr>ag_asns := as2, ag_hostgroups := hg2\<rparr>)"
    using ag3(2) track_some_ok[OF track_some_ok[OF _ t7] t8] track_some_ok[OF track_some_ok[OF _ t9] t10]
    unfolding aggregator_ok_def by simp
  moreover have "ingest oc ops ag f cls now = Some (ag3\<lparr>ag_asns := as2, ag_hostgroups := hg2\<rparr>, r10)"
    unfolding ingest_def Let_def add_totals_ok(3) ws(1) bind.bind_lunit t1 t2 t3 t4 prod.case ag2(1) ag3(1) t7 t8 t9 t10 ..
  moreover have "host_addresses ?ag1 = host_addresses ag"
    "host_addresses (ag3\<lparr>ag_asns := as2, ag_hostgroups := hg2\<rparr>) = host_addresses ag3"
    by (simp_all add: host_addresses_def add_totals_def Let_def split: IpAddr.split)
  ultimately show thesis using that[of ?ag1 r4 ag2 r5 ag3 r6 "ag3\<lparr>ag_asns := as2, ag_hostgroups := hg2\<rparr>" r10]
      ok1 ag2 ag3 cfg by simp
qed

lemma ingest_ok:
  assumes "aggregator_ok ag" "lengths_fit oc (ag_config ag)"
  shows "\<exists>ag' report. ingest oc ops ag f cls now = Some (ag', report) \<and> aggregator_ok ag' \<and>
    ag_config ag' = ag_config ag"
  by (rule ingest_steps[OF assms, of f now ops cls]) blast

lemma aggregator_expire_ok:
  assumes "aggregator_ok ag"
  shows "\<exists>ag' n. aggregator_expire_inactive ops ag now = Some (ag', n) \<and> aggregator_ok ag' \<and>
    ag_config ag' = ag_config ag"
proof -
  have w: "windows_ok (ag_total_rates ag)" using assms by (simp add: aggregator_ok_def)
  obtain ws where "window_set_tick ops now (ag_total_rates ag) = Some ws" "windows_ok ws"
    using window_set_tick_total[OF w] by blast
  with assms show ?thesis
    by (simp add: aggregator_expire_inactive_def case_prod_unfold Let_def aggregator_ok_def tracked_ok_expire)
qed

section \<open>Properties of the aggregator\<close>

text \<open>
  Rolling a rate window forward returns, in the window that contains the current time
  and is a whole number of windows after the old one; traffic counted so far is cleared
  once a window has elapsed, and once two have, the published rate is that of an empty
  window.
\<close>

theorem roll_lands_in_current_window:
  fixes w :: "'f Window"
  assumes "0 < wi_duration w" and "wi_window_start w \<le> now"
  shows "\<exists>w'. roll_if_elapsed ops now w = Some w' \<and> wi_duration w' = wi_duration w \<and>
    wi_window_start w' \<le> now \<and> now < wi_window_start w' + wi_duration w \<and>
    (\<exists>n. wi_window_start w' = wi_window_start w + n * wi_duration w) \<and>
    (if now - wi_window_start w < wi_duration w then w' = w
     else wi_bytes w' = 0 \<and> wi_packets w' = 0 \<and> wi_flows w' = 0 \<and>
       wi_last_finalized w' =
         (if now - wi_window_start w < 2 * wi_duration w then wi_last_finalized (finalize_window ops w)
          else wi_last_finalized (finalize_window ops (new_window (wi_duration w) now))))"
proof (intro exI conjI)
  let ?d = "wi_duration w" and ?e = "now - wi_window_start w"
  show "roll_if_elapsed ops now w = Some (rolled ops now w)" using assms(1) by (rule roll_if_elapsed_closed)
  have start: "wi_window_start (rolled ops now w) = wi_window_start w + (?e div ?d) * ?d"
    by (simp add: rolled_def Let_def)
  show "wi_window_start (rolled ops now w) \<le> now"
    using assms(2) div_times_less_eq_dividend[of ?e ?d] unfolding start by linarith
  show "now < wi_window_start (rolled ops now w) + ?d"
    using assms dividend_less_div_times[of ?d ?e] unfolding start by linarith
  show "wi_window_start (rolled ops now w) = wi_window_start w + (?e div ?d) * ?d" by (rule start)
  have last2: "wi_last_finalized (finalize_window ops (finalize_window ops w)) =
      wi_last_finalized (finalize_window ops (new_window ?d now))"
    by (simp add: finalize_window_def new_window_def Let_def)
  consider (zero) "?e < ?d" | (one) "?d \<le> ?e" "?e < 2 * ?d" | (many) "2 * ?d \<le> ?e" by linarith
  then show "if ?e < ?d then rolled ops now w = w
     else wi_bytes (rolled ops now w) = 0 \<and> wi_packets (rolled ops now w) = 0 \<and> wi_flows (rolled ops now w) = 0 \<and>
       wi_last_finalized (rolled ops now w) =
         (if ?e < 2 * ?d then wi_last_finalized (finalize_window ops w)
          else wi_last_finalized (finalize_window ops (new_window ?d now)))"
  proof cases
    case zero
    then have "?e div ?d = 0" by (rule div_less)
    with zero show ?thesis by (simp add: rolled_def)
  next
    case one
    then have "(?e - ?d) div ?d = 0" by (intro div_less) linarith
    with one assms(1) have "?e div ?d = 1" by (simp add: le_div_geq)
    with one show ?thesis by (simp add: rolled_def)
  next
    case many
    then have "2 \<le> ?e div ?d" using assms(1) by (simp add: less_eq_div_iff_mult_less_eq)
    with many assms(1) show ?thesis by (simp add: rolled_def Let_def last2)
  qed
qed simp

definition nat_ops :: "nat f64_ops" where
  "nat_ops = \<lparr>f64_of_u64 = unat, f64_as_secs = id, f64_mul = (*), f64_div = (div), f64_eight = 8\<rparr>"

definition sample_window :: "nat Window" where
  "sample_window = \<lparr>wi_duration = 5, wi_window_start = 1, wi_bytes = 1000, wi_packets = 10,
     wi_flows = 5, wi_last_finalized = None\<rparr>"

theorem roll_lands_in_current_window_witness:
  "\<exists>w'. roll_if_elapsed nat_ops 7 sample_window = Some w' \<and> wi_window_start w' = 6 \<and> wi_bytes w' = 0 \<and>
     wi_last_finalized w' = Some \<lparr>rt_bps = 1600, rt_pps = 2, rt_fps = 1\<rparr>"
proof -
  have w: "wi_duration sample_window = 5" "wi_window_start sample_window = 1" by (simp_all add: sample_window_def)
  have "0 < wi_duration sample_window" "wi_window_start sample_window \<le> 7" by (simp_all add: w)
  from roll_lands_in_current_window[OF this, of nat_ops, unfolded w] obtain w' n where
    w': "roll_if_elapsed nat_ops 7 sample_window = Some w'" "wi_window_start w' \<le> 7"
      "7 < wi_window_start w' + 5" "wi_window_start w' = 1 + n * 5"
      "wi_bytes w' = 0" "wi_last_finalized w' = wi_last_finalized (finalize_window nat_ops sample_window)"
    by auto
  from w'(2-4) have "wi_window_start w' = 6" by presburger
  moreover have "wi_last_finalized (finalize_window nat_ops sample_window) =
      Some \<lparr>rt_bps = 1600, rt_pps = 2, rt_fps = 1\<rparr>"
    by (simp add: finalize_window_def nat_ops_def sample_window_def)
  ultimately show ?thesis using w' by simp
qed

text \<open>
  Property C12. Counting any sequence of flows gives the exact sums of their bytes, packets and
  number, capped at the largest 64-bit value instead of wrapping, and each breakdown counter
  stays within the total it breaks down.
\<close>

theorem counters_are_saturated_sums:
  "unat (tf_bytes (fold counters_add fs default_counters)) =
     min (sum_list (map (\<lambda>f. unat (nf_bytes f)) fs)) (2 ^ 64 - 1) \<and>
   unat (tf_packets (fold counters_add fs default_counters)) =
     min (sum_list (map (\<lambda>f. unat (nf_packets f)) fs)) (2 ^ 64 - 1) \<and>
   unat (tf_flows (fold counters_add fs default_counters)) = min (length fs) (2 ^ 64 - 1) \<and>
   counters_ok (fold counters_add fs default_counters)"
proof (induction fs rule: rev_induct)
  case Nil
  show ?case using default_counters_ok by (simp add: default_counters_def)
next
  case (snoc f fs)
  let ?c = "fold counters_add fs default_counters"
  have "tf_bytes (counters_add f ?c) = saturating_add (tf_bytes ?c) (nf_bytes f)"
    "tf_packets (counters_add f ?c) = saturating_add (tf_packets ?c) (nf_packets f)"
    "tf_flows (counters_add f ?c) = saturating_add (tf_flows ?c) 1"
    by (auto simp: counters_add_def Let_def split: option.split Protocol.split)
  moreover have "min (min a M + b) M = min (a + b) M" for a b M :: nat by (auto simp: min_def)
  ultimately show ?case using snoc by (auto simp: unat_saturating_add counters_add_ok simp del: min_add_distrib_left min_add_distrib_right)
qed

text \<open>The aggregator under any sequence of flows and sweeps.\<close>

fun aggregator_run ::
    "bool \<Rightarrow> 'f f64_ops \<Rightarrow> ((NormalizedFlow \<times> ClassificationResult) option \<times> nat) list \<Rightarrow> 'f Aggregator \<Rightarrow> 'f Aggregator option" where
  "aggregator_run oc ops [] ag = Some ag"
| "aggregator_run oc ops ((Some (f, cls), now) # es) ag =
     Option.bind (ingest oc ops ag f cls now) (\<lambda>(ag, report). aggregator_run oc ops es ag)"
| "aggregator_run oc ops ((None, now) # es) ag =
     Option.bind (aggregator_expire_inactive ops ag now) (\<lambda>(ag, n). aggregator_run oc ops es ag)"

lemma aggregator_run_ok:
  "aggregator_ok ag \<Longrightarrow> lengths_fit oc (ag_config ag) \<Longrightarrow>
     \<exists>ag'. aggregator_run oc ops es ag = Some ag' \<and> aggregator_ok ag' \<and> ag_config ag' = ag_config ag"
proof (induction oc ops es ag rule: aggregator_run.induct)
  case (2 oc ops f cls now es ag)
  from ingest_ok[OF 2(2,3), of ops f cls now] 2(1,3) show ?case by fastforce
next
  case (3 oc ops now es ag)
  from aggregator_expire_ok[OF 3(2), of ops now] 3(1,3) show ?case by fastforce
qed simp

subsection \<open>The hosts a run holds\<close>

text \<open>Each family has a host map of its own, each with the whole of the configured limit: an address
  is held back by the addresses of its own family only.\<close>

fun same_family :: "IpAddr \<Rightarrow> IpAddr \<Rightarrow> bool" where
  "same_family (V4 _) (V4 _) = True"
| "same_family (V6 _) (V6 _) = True"
| "same_family _ _ = False"

lemma map_len_card: "map_ok m \<Longrightarrow> map_len m = card (dom (map_of (bm_entries m)))"
  by (metis map_ok_def map_len_def distinct_card length_map dom_map_of_conv_image_fst list.set_map)

lemma finite_hosts: "finite (host_addresses ag)"
  by (simp add: host_addresses_def finite_dom_map_of)

lemma active_hosts_card: "aggregator_ok ag \<Longrightarrow> active_hosts ag = card (host_addresses ag)"
  unfolding active_hosts_def host_addresses_def
  by (subst card_Un_disjoint) (auto simp: finite_dom_map_of card_image inj_on_def map_len_card aggregator_ok_def tracked_ok_def)

lemma family_hosts:
  "{b \<in> host_addresses ag. same_family (V4 x) b} = V4 ` dom (map_of (bm_entries (ag_ipv4_hosts ag)))"
  "{b \<in> host_addresses ag. same_family (V6 y) b} = V6 ` dom (map_of (bm_entries (ag_ipv6_hosts ag)))"
  by (auto simp: host_addresses_def)

lemma upsert_adds_key:
  assumes "map_ok m" "key \<in> dom (map_of (bm_entries m)) \<or> map_len m < bc_max_entries (bm_config m)"
  shows "dom (map_of (bm_entries (snd (upsert m key now d f)))) = insert key (dom (map_of (bm_entries m)))"
proof -
  have "0 < bc_max_entries (bm_config m)" using assms by (cases "bm_entries m") (auto simp: map_ok_def)
  from assms(1) this show ?thesis
    by (cases rule: upsert_cases[of m key now d f]) (use assms(2) in \<open>auto simp: update_conv'\<close>)
qed

lemma track_keys:
  assumes "tracked_ok n m" "key \<in> dom (map_of (bm_entries m)) \<or> card (dom (map_of (bm_entries m))) < n"
    "track m key f now report = (m', report')"
  shows "dom (map_of (bm_entries m')) = insert key (dom (map_of (bm_entries m)))"
  using assms upsert_adds_key[of m key now default_counters "counters_add f"]
  by (auto simp: track_def tracked_ok_def map_len_card split: prod.splits)

lemma track_address_hosts:
  assumes "aggregator_ok ag" "track_address oc ag a f now report = Some (ag', report')"
    "a \<in> host_addresses ag \<or> card {b \<in> host_addresses ag. same_family a b} < ac_max_hosts (ag_config ag)"
  shows "host_addresses ag' = insert a (host_addresses ag)"
proof (cases a)
  case (V4 x)
  obtain hosts r where t: "track (ag_ipv4_hosts ag) x f now report = (hosts, r)" by fastforce
  have ok: "tracked_ok (ac_max_hosts (ag_config ag)) (ag_ipv4_hosts ag)" using assms(1) by (simp add: aggregator_ok_def)
  have room: "x \<in> dom (map_of (bm_entries (ag_ipv4_hosts ag))) \<or>
      card (dom (map_of (bm_entries (ag_ipv4_hosts ag)))) < ac_max_hosts (ag_config ag)"
    using assms(3) unfolding V4 family_hosts by (auto simp: host_addresses_def card_image inj_on_def)
  from assms(2) have "ag_ipv4_hosts ag' = hosts \<and> ag_ipv6_hosts ag' = ag_ipv6_hosts ag"
    by (auto simp: V4 track_address_def t bind_eq_Some_conv case_prod_unfold)
  with track_keys[OF ok room t] show ?thesis by (simp add: V4 host_addresses_def)
next
  case (V6 x)
  obtain hosts r where t: "track (ag_ipv6_hosts ag) x f now report = (hosts, r)" by fastforce
  have ok: "tracked_ok (ac_max_hosts (ag_config ag)) (ag_ipv6_hosts ag)" using assms(1) by (simp add: aggregator_ok_def)
  have room: "x \<in> dom (map_of (bm_entries (ag_ipv6_hosts ag))) \<or>
      card (dom (map_of (bm_entries (ag_ipv6_hosts ag)))) < ac_max_hosts (ag_config ag)"
    using assms(3) unfolding V6 family_hosts by (auto simp: host_addresses_def card_image inj_on_def)
  from assms(2) have "ag_ipv6_hosts ag' = hosts \<and> ag_ipv4_hosts ag' = ag_ipv4_hosts ag"
    by (auto simp: V6 track_address_def t bind_eq_Some_conv case_prod_unfold)
  with track_keys[OF ok room t] show ?thesis by (simp add: V6 host_addresses_def)
qed

lemma ingest_hosts:
  assumes "aggregator_ok ag" "lengths_fit oc (ag_config ag)" "nf_source_addr f = a" "nf_destination_addr f = a"
    "a \<in> host_addresses ag \<or> card {b \<in> host_addresses ag. same_family a b} < ac_max_hosts (ag_config ag)"
  obtains ag' report where "ingest oc ops ag f cls now = Some (ag', report)" "aggregator_ok ag'"
    "ag_config ag' = ag_config ag" "host_addresses ag' = insert a (host_addresses ag)"
proof (rule ingest_steps[OF assms(1,2), of f now ops cls])
  fix ag1 ag2 ag3 ag' r1 r2 r3 report
  assume ag1: "aggregator_ok ag1" "ag_config ag1 = ag_config ag" "host_addresses ag1 = host_addresses ag"
    and t1: "track_address oc ag1 (nf_source_addr f) f now r1 = Some (ag2, r2)"
    and ag2: "aggregator_ok ag2" "ag_config ag2 = ag_config ag"
    and t2: "track_address oc ag2 (nf_destination_addr f) f now r2 = Some (ag3, r3)"
    and ingested: "ingest oc ops ag f cls now = Some (ag', report)" "aggregator_ok ag'" "ag_config ag' = ag_config ag"
    and hosts: "host_addresses ag' = host_addresses ag3"
  have "host_addresses ag2 = insert a (host_addresses ag)"
    using track_address_hosts[OF ag1(1) t1] assms(3,5) ag1(2,3) by simp
  moreover from this have "host_addresses ag3 = insert a (host_addresses ag2)"
    using track_address_hosts[OF ag2(1) t2] assms(4) by simp
  ultimately show thesis using that[OF ingested] hosts by simp
qed

definition flow_at :: "NormalizedFlow \<Rightarrow> IpAddr \<Rightarrow> NormalizedFlow" where
  "flow_at f a = f\<lparr>nf_source_addr := a, nf_destination_addr := a\<rparr>"

lemma run_collects_hosts:
  assumes "aggregator_ok ag" "lengths_fit oc (ag_config ag)"
    "\<And>a. a \<in> set as \<Longrightarrow> card {b \<in> host_addresses ag \<union> set as. same_family a b} \<le> ac_max_hosts (ag_config ag)"
  shows "\<exists>ag'. aggregator_run oc ops (map (\<lambda>a. (Some (flow_at f a, cls), now)) as) ag = Some ag' \<and>
    aggregator_ok ag' \<and> host_addresses ag' = host_addresses ag \<union> set as"
  using assms
proof (induction as arbitrary: ag)
  case (Cons a as)
  have room: "a \<in> host_addresses ag \<or> card {b \<in> host_addresses ag. same_family a b} < ac_max_hosts (ag_config ag)"
  proof (cases "a \<in> host_addresses ag")
    case False
    have "same_family a a" by (cases a) simp_all
    then have "{b \<in> host_addresses ag. same_family a b} \<subset> {b \<in> host_addresses ag \<union> set (a # as). same_family a b}"
      using False by auto
    then have "card {b \<in> host_addresses ag. same_family a b} < card {b \<in> host_addresses ag \<union> set (a # as). same_family a b}"
      by (rule psubset_card_mono[rotated]) (simp add: finite_hosts)
    with Cons.prems(3)[of a] show ?thesis by simp
  qed simp
  have at: "nf_source_addr (flow_at f a) = a" "nf_destination_addr (flow_at f a) = a" by (simp_all add: flow_at_def)
  obtain ag' report where ag': "ingest oc ops ag (flow_at f a) cls now = Some (ag', report)" "aggregator_ok ag'"
    "ag_config ag' = ag_config ag" "host_addresses ag' = insert a (host_addresses ag)"
    by (rule ingest_hosts[OF Cons.prems(1,2) at room, of ops cls now])
  have "card {b \<in> host_addresses ag' \<union> set as. same_family c b} \<le> ac_max_hosts (ag_config ag')" if c: "c \<in> set as" for c
    using Cons.prems(3)[of c] c by (simp add: ag'(3,4))
  from Cons.IH[OF ag'(2) _ this] Cons.prems(2) ag' show ?case by auto
qed simp

text \<open>As many addresses of each family as there are words of 32 bits.\<close>

definition some_hosts :: "nat \<Rightarrow> IpAddr list" where
  "some_hosts n = map (\<lambda>i. V4 (of_nat i)) [0..<n] @ map (\<lambda>i. V6 (of_nat i)) [0..<n]"

lemma some_hosts_size:
  assumes "n \<le> 2 ^ 32"
  shows "card (set (some_hosts n)) = 2 * n" "card {b \<in> set (some_hosts n). same_family a b} = n"
proof -
  have inj: "inj_on (\<lambda>i. V4 (of_nat i)) {0..<n}" "inj_on (\<lambda>i. V6 (of_nat i)) {0..<n}"
    using assms by (auto simp: inj_on_def word_of_nat_eq_iff take_bit_nat_eq_self)
  have split: "set (some_hosts n) = (\<lambda>i. V4 (of_nat i)) ` {0..<n} \<union> (\<lambda>i. V6 (of_nat i)) ` {0..<n}"
    by (simp add: some_hosts_def)
  show "card (set (some_hosts n)) = 2 * n"
    unfolding split by (subst card_Un_disjoint) (auto simp: card_image inj)
  have "{b \<in> set (some_hosts n). same_family (V4 x) b} = (\<lambda>i. V4 (of_nat i)) ` {0..<n}"
    "{b \<in> set (some_hosts n). same_family (V6 y) b} = (\<lambda>i. V6 (of_nat i)) ` {0..<n}" for x y
    unfolding split by auto
  then show "card {b \<in> set (some_hosts n). same_family a b} = n"
    by (cases a) (simp_all add: card_image inj)
qed

text \<open>A prefix length past the width of its family stops the flow that meets it.\<close>

lemma track_lengths_panics:
  "\<not> list_all (\<lambda>len. network_of len \<noteq> None) lens \<Longrightarrow> track_lengths network_of m lens f now report = None"
  by (induction lens arbitrary: m report) (auto simp: bind_eq_None_conv split: prod.split)

lemma track_address_panics:
  assumes "\<not> lengths_fit oc config"
  obtains a where "\<And>(ag :: 'f Aggregator) f now report. ag_config ag = config \<Longrightarrow> track_address oc ag a f now report = None"
proof (cases "list_all (\<lambda>len. len \<le> 32) (ac_ipv4_prefix_lengths config)")
  case True
  with assms have "\<not> list_all (\<lambda>len. mask_v6 oc 0 len \<noteq> None) (ac_ipv6_prefix_lengths config)"
    by (auto simp: lengths_fit_def list_all_iff mask_returns not_le)
  from track_lengths_panics[OF this] show thesis
    by (intro that[of "V6 0"]) (simp add: track_address_def split: prod.split)
next
  case False
  with assms have "\<not> list_all (\<lambda>len. mask_v4 oc 0 len \<noteq> None) (ac_ipv4_prefix_lengths config)"
    by (auto simp: lengths_fit_def list_all_iff mask_returns not_le)
  from track_lengths_panics[OF this] show thesis
    by (intro that[of "V4 0"]) (auto simp: track_address_def bind_eq_None_conv split: prod.split)
qed

lemma run_panics:
  assumes "\<not> lengths_fit oc (ag_config ag)"
  shows "\<exists>a. \<forall>f cls now. aggregator_run oc ops [(Some (flow_at f a, cls), now)] ag = None"
proof (rule track_address_panics[OF assms])
  fix a
  assume "\<And>(ag' :: 'a Aggregator) f now report. ag_config ag' = ag_config ag \<Longrightarrow> track_address oc ag' a f now report = None"
  then have "aggregator_run oc ops [(Some (flow_at f a, cls), now)] ag = None" for f cls now
    by (simp add: ingest_def Let_def case_prod_unfold flow_at_def add_totals_ok(2) bind_eq_None_conv)
  then show ?thesis by blast
qed

lemma new_aggregator_state:
  "aggregator_ok (new_aggregator config start)" "ag_config (new_aggregator config start) = config"
  "host_addresses (new_aggregator config start) = {}"
  by (simp add: new_aggregator_ok, simp_all add: new_aggregator_def Let_def host_addresses_def new_map_def)

lemma host_limit_reached_twice:
  assumes "lengths_fit oc config" "ac_max_hosts config \<le> 2 ^ 32"
  shows "\<exists>flows ag. aggregator_run oc ops flows (new_aggregator config start) = Some ag \<and>
    active_hosts ag = 2 * ac_max_hosts config"
proof -
  fix cls :: ClassificationResult
  let ?new = "new_aggregator config start :: 'a Aggregator" and ?hosts = "some_hosts (ac_max_hosts config)"
  have "lengths_fit oc (ag_config ?new)" using assms(1) by (simp add: new_aggregator_state)
  moreover have "card {b \<in> host_addresses ?new \<union> set ?hosts. same_family a b} \<le> ac_max_hosts (ag_config ?new)" for a
    by (simp add: new_aggregator_state some_hosts_size(2)[OF assms(2)])
  ultimately obtain ag' where
    "aggregator_run oc ops (map (\<lambda>a. (Some (flow_at sample_flow a, cls), start)) ?hosts) ?new = Some ag'"
    "aggregator_ok ag'" "host_addresses ag' = set ?hosts"
    using run_collects_hosts[OF new_aggregator_state(1), of oc config start ?hosts ops sample_flow cls start]
    by (auto simp: new_aggregator_state)
  then show ?thesis using active_hosts_card[of ag'] some_hosts_size(1)[OF assms(2)] by metis
qed

text \<open>
  Property C6. With overflow checks compiled out, or with configured prefix lengths that fit their
  address families, the aggregator returns from every call, whatever flows arrive and however the
  clock moves, and each of its eleven maps stays within its own limit. The limit is one per map and
  not one per dimension: the addresses of both families together take up to twice the limit on
  hosts, the networks up to three times the limit on networks, and the double host limit is reached
  by some run for every limit up to \<open>2 ^ 32\<close>, although the configuration guide says that the host
  dimension cannot grow past its cap. With overflow checks and a prefix length that does not fit, there is an address
  whose first flow panics.
\<close>

theorem aggregator_memory_is_bounded:
  "(lengths_fit overflow_checks config \<longrightarrow>
     (\<exists>ag. aggregator_run overflow_checks ops events (new_aggregator config start) = Some ag \<and>
       map_len (ag_ipv4_hosts ag) \<le> ac_max_hosts config \<and>
       map_len (ag_ipv6_hosts ag) \<le> ac_max_hosts config \<and>
       map_len (ag_ipv4_slash24 ag) \<le> ac_max_networks config \<and>
       map_len (ag_ipv4_networks ag) \<le> ac_max_networks config \<and>
       map_len (ag_ipv6_networks ag) \<le> ac_max_networks config \<and>
       active_hosts ag \<le> 2 * ac_max_hosts config \<and>
       active_networks ag \<le> 3 * ac_max_networks config \<and>
       active_hostgroups ag \<le> ac_max_hostgroups config \<and>
       active_asns ag \<le> ac_max_asns config \<and>
       map_len (ag_exporters ag) \<le> ac_max_exporters config \<and>
       map_len (ag_input_interfaces ag) \<le> ac_max_interfaces config \<and>
       map_len (ag_output_interfaces ag) \<le> ac_max_interfaces config \<and>
       map_len (ag_protocols ag) \<le> ac_max_protocols config)) \<and>
   (lengths_fit overflow_checks config \<and> ac_max_hosts config \<le> 2 ^ 32 \<longrightarrow>
     (\<exists>flows ag. aggregator_run overflow_checks ops flows (new_aggregator config start) = Some ag \<and>
       active_hosts ag = 2 * ac_max_hosts config)) \<and>
   (\<not> lengths_fit overflow_checks config \<longrightarrow>
     (\<exists>a. \<forall>f cls now. aggregator_run overflow_checks ops [(Some (flow_at f a, cls), now)] (new_aggregator config start) = None))"
proof (intro conjI impI)
  let ?new = "new_aggregator config start :: 'a Aggregator"
  assume "lengths_fit overflow_checks config"
  then have "lengths_fit overflow_checks (ag_config ?new)" by (simp add: new_aggregator_state)
  from aggregator_run_ok[OF new_aggregator_state(1) this, of ops events] obtain ag where
    "aggregator_run overflow_checks ops events ?new = Some ag" "aggregator_ok ag" "ag_config ag = config"
    by (auto simp: new_aggregator_state)
  then show "\<exists>ag. aggregator_run overflow_checks ops events ?new = Some ag \<and>
      map_len (ag_ipv4_hosts ag) \<le> ac_max_hosts config \<and> map_len (ag_ipv6_hosts ag) \<le> ac_max_hosts config \<and>
      map_len (ag_ipv4_slash24 ag) \<le> ac_max_networks config \<and> map_len (ag_ipv4_networks ag) \<le> ac_max_networks config \<and>
      map_len (ag_ipv6_networks ag) \<le> ac_max_networks config \<and>
      active_hosts ag \<le> 2 * ac_max_hosts config \<and> active_networks ag \<le> 3 * ac_max_networks config \<and>
      active_hostgroups ag \<le> ac_max_hostgroups config \<and> active_asns ag \<le> ac_max_asns config \<and>
      map_len (ag_exporters ag) \<le> ac_max_exporters config \<and>
      map_len (ag_input_interfaces ag) \<le> ac_max_interfaces config \<and>
      map_len (ag_output_interfaces ag) \<le> ac_max_interfaces config \<and> map_len (ag_protocols ag) \<le> ac_max_protocols config"
    unfolding aggregator_ok_def active_hosts_def active_networks_def active_hostgroups_def active_asns_def
    by (auto dest!: tracked_len)
qed (use host_limit_reached_twice run_panics[of overflow_checks "new_aggregator config start"]
     in \<open>auto simp: new_aggregator_state\<close>)

definition small_aggregator :: AggregatorConfig where
  "small_aggregator = \<lparr>ac_max_hosts = 2, ac_max_networks = 4, ac_max_hostgroups = 2, ac_max_asns = 2,
     ac_max_exporters = 2, ac_max_interfaces = 2, ac_max_protocols = 2, ac_inactivity_ttl = 300,
     ac_ipv4_prefix_lengths = [16], ac_ipv6_prefix_lengths = [48]\<rparr>"

theorem aggregator_memory_is_bounded_witness:
  "(\<exists>flows ag. aggregator_run True nat_ops flows (new_aggregator small_aggregator 0) = Some ag \<and> active_hosts ag = 4) \<and>
   (\<exists>ag. aggregator_run True nat_ops (replicate 9 (Some (sample_flow, classify new_prefix_registry sample_flow), 7))
      (new_aggregator small_aggregator 0) = Some ag \<and> active_networks ag \<le> 12) \<and>
   (\<exists>a. \<forall>f cls now. aggregator_run True nat_ops [(Some (flow_at f a, cls), now)]
      (new_aggregator (small_aggregator\<lparr>ac_ipv4_prefix_lengths := [33]\<rparr>) 0) = None)"
proof -
  have fits: "lengths_fit True small_aggregator"
    "\<not> lengths_fit True (small_aggregator\<lparr>ac_ipv4_prefix_lengths := [33]\<rparr>)" by code_simp+
  have limits: "ac_max_hosts small_aggregator = 2" "ac_max_networks small_aggregator = 4"
    by (simp_all add: small_aggregator_def)
  note memory = aggregator_memory_is_bounded[where overflow_checks = True and ops = nat_ops and start = 0
      and events = "replicate 9 (Some (sample_flow, classify new_prefix_registry sample_flow), 7)"]
  from memory[of small_aggregator] memory[of "small_aggregator\<lparr>ac_ipv4_prefix_lengths := [33]\<rparr>"] fits limits
  show ?thesis by auto
qed

end
