(* ===== verification/Authorization.thy ===== *)
theory Authorization
  imports Rust_Text
begin

text \<open>
  Who may do what: permissions, actors, the context every command carries and the role bundles
  (\<open>src/crates/incident/src/authorization.rs\<close>), tenants (\<open>correlation.rs\<close>), and incident
  identifiers with their text form and generators (\<open>id.rs\<close>). A generator's \<open>AtomicU64\<close> is its
  value, passed in and out: the compare-and-swap loop increments it atomically. The salt that
  the process draws at start is an argument.
\<close>

section \<open>Permissions and contexts\<close>

datatype TenantId = TenantId rust_str

primrec tenant_as_str :: "TenantId \<Rightarrow> rust_str" where
  "tenant_as_str (TenantId s) = s"

datatype Permission =
    IncidentRead | IncidentList | IncidentCreate | IncidentUpdate | IncidentAcknowledge
  | IncidentAssign | IncidentInvestigate | IncidentNoteCreate | IncidentNoteRedact
  | IncidentNoteCustomerVisible | IncidentSeverityChange | IncidentPriorityChange
  | IncidentResolve | IncidentClose | IncidentReopen | IncidentSuppress | IncidentExport
  | IncidentAuditRead | IncidentConfigRead | IncidentClosurePolicyOverride | IncidentIngest
  | PlatformIncidentReadAll | PlatformIncidentAdmin | IncidentNotificationRecord | TrafficRead
  | MitigationRead | MitigationRequestPermission | MitigationApprove | MitigationWithdraw
  | MitigationPropose | MitigationExecute | MitigationKillSwitchEngage
  | MitigationKillSwitchRelease

fun permission_name :: "Permission \<Rightarrow> string" where
  "permission_name IncidentRead = ''incident.read''"
| "permission_name IncidentList = ''incident.list''"
| "permission_name IncidentCreate = ''incident.create''"
| "permission_name IncidentUpdate = ''incident.update''"
| "permission_name IncidentAcknowledge = ''incident.acknowledge''"
| "permission_name IncidentAssign = ''incident.assign''"
| "permission_name IncidentInvestigate = ''incident.investigate''"
| "permission_name IncidentNoteCreate = ''incident.note.create''"
| "permission_name IncidentNoteRedact = ''incident.note.redact''"
| "permission_name IncidentNoteCustomerVisible = ''incident.note.customer_visible''"
| "permission_name IncidentSeverityChange = ''incident.severity.change''"
| "permission_name IncidentPriorityChange = ''incident.priority.change''"
| "permission_name IncidentResolve = ''incident.resolve''"
| "permission_name IncidentClose = ''incident.close''"
| "permission_name IncidentReopen = ''incident.reopen''"
| "permission_name IncidentSuppress = ''incident.suppress''"
| "permission_name IncidentExport = ''incident.export''"
| "permission_name IncidentAuditRead = ''incident.audit.read''"
| "permission_name IncidentConfigRead = ''incident.config.read''"
| "permission_name IncidentClosurePolicyOverride = ''incident.closure_policy.override''"
| "permission_name IncidentIngest = ''incident.ingest''"
| "permission_name PlatformIncidentReadAll = ''platform.incident.read_all''"
| "permission_name PlatformIncidentAdmin = ''platform.incident.admin''"
| "permission_name TrafficRead = ''traffic.read''"
| "permission_name IncidentNotificationRecord = ''incident.notification.record''"
| "permission_name MitigationRead = ''mitigation.read''"
| "permission_name MitigationRequestPermission = ''mitigation.request''"
| "permission_name MitigationApprove = ''mitigation.approve''"
| "permission_name MitigationWithdraw = ''mitigation.withdraw''"
| "permission_name MitigationPropose = ''mitigation.propose''"
| "permission_name MitigationExecute = ''mitigation.execute''"
| "permission_name MitigationKillSwitchEngage = ''mitigation.kill_switch.engage''"
| "permission_name MitigationKillSwitchRelease = ''mitigation.kill_switch.release''"

datatype Actor = Operator rust_str | ServiceAccount rust_str | System | Platform rust_str

definition system_correlator :: Actor where
  "system_correlator = System"

definition is_system :: "Actor \<Rightarrow> bool" where
  "is_system a = (a = System)"

record AuthorizationContext =
  cx_tenant :: TenantId
  cx_actor :: Actor
  cx_granted :: "Permission list"

definition notifier :: "TenantId \<Rightarrow> rust_str \<Rightarrow> AuthorizationContext" where
  "notifier tenant consumer_id = \<lparr>cx_tenant = tenant, cx_actor = ServiceAccount consumer_id,
     cx_granted = [IncidentRead, IncidentNotificationRecord]\<rparr>"

definition mitigator :: "TenantId \<Rightarrow> rust_str \<Rightarrow> AuthorizationContext" where
  "mitigator tenant consumer_id = \<lparr>cx_tenant = tenant, cx_actor = ServiceAccount consumer_id,
     cx_granted = [IncidentRead, MitigationRead, MitigationPropose, MitigationExecute]\<rparr>"

definition correlator :: "TenantId \<Rightarrow> AuthorizationContext" where
  "correlator tenant = \<lparr>cx_tenant = tenant, cx_actor = System, cx_granted = [IncidentIngest]\<rparr>"

definition has :: "AuthorizationContext \<Rightarrow> Permission \<Rightarrow> bool" where
  "has ctx permission = (permission \<in> set (cx_granted ctx))"

section \<open>Role bundles\<close>

definition permissions_for :: "string \<Rightarrow> Permission list" where
  "permissions_for role =
     (let viewer = [IncidentRead, IncidentList, TrafficRead, MitigationRead];
          operator = viewer @ [IncidentAcknowledge, IncidentAssign, IncidentInvestigate, IncidentNoteCreate];
          senior_operator = operator @ [IncidentSeverityChange, IncidentPriorityChange, IncidentResolve,
            IncidentClose, IncidentReopen, IncidentCreate, MitigationRequestPermission, MitigationWithdraw];
          noc_lead = senior_operator @ [IncidentSuppress, IncidentExport, IncidentAuditRead,
            IncidentConfigRead, IncidentUpdate, IncidentNoteRedact, MitigationApprove,
            MitigationKillSwitchEngage]
      in if role = ''viewer'' then viewer
         else if role = ''operator'' then operator
         else if role = ''senior_operator'' then senior_operator
         else if role = ''noc_lead'' then noc_lead
         else if role = ''platform_admin'' then
           noc_lead @ [IncidentClosurePolicyOverride, PlatformIncidentReadAll, PlatformIncidentAdmin,
             IncidentNoteCustomerVisible, MitigationKillSwitchRelease]
         else [])"

section \<open>Incident identifiers\<close>

type_synonym IncidentId = "u8 list"

datatype IncidentIdParseError = WrongLength nat | InvalidHex

definition to_canonical_string :: "IncidentId \<Rightarrow> rust_str" where
  "to_canonical_string b =
     concat (map hex2 (take 4 b)) @ lit ''-'' @
     concat (map hex2 (take 2 (drop 4 b))) @ lit ''-'' @
     concat (map hex2 (take 2 (drop 6 b))) @ lit ''-'' @
     concat (map hex2 (take 2 (drop 8 b))) @ lit ''-'' @
     concat (map hex2 (take 6 (drop 10 b)))"

text \<open>The loop over the sixteen bytes; \<open>todo\<close> counts down to the end of the array.\<close>

fun parse_pairs :: "u8 list \<Rightarrow> nat \<Rightarrow> nat \<Rightarrow> IncidentIdParseError failure + u8 list" where
  "parse_pairs hex i 0 = Inr []"
| "parse_pairs hex i (Suc todo) =
     bind_res (str_slice hex (i * 2) (i * 2 + 2)) (\<lambda>pair.
       case u8_from_hex pair of
         None \<Rightarrow> Inl (Err InvalidHex)
       | Some byte \<Rightarrow> bind_res (parse_pairs hex (i + 1) todo) (\<lambda>rest. Inr (byte # rest)))"

definition parse_incident_id :: "rust_str \<Rightarrow> IncidentIdParseError failure + IncidentId" where
  "parse_incident_id s =
     (let hex = utf8 (filter (\<lambda>c. c \<noteq> of_char (CHR ''-'')) s) in
      if length hex \<noteq> 32 then Inl (Err (WrongLength (length hex)))
      else parse_pairs hex 0 16)"

text \<open>\<open>checked_increment\<close> on the counter's value: the previous value and the new one.\<close>

definition checked_increment :: "u64 \<Rightarrow> u64 option \<times> u64" where
  "checked_increment counter = (if counter = - 1 then (None, counter) else (Some counter, counter + 1))"

definition rotate_left :: "u64 \<Rightarrow> nat \<Rightarrow> u64" where
  "rotate_left w n = push_bit n w OR drop_bit (64 - n) w"

definition mix :: "u64 \<Rightarrow> u64 \<Rightarrow> IncidentId" where
  "mix salt sq =
     (let a = salt XOR (rotate_left sq 17 * 0x9E3779B97F4A7C15);
          b = sq XOR (rotate_left salt 29 * 0xBF58476D1CE4E5B9)
      in to_be_bytes 8 a @ to_be_bytes 8 b)"

text \<open>The two generators: the identifier, or None for the capacity error, and the counter.\<close>

definition placeholder_generate :: "u64 \<Rightarrow> u64 \<Rightarrow> IncidentId option \<times> u64" where
  "placeholder_generate salt counter =
     (case checked_increment counter of (sq, counter') \<Rightarrow> (map_option (mix salt) sq, counter'))"

definition test_generate :: "u64 \<Rightarrow> IncidentId option \<times> u64" where
  "test_generate counter =
     (case checked_increment counter of (sq, counter') \<Rightarrow>
        (map_option (\<lambda>s. replicate 8 0 @ to_be_bytes 8 s) sq, counter'))"

section \<open>The text form of identifiers\<close>

lemma hex_digit_value: "d < 16 \<Longrightarrow> hex_value (of_nat (hex_digit d)) = Some d"
proof -
  have "\<forall>d \<in> set [0..<16]. hex_value (of_nat (hex_digit d)) = Some d" by code_simp
  then show "d < 16 \<Longrightarrow> hex_value (of_nat (hex_digit d)) = Some d" by simp
qed

lemma hex_digit_ascii: "d < 16 \<Longrightarrow> hex_digit d < 128 \<and> hex_digit d \<noteq> 45 \<and> hex_digit d \<noteq> 43"
  by (auto simp: hex_digit_def)

lemma hex2_facts:
  "set (hex2 b) \<subseteq> {c. c < 128 \<and> c \<noteq> 45}"
  "u8_from_hex (map of_nat (hex2 b)) = Some b"
proof -
  have "unat b < 256" using unsigned_less[of b] by simp
  then have bd: "unat b div 16 < 16" "unat b mod 16 < 16" by auto
  show "set (hex2 b) \<subseteq> {c. c < 128 \<and> c \<noteq> 45}"
    using hex_digit_ascii[OF bd(1)] hex_digit_ascii[OF bd(2)] by (auto simp: hex2_def)
  have "(of_nat (hex_digit (unat b div 16)) :: u8) \<noteq> 43"
  proof
    assume "(of_nat (hex_digit (unat b div 16)) :: u8) = 43"
    then have "hex_value (of_nat (hex_digit (unat b div 16))) = hex_value 43" by simp
    moreover have "hex_value 43 = None" by code_simp
    ultimately show False using hex_digit_value[OF bd(1)] by simp
  qed
  then show "u8_from_hex (map of_nat (hex2 b)) = Some b"
    using hex_digit_value[OF bd(1)] hex_digit_value[OF bd(2)] by (simp add: hex2_def u8_from_hex_def)
qed

lemma utf8_ascii: "set s \<subseteq> {c. c < 128} \<Longrightarrow> utf8 s = map of_nat s"
  by (induction s) (auto simp: utf8_def utf8_char_def)

lemma ascii_boundary:
  assumes "\<forall>b \<in> set bs. b < 0x80" "i \<le> length bs"
  shows "is_char_boundary bs i"
  using assms by (auto simp: is_char_boundary_def not_le dest: nth_mem)

lemma parse_pairs_hex2:
  assumes "hex = pre @ concat (map (\<lambda>b. map of_nat (hex2 b)) ids) @ post" "length pre = 2 * i"
    "\<forall>b \<in> set hex. b < 0x80"
  shows "parse_pairs hex i (length ids) = Inr ids"
  using assms
proof (induction ids arbitrary: pre i)
  case Nil
  then show ?case by simp
next
  case (Cons b ids)
  have len: "length (hex2 b) = 2" by (simp add: hex2_def)
  have "str_slice hex (i * 2) (i * 2 + 2) = (Inr (map of_nat (hex2 b)) :: IncidentIdParseError failure + u8 list)"
    using ascii_boundary[OF Cons.prems(3), of "i * 2"] ascii_boundary[OF Cons.prems(3), of "i * 2 + 2"] Cons.prems(1,2)
    by (simp add: str_slice_def len)
  moreover have "parse_pairs hex (i + 1) (length ids) = Inr ids"
    by (rule Cons.IH[of "pre @ map of_nat (hex2 b)"]) (use Cons.prems in \<open>simp_all add: len\<close>)
  ultimately show ?case by (simp add: hex2_facts)
qed

lemma canonical_hex:
  assumes "length ident = 16"
  shows "filter (\<lambda>c. c \<noteq> of_char (CHR ''-'')) (to_canonical_string ident) = concat (map hex2 ident)"
proof -
  have dash: "(of_char (CHR ''-'') :: nat) = 45" by code_simp
  have keep: "filter (\<lambda>c. c \<noteq> 45) (hex2 b) = hex2 b" for b
    using hex2_facts(1)[of b] by (auto simp: filter_id_conv subset_iff)
  obtain b0 b1 b2 b3 b4 b5 b6 b7 b8 b9 b10 b11 b12 b13 b14 b15 where
    "ident = [b0, b1, b2, b3, b4, b5, b6, b7, b8, b9, b10, b11, b12, b13, b14, b15]"
    using assms by (auto simp: length_Suc_conv numeral_eq_Suc)
  then show ?thesis by (simp add: to_canonical_string_def dash lit_def keep)
qed

text \<open>
  Property C20. An incident identifier survives its text form: parsing the canonical hyphenated string
  of any sixteen bytes gives back those bytes.
\<close>

theorem incident_id_round_trips:
  assumes "length ident = 16"
  shows "parse_incident_id (to_canonical_string ident) = Inr ident"
proof -
  let ?h = "concat (map hex2 ident)"
  have ascii: "set ?h \<subseteq> {c. c < 128}" using hex2_facts(1) by fastforce
  have bytes: "utf8 ?h = concat (map (\<lambda>b. map of_nat (hex2 b)) ident)"
    using utf8_ascii[OF ascii] by (simp add: map_concat comp_def)
  have "length (utf8 ?h) = 2 * length ident"
    unfolding bytes by (induction ident) (simp_all add: hex2_def)
  moreover have "\<forall>b \<in> set (utf8 ?h). b < 0x80"
    unfolding utf8_ascii[OF ascii] using ascii by (auto simp: word_less_nat_alt unat_of_nat)
  then have "parse_pairs (utf8 ?h) 0 (length ident) = Inr ident"
    by (intro parse_pairs_hex2[of _ "[]" _ "[]"]) (simp_all add: bytes)
  ultimately show ?thesis
    unfolding parse_incident_id_def canonical_hex[OF assms] Let_def by (simp add: assms)
qed

theorem incident_id_round_trips_witness:
  "parse_incident_id (to_canonical_string (to_be_bytes 8 (1 :: u64) @ to_be_bytes 8 (0xdeadbeef :: u64))) =
     Inr (to_be_bytes 8 (1 :: u64) @ to_be_bytes 8 (0xdeadbeef :: u64))"
  by (rule incident_id_round_trips) simp

section \<open>Which texts are accepted\<close>

definition digit_pair :: "u8 \<Rightarrow> u8 \<Rightarrow> u8 \<Rightarrow> bool" where
  "digit_pair a b v \<longleftrightarrow>
     (\<exists>x y. (a = 43 \<and> x = 0 \<or> hex_value a = Some x) \<and> hex_value b = Some y \<and> v = of_nat (16 * x + y))"

lemma digit_pair_from_hex: "u8_from_hex [a, b] = Some v \<longleftrightarrow> digit_pair a b v"
proof -
  have "hex_value 43 = None" by (simp add: hex_value_def)
  then show ?thesis
    by (cases "hex_value a"; cases "hex_value b") (auto simp: u8_from_hex_def digit_pair_def)
qed

lemma hex_value_ascii: "hex_value b = Some x \<Longrightarrow> b < 0x80"
  by (auto simp: hex_value_def word_le_nat_alt word_less_nat_alt split: if_splits)

lemma digit_pair_boundary:
  "digit_pair a b v \<Longrightarrow> hex ! i = a \<Longrightarrow> i < length hex \<Longrightarrow> is_char_boundary hex i"
  by (auto simp: digit_pair_def is_char_boundary_def not_le dest: hex_value_ascii)

definition pair_at :: "u8 list \<Rightarrow> nat \<Rightarrow> u8 option" where
  "pair_at hex i = u8_from_hex [hex ! (2 * i), hex ! (2 * i + 1)]"

definition pair_ends :: "u8 list \<Rightarrow> nat \<Rightarrow> bool" where
  "pair_ends hex i = is_char_boundary hex (2 * i + 2)"

lemma parse_pairs_step:
  assumes "2 * (i + Suc todo) \<le> length hex" "is_char_boundary hex (2 * i)"
  shows "parse_pairs hex i (Suc todo) =
    (if \<not> pair_ends hex i then Inl Panic
     else case pair_at hex i of
       None \<Rightarrow> Inl (Err InvalidHex)
     | Some byte \<Rightarrow> bind_res (parse_pairs hex (Suc i) todo) (\<lambda>rest. Inr (byte # rest)))"
proof -
  have "take 2 (drop (2 * i) hex) = [hex ! (2 * i), hex ! (2 * i + 1)]"
    using assms(1) by (simp add: take_Suc_conv_app_nth numeral_2_eq_2)
  with assms show ?thesis
    by (simp add: str_slice_def mult.commute[of i] pair_at_def pair_ends_def cong: option.case_cong)
qed

lemma pair_ends_next: "pair_ends hex i \<Longrightarrow> is_char_boundary hex (2 * Suc i)"
  by (simp add: pair_ends_def)

lemma parse_pairs_accepts:
  assumes "2 * (i + todo) \<le> length hex" "is_char_boundary hex (2 * i)"
  shows "parse_pairs hex i todo = Inr bs \<longleftrightarrow>
    length bs = todo \<and> (\<forall>j<todo. pair_ends hex (i + j) \<and> pair_at hex (i + j) = Some (bs ! j))"
  using assms
proof (induction todo arbitrary: i bs)
  case (Suc todo)
  have IH: "parse_pairs hex (Suc i) todo = Inr rest \<longleftrightarrow>
      length rest = todo \<and> (\<forall>j<todo. pair_ends hex (Suc i + j) \<and> pair_at hex (Suc i + j) = Some (rest ! j))"
    if "pair_ends hex i" for rest using Suc.IH[of "Suc i" rest] Suc.prems(1) pair_ends_next[OF that] by simp
  show ?case
  proof (cases bs)
    case (Cons byte rest)
    show ?thesis unfolding parse_pairs_step[OF Suc.prems] Cons All_less_Suc2
      by (cases "pair_at hex i") (auto simp: bind_res_eq_Inr IH)
  qed (auto simp: parse_pairs_step[OF Suc.prems] bind_res_eq_Inr split: option.split)
qed auto

lemma parse_pairs_panics:
  assumes "2 * (i + todo) \<le> length hex" "is_char_boundary hex (2 * i)"
  shows "parse_pairs hex i todo = Inl Panic \<longleftrightarrow>
    (\<exists>j<todo. \<not> pair_ends hex (i + j) \<and> (\<forall>k<j. pair_ends hex (i + k) \<and> pair_at hex (i + k) \<noteq> None))"
  using assms
proof (induction todo arbitrary: i)
  case (Suc todo)
  have IH: "parse_pairs hex (Suc i) todo = Inl Panic \<longleftrightarrow>
      (\<exists>j<todo. \<not> pair_ends hex (Suc i + j) \<and> (\<forall>k<j. pair_ends hex (Suc i + k) \<and> pair_at hex (Suc i + k) \<noteq> None))"
    if "pair_ends hex i" using Suc.IH[of "Suc i"] Suc.prems(1) pair_ends_next[OF that] by simp
  show ?case unfolding parse_pairs_step[OF Suc.prems] Ex_less_Suc2 All_less_Suc2
    by (cases "pair_at hex i") (auto simp: bind_res_eq_Inl IH)
qed simp

text \<open>
  Property C21. Which texts of 32 bytes, hyphens left out, are not turned away. A text is accepted, with the
  bytes its pairs stand for, exactly when each pair is two hexadecimal digits or a plus sign and one
  digit. The parser panics exactly when a character of several bytes crosses the end of a pair before
  which every pair is such a pair.\<close>

theorem malformed_incident_ids_slip_through:
  fixes s defines "hex \<equiv> utf8 (filter (\<lambda>c. c \<noteq> 45) s)"
  assumes "length hex = 32"
  shows "(parse_incident_id s = Inr ident \<longleftrightarrow> length ident = 16 \<and>
      (\<forall>i<16. digit_pair (hex ! (2 * i)) (hex ! (2 * i + 1)) (ident ! i))) \<and>
    (parse_incident_id s = Inl Panic \<longleftrightarrow> (\<exists>i<16. \<not> is_char_boundary hex (2 * i + 2) \<and>
      (\<forall>j<i. \<exists>v. digit_pair (hex ! (2 * j)) (hex ! (2 * j + 1)) v)))"
proof -
  have parse: "parse_incident_id s = parse_pairs hex 0 16"
    using assms(2) by (simp add: parse_incident_id_def Let_def hex_def)
  have start: "2 * (0 + 16) \<le> length hex" "is_char_boundary hex (2 * 0)" using assms(2) by (simp_all add: is_char_boundary_def)
  have pair: "pair_at hex i = Some v \<longleftrightarrow> digit_pair (hex ! (2 * i)) (hex ! (2 * i + 1)) v" for i v
    by (simp add: pair_at_def digit_pair_from_hex)
  have ends: "pair_ends hex i" if "i < 16" "\<forall>i<16. pair_at hex i = Some (ident ! i)" for i
  proof (cases "i = 15")
    case False
    with that have "pair_at hex (Suc i) = Some (ident ! Suc i)" by auto
    from digit_pair_boundary[OF this[unfolded pair] refl] that False assms(2) show ?thesis by (simp add: pair_ends_def)
  qed (simp add: pair_ends_def is_char_boundary_def assms(2))
  have least: "\<exists>i<16. \<not> pair_ends hex i \<and> (\<forall>j<i. pair_ends hex j \<and> pair_at hex j \<noteq> None)"
    if i: "i < 16" "\<not> pair_ends hex i" "\<forall>j<i. pair_at hex j \<noteq> None" for i
  proof -
    obtain n where n: "\<not> pair_ends hex n" "\<And>k. k < n \<Longrightarrow> pair_ends hex k"
      using i(2) exists_least_iff[of "\<lambda>n. \<not> pair_ends hex n"] by blast
    then have "n \<le> i" using i(2) not_le by blast
    with n i show ?thesis by (intro exI[of _ n]) auto
  qed
  have "(parse_incident_id s = Inr ident \<longleftrightarrow> length ident = 16 \<and> (\<forall>i<16. pair_at hex i = Some (ident ! i))) \<and>
    (parse_incident_id s = Inl Panic \<longleftrightarrow> (\<exists>i<16. \<not> pair_ends hex i \<and> (\<forall>j<i. pair_at hex j \<noteq> None)))"
    unfolding parse parse_pairs_accepts[OF start] parse_pairs_panics[OF start] add_0
    using ends least by blast
  then show ?thesis unfolding not_None_eq pair pair_ends_def .
qed

theorem malformed_incident_ids_slip_through_witness:
  "parse_incident_id (97 # 0xE9 # replicate 29 97) = Inl Panic \<and>
   parse_incident_id (concat (replicate 16 (lit ''+f''))) = Inr (replicate 16 0x0f)"
proof
  let ?s = "97 # 0xE9 # replicate 29 97"
  have len: "length (utf8 (filter (\<lambda>c. c \<noteq> 45) ?s)) = 32" by code_simp
  have "\<not> is_char_boundary (utf8 (filter (\<lambda>c. c \<noteq> 45) ?s)) (2 * 0 + 2)" by code_simp
  then show "parse_incident_id ?s = Inl Panic"
    by (intro iffD2[OF conjunct2[OF malformed_incident_ids_slip_through[OF len]]] exI[of _ 0] conjI) (assumption | simp)+
next
  let ?s = "concat (replicate 16 (lit ''+f''))"
  define hex where "hex = utf8 (filter (\<lambda>c. c \<noteq> 45) ?s)"
  have hex: "hex = concat (replicate 16 [43, 102])" unfolding hex_def by code_simp
  have len: "length (utf8 (filter (\<lambda>c. c \<noteq> 45) ?s)) = 32" by code_simp
  have "digit_pair 43 102 0x0f" by (simp add: digit_pair_def hex_value_def)
  moreover have "list_all (\<lambda>i. hex ! (2 * i) = 43 \<and> hex ! (2 * i + 1) = 102 \<and> replicate 16 0x0f ! i = (0x0f :: u8)) [0..<16]"
    unfolding hex by code_simp
  ultimately have "\<forall>i<16. digit_pair (hex ! (2 * i)) (hex ! (2 * i + 1)) (replicate 16 0x0f ! i)"
    unfolding list_all_iff atLeast_upt[symmetric] by simp
  then show "parse_incident_id ?s = Inr (replicate 16 0x0f)" unfolding hex_def
    by (intro iffD2[OF conjunct1[OF malformed_incident_ids_slip_through[OF len]]] conjI length_replicate)
qed

section \<open>Generated identifiers\<close>

fun generate_many :: "nat \<Rightarrow> u64 \<Rightarrow> u64 \<Rightarrow> IncidentId option list" where
  "generate_many 0 salt counter = []"
| "generate_many (Suc n) salt counter =
     (case placeholder_generate salt counter of (r, counter') \<Rightarrow> r # generate_many n salt counter')"

lemma to_be_bytes_inj: "to_be_bytes 8 a = to_be_bytes 8 b \<longleftrightarrow> a = (b :: u64)"
proof -
  have "from_be_bytes (to_be_bytes 8 a) = a" "from_be_bytes (to_be_bytes 8 b) = b"
    by (simp_all add: from_be_to_be_bytes)
  then show ?thesis by metis
qed

lemma mix_inj: "mix salt s = mix salt s' \<longleftrightarrow> s = s'"
proof
  assume "mix salt s = mix salt s'"
  then have "s XOR (rotate_left salt 29 * 0xBF58476D1CE4E5B9) = s' XOR (rotate_left salt 29 * 0xBF58476D1CE4E5B9)"
    by (simp add: mix_def Let_def to_be_bytes_inj)
  then show "s = s'" by (intro bit_word_eqI) (metis bit_xor_iff)
qed simp

lemma checked_increment_next:
  "checked_increment c = (Some s, c') \<Longrightarrow> s = c \<and> unat c' = Suc (unat c)"
  using unatSuc[of c] by (auto simp: checked_increment_def add.commute add_eq_0_iff split: if_splits)

lemma generate_many_later:
  "Some ident \<in> set (generate_many n salt c) \<Longrightarrow> \<exists>s. unat c \<le> unat s \<and> ident = mix salt s"
proof (induction n arbitrary: c)
  case (Suc n)
  obtain r c' where inc: "checked_increment c = (r, c')" by fastforce
  show ?case
  proof (cases r)
    case None
    with inc have "c' = c" by (auto simp: checked_increment_def split: if_splits)
    with Suc inc None show ?thesis by (auto simp: placeholder_generate_def)
  next
    case (Some s)
    from checked_increment_next[OF inc[unfolded Some]] Suc inc Some show ?thesis
      by (auto simp: placeholder_generate_def dest!: Suc.IH) (metis Suc_leD)
  qed
qed simp

text \<open>
  A generator never hands out one identifier twice: among any number of calls the
  identifiers returned are pairwise different; once the counter is exhausted every call is
  refused.
\<close>

theorem generated_ids_are_distinct:
  "distinct (filter (\<lambda>r. r \<noteq> None) (generate_many n salt counter))"
proof (induction n arbitrary: counter)
  case (Suc n)
  obtain r c' where inc: "checked_increment counter = (r, c')" by fastforce
  show ?case
  proof (cases r)
    case None
    with Suc inc show ?thesis by (simp add: placeholder_generate_def)
  next
    case (Some s)
    note next_counter = checked_increment_next[OF inc[unfolded Some]]
    have "Some (mix salt s) \<notin> set (generate_many n salt c')"
      using generate_many_later[of "mix salt s" n salt c'] next_counter by (auto simp: mix_inj)
    with Suc inc Some show ?thesis by (simp add: placeholder_generate_def)
  qed
qed simp

section \<open>Separation of duties\<close>

text \<open>
  Every role bundle contains the one below it. No role, whatever its name, may ingest
  detections, record notifications, or propose or carry out mitigations; the mitigator
  itself may do neither the asking nor the approving nor the withdrawing; approval starts
  at the NOC lead and releasing the kill switch takes a platform administrator.
\<close>

theorem duties_are_separated:
  "set (permissions_for ''viewer'') \<subseteq> set (permissions_for ''operator'') \<and>
   set (permissions_for ''operator'') \<subseteq> set (permissions_for ''senior_operator'') \<and>
   set (permissions_for ''senior_operator'') \<subseteq> set (permissions_for ''noc_lead'') \<and>
   set (permissions_for ''noc_lead'') \<subseteq> set (permissions_for ''platform_admin'') \<and>
   set (permissions_for role) \<inter>
     {IncidentIngest, IncidentNotificationRecord, MitigationPropose, MitigationExecute} = {} \<and>
   {p. has (mitigator tenant consumer) p} \<inter>
     {MitigationRequestPermission, MitigationApprove, MitigationWithdraw} = {} \<and>
   (MitigationApprove \<in> set (permissions_for role)) = (role \<in> {''noc_lead'', ''platform_admin''}) \<and>
   (MitigationKillSwitchRelease \<in> set (permissions_for role)) = (role = ''platform_admin'')"
proof (intro conjI)
  show "{p. has (mitigator tenant consumer) p} \<inter>
      {MitigationRequestPermission, MitigationApprove, MitigationWithdraw} = {}"
    by (auto simp: has_def mitigator_def)
qed (simp_all add: permissions_for_def Let_def)

end
