(* ===== verification/Mitigation_Guard.thy ===== *)
theory Mitigation_Guard
  imports Authorization
begin

text \<open>
  What a mitigation may cover and do: canonical prefixes (\<open>src/crates/mitigation/src/prefix.rs\<close>),
  actions (\<open>action.rs\<close>) and the safety guard (\<open>guard.rs\<close>). \<open>Duration\<close> values are
  nanoseconds. The fields of a prefix are private in the source and \<open>Prefix::new\<close> is the only
  constructor; \<open>prefix_ok\<close> is what it guarantees.
\<close>

section \<open>Prefixes\<close>

record Prefix =
  px_address :: IpAddr
  px_length :: u8

datatype PrefixError = PrefixForm | PrefixAddress | PrefixLength | HostBits string

primrec max_length :: "IpAddr \<Rightarrow> u8" where
  "max_length (V4 a) = 32"
| "max_length (V6 a) = 128"

primrec prefix_mask :: "IpAddr \<Rightarrow> u8 \<Rightarrow> IpAddr" where
  "prefix_mask (V4 v4) len =
     V4 (if len = 0 then 0 else v4 AND push_bit (unat (32 - ucast len :: u32)) (- 1))"
| "prefix_mask (V6 v6) len =
     V6 (if len = 0 then 0 else v6 AND push_bit (unat (128 - ucast len :: u32)) (- 1))"

definition new_prefix :: "IpAddr \<Rightarrow> u8 \<Rightarrow> PrefixError + Prefix" where
  "new_prefix address len =
     (if len > max_length address then Inl PrefixLength
      else let masked = prefix_mask address len in
        if masked \<noteq> address then Inl (HostBits (show_ip masked @ ''/'' @ show_nat (unat len)))
        else Inr \<lparr>px_address = address, px_length = len\<rparr>)"

definition prefix_is_ipv4 :: "Prefix \<Rightarrow> bool" where
  "prefix_is_ipv4 p = is_ipv4 (px_address p)"

definition prefix_max_length :: "Prefix \<Rightarrow> u8" where
  "prefix_max_length p = max_length (px_address p)"

definition is_host :: "Prefix \<Rightarrow> bool" where
  "is_host p = (px_length p = prefix_max_length p)"

definition prefix_contains :: "Prefix \<Rightarrow> Prefix \<Rightarrow> bool" where
  "prefix_contains p other =
     (is_ipv4 (px_address p) = is_ipv4 (px_address other) \<and> px_length other \<ge> px_length p \<and>
      prefix_mask (px_address other) (px_length p) = px_address p)"

definition show_prefix :: "Prefix \<Rightarrow> string" where
  "show_prefix p = show_ip (px_address p) @ ''/'' @ show_nat (unat (px_length p))"

section \<open>Actions\<close>

definition MAX_RATE_BYTES_PER_SECOND :: u64 where
  "MAX_RATE_BYTES_PER_SECOND = 12500000000"

datatype ActionKind = KindRtbh | KindParentPrefix | KindFlowspecDiscard | KindFlowspecRateLimit

primrec kind_as_str :: "ActionKind \<Rightarrow> string" where
  "kind_as_str KindRtbh = ''rtbh''"
| "kind_as_str KindParentPrefix = ''parent_prefix''"
| "kind_as_str KindFlowspecDiscard = ''flowspec_discard''"
| "kind_as_str KindFlowspecRateLimit = ''flowspec_rate_limit''"

definition parse_kind :: "string \<Rightarrow> ActionKind option" where
  "parse_kind s = find (\<lambda>kind. kind_as_str kind = s)
     [KindRtbh, KindParentPrefix, KindFlowspecDiscard, KindFlowspecRateLimit]"

definition is_flowspec :: "ActionKind \<Rightarrow> bool" where
  "is_flowspec k = (k = KindFlowspecDiscard \<or> k = KindFlowspecRateLimit)"

record FlowMatch =
  fm_protocol :: "u8 option"
  fm_source :: "Prefix option"
  fm_source_port :: "u16 option"
  fm_destination_port :: "u16 option"

definition default_flow :: FlowMatch where
  "default_flow = \<lparr>fm_protocol = None, fm_source = None, fm_source_port = None, fm_destination_port = None\<rparr>"

definition flow_part :: "string \<Rightarrow> string option \<Rightarrow> string" where
  "flow_part name v = (case v of None \<Rightarrow> [] | Some v \<Rightarrow> name @ ''='' @ v @ '';'')"

definition canonical :: "FlowMatch \<Rightarrow> string" where
  "canonical f =
     concat [flow_part ''proto'' (map_option (show_nat \<circ> unat) (fm_protocol f)),
       flow_part ''src'' (map_option show_prefix (fm_source f)),
       flow_part ''sport'' (map_option (show_nat \<circ> unat) (fm_source_port f)),
       flow_part ''dport'' (map_option (show_nat \<circ> unat) (fm_destination_port f))]"

datatype Action = Rtbh | ParentPrefix | FlowspecDiscard FlowMatch | FlowspecRateLimit FlowMatch u64

datatype ActionError = RtbhNotHost | ParentIsHost | PortsWithoutTransport | SourceFamily | RateError | NotFlowspec

primrec action_error_text :: "ActionError \<Rightarrow> string" where
  "action_error_text RtbhNotHost = ''RTBH blackholes one host: the prefix must be a /32 or /128''"
| "action_error_text ParentIsHost =
     ''a parent-prefix announcement covers more than one host: use RTBH for a /32 or /128''"
| "action_error_text PortsWithoutTransport = ''ports are matched only for TCP (6) or UDP (17)''"
| "action_error_text SourceFamily =
     ''the source prefix is not the same address family as the destination''"
| "action_error_text RateError =
     ''a rate-limit needs a rate above zero and at most 12500000000 bytes per second; zero is a discard''"
| "action_error_text NotFlowspec = ''only FlowSpec actions take a match or a rate''"

definition from_parts :: "ActionKind \<Rightarrow> FlowMatch option \<Rightarrow> u64 option \<Rightarrow> ActionError + Action" where
  "from_parts kind flow bytes_per_second =
     (if (kind = KindRtbh \<or> kind = KindParentPrefix) \<and> (flow \<noteq> None \<or> bytes_per_second \<noteq> None)
      then Inl NotFlowspec
      else let unwrapped = (case flow of None \<Rightarrow> default_flow | Some f \<Rightarrow> f) in
        case kind of
          KindRtbh \<Rightarrow> Inr Rtbh
        | KindParentPrefix \<Rightarrow> Inr ParentPrefix
        | KindFlowspecDiscard \<Rightarrow>
            if bytes_per_second \<noteq> None then Inl RateError else Inr (FlowspecDiscard unwrapped)
        | KindFlowspecRateLimit \<Rightarrow>
            bind_res (ok_or bytes_per_second RateError) (\<lambda>rate. Inr (FlowspecRateLimit unwrapped rate)))"

primrec action_kind :: "Action \<Rightarrow> ActionKind" where
  "action_kind Rtbh = KindRtbh"
| "action_kind ParentPrefix = KindParentPrefix"
| "action_kind (FlowspecDiscard f) = KindFlowspecDiscard"
| "action_kind (FlowspecRateLimit f rate) = KindFlowspecRateLimit"

primrec action_flow :: "Action \<Rightarrow> FlowMatch option" where
  "action_flow Rtbh = None"
| "action_flow ParentPrefix = None"
| "action_flow (FlowspecDiscard f) = Some f"
| "action_flow (FlowspecRateLimit f rate) = Some f"

primrec action_bytes_per_second :: "Action \<Rightarrow> u64 option" where
  "action_bytes_per_second Rtbh = None"
| "action_bytes_per_second ParentPrefix = None"
| "action_bytes_per_second (FlowspecDiscard f) = None"
| "action_bytes_per_second (FlowspecRateLimit f rate) = Some rate"

definition validate_flow :: "FlowMatch \<Rightarrow> Prefix \<Rightarrow> ActionError + unit" where
  "validate_flow flow prefix =
     (let ports = (fm_source_port flow \<noteq> None \<or> fm_destination_port flow \<noteq> None) in
      if ports \<and> \<not> (fm_protocol flow = Some 6 \<or> fm_protocol flow = Some 17)
      then Inl PortsWithoutTransport
      else case fm_source flow of
        Some source \<Rightarrow> if prefix_is_ipv4 source \<noteq> prefix_is_ipv4 prefix then Inl SourceFamily else Inr ()
      | None \<Rightarrow> Inr ())"

definition validate_for :: "Action \<Rightarrow> Prefix \<Rightarrow> ActionError + unit" where
  "validate_for action prefix =
     (case action of
        Rtbh \<Rightarrow> if \<not> is_host prefix then Inl RtbhNotHost else Inr ()
      | ParentPrefix \<Rightarrow> if is_host prefix then Inl ParentIsHost else Inr ()
      | FlowspecDiscard flow \<Rightarrow> validate_flow flow prefix
      | FlowspecRateLimit flow rate \<Rightarrow>
          if rate = 0 \<or> rate > MAX_RATE_BYTES_PER_SECOND then Inl RateError
          else validate_flow flow prefix)"

definition action_duplicate_key :: "Action \<Rightarrow> Prefix \<Rightarrow> string" where
  "action_duplicate_key action prefix =
     kind_as_str (action_kind action) @ ''|'' @ show_prefix prefix @ ''|'' @
     (case action_flow action of None \<Rightarrow> [] | Some f \<Rightarrow> canonical f)"

section \<open>The guard\<close>

definition MIN_DURATION :: nat where "MIN_DURATION = 60 * 10 ^ 9"
definition MAX_DURATION :: nat where "MAX_DURATION = 7 * 24 * 3600 * 10 ^ 9"

definition IPV4_FLOOR :: u8 where "IPV4_FLOOR = 16"
definition IPV6_FLOOR :: u8 where "IPV6_FLOOR = 32"

record MinLength =
  ml_ipv4 :: u8
  ml_ipv6 :: u8

definition default_min_length :: MinLength where
  "default_min_length = \<lparr>ml_ipv4 = 24, ml_ipv6 = 48\<rparr>"

record AllowlistEntry =
  ae_prefix :: Prefix
  ae_tenant :: rust_str
  ae_actions :: "ActionKind list"

record GuardConfig =
  gc_dry_run :: bool
  gc_bgp_enabled :: bool
  gc_kill_switch :: bool
  gc_max_duration_seconds :: u64
  gc_approval_window_seconds :: u64
  gc_allow_self_approval :: bool
  gc_min_length :: MinLength
  gc_allowlist :: "AllowlistEntry list"

definition default_guard_config :: GuardConfig where
  "default_guard_config = \<lparr>gc_dry_run = True, gc_bgp_enabled = False, gc_kill_switch = False,
     gc_max_duration_seconds = 3600, gc_approval_window_seconds = 900,
     gc_allow_self_approval = False, gc_min_length = default_min_length, gc_allowlist = []\<rparr>"

datatype ConfigError =
    ConfigMinLength string
  | ConfigMaxDuration
  | ConfigApprovalWindow
  | EntryTooWide Prefix
  | EntryEmpty Prefix
  | Overlap Prefix Prefix

datatype GuardRefusal =
    KillSwitch
  | NotAllowlisted Prefix
  | ActionNotAllowed ActionKind Prefix
  | TooWide Prefix u8
  | TooLong u64

primrec refusal_code :: "GuardRefusal \<Rightarrow> string" where
  "refusal_code KillSwitch = ''mitigation.kill_switch''"
| "refusal_code (NotAllowlisted p) = ''mitigation.not_allowlisted''"
| "refusal_code (ActionNotAllowed k p) = ''mitigation.action_not_allowed''"
| "refusal_code (TooWide p n) = ''mitigation.too_wide''"
| "refusal_code (TooLong n) = ''mitigation.too_long''"

record Guard =
  gd_config :: GuardConfig

definition floor_of :: "Prefix \<Rightarrow> u8" where
  "floor_of p = (if prefix_is_ipv4 p then IPV4_FLOOR else IPV6_FLOOR)"

text \<open>The two loops over the allowlist in \<open>Guard::new\<close>.\<close>

fun check_entries :: "AllowlistEntry list \<Rightarrow> ConfigError + unit" where
  "check_entries [] = Inr ()"
| "check_entries (e # es) =
     (if px_length (ae_prefix e) < floor_of (ae_prefix e) then Inl (EntryTooWide (ae_prefix e))
      else if trim (ae_tenant e) = [] \<or> ae_actions e = [] then Inl (EntryEmpty (ae_prefix e))
      else check_entries es)"

definition entries_overlap :: "AllowlistEntry \<Rightarrow> AllowlistEntry \<Rightarrow> bool" where
  "entries_overlap a b =
     (prefix_contains (ae_prefix a) (ae_prefix b) \<or> prefix_contains (ae_prefix b) (ae_prefix a))"

fun check_overlaps :: "AllowlistEntry list \<Rightarrow> ConfigError + unit" where
  "check_overlaps [] = Inr ()"
| "check_overlaps (a # rest) =
     (case find (\<lambda>b. entries_overlap a b \<and> ae_tenant a \<noteq> ae_tenant b) rest of
        Some b \<Rightarrow> Inl (Overlap (ae_prefix a) (ae_prefix b))
      | None \<Rightarrow> check_overlaps rest)"

definition new_guard :: "GuardConfig \<Rightarrow> ConfigError + Guard" where
  "new_guard config =
     (let min = gc_min_length config in
      if \<not> (IPV4_FLOOR \<le> ml_ipv4 min \<and> ml_ipv4 min \<le> 32) then
        Inl (ConfigMinLength (''ipv4 /'' @ show_nat (unat (ml_ipv4 min))))
      else if \<not> (IPV6_FLOOR \<le> ml_ipv6 min \<and> ml_ipv6 min \<le> 128) then
        Inl (ConfigMinLength (''ipv6 /'' @ show_nat (unat (ml_ipv6 min))))
      else let max = unat (gc_max_duration_seconds config) * 10 ^ 9 in
      if max < MIN_DURATION \<or> max > MAX_DURATION then Inl ConfigMaxDuration
      else if \<not> (60 \<le> gc_approval_window_seconds config \<and> gc_approval_window_seconds config \<le> 86400) then
        Inl ConfigApprovalWindow
      else bind_res (check_entries (gc_allowlist config)) (\<lambda>_.
        bind_res (check_overlaps (gc_allowlist config)) (\<lambda>_. Inr \<lparr>gd_config = config\<rparr>)))"

definition effective_dry_run :: "Guard \<Rightarrow> bool" where
  "effective_dry_run g = (gc_dry_run (gd_config g) \<or> \<not> gc_bgp_enabled (gd_config g))"

record ApprovalPolicy =
  ap_allow_self_approval :: bool

definition approval_policy :: "Guard \<Rightarrow> ApprovalPolicy" where
  "approval_policy g = \<lparr>ap_allow_self_approval = gc_allow_self_approval (gd_config g)\<rparr>"

definition approval_window :: "Guard \<Rightarrow> nat" where
  "approval_window g = unat (gc_approval_window_seconds (gd_config g)) * 10 ^ 9"

text \<open>\<open>Iterator::max_by_key\<close>: the last of the entries with the greatest length.\<close>

fun max_by_length :: "AllowlistEntry list \<Rightarrow> AllowlistEntry option" where
  "max_by_length [] = None"
| "max_by_length (x # xs) =
     (case max_by_length xs of
        None \<Rightarrow> Some x
      | Some y \<Rightarrow> if px_length (ae_prefix x) > px_length (ae_prefix y) then Some x else Some y)"

definition guard_check ::
    "Guard \<Rightarrow> TenantId \<Rightarrow> Prefix \<Rightarrow> Action \<Rightarrow> nat \<Rightarrow> bool \<Rightarrow> GuardRefusal + unit" where
  "guard_check g tenant prefix action duration kill_switch =
     (let config = gd_config g in
      if kill_switch \<or> gc_kill_switch config then Inl KillSwitch
      else case max_by_length (filter (\<lambda>e. prefix_contains (ae_prefix e) prefix) (gc_allowlist config)) of
        None \<Rightarrow> Inl (NotAllowlisted prefix)
      | Some entry \<Rightarrow>
          if ae_tenant entry \<noteq> tenant_as_str tenant then Inl (NotAllowlisted prefix)
          else let kind = action_kind action;
                   min = (if prefix_is_ipv4 prefix then ml_ipv4 (gc_min_length config)
                          else ml_ipv6 (gc_min_length config)) in
            if kind \<notin> set (ae_actions entry) then Inl (ActionNotAllowed kind prefix)
            else if \<not> is_host prefix \<and> px_length prefix < min then Inl (TooWide prefix min)
            else case Option.bind (action_flow action) fm_source of
              Some source \<Rightarrow>
                if px_length source = 0 then Inl (TooWide source 1)
                else if duration div 10 ^ 9 > unat (gc_max_duration_seconds config)
                     then Inl (TooLong (gc_max_duration_seconds config)) else Inr ()
            | None \<Rightarrow>
                if duration div 10 ^ 9 > unat (gc_max_duration_seconds config)
                then Inl (TooLong (gc_max_duration_seconds config)) else Inr ())"

section \<open>Prefix containment\<close>

definition prefix_ok :: "Prefix \<Rightarrow> bool" where
  "prefix_ok p = (new_prefix (px_address p) (px_length p) = Inr p)"

lemma not_mask_high_bits: "NOT (mask k) = (high_bits k :: 'a::len word)"
  by (rule bit_word_eqI) (auto simp: bit_not_iff bit_mask_iff bit_high_bits)

lemma prefix_mask_leading:
  assumes "len \<le> max_length a"
  shows "prefix_mask a len = leading (unat len) a"
proof (cases a)
  case (V4 x)
  then have "unat (32 - ucast len :: u32) = 32 - unat len"
    using assms unat_width_minus[of len 32] by (simp add: word_le_nat_alt)
  then show ?thesis using V4 by (auto simp: not_mask_high_bits) (simp add: high_bits_def checked_shl_def)
next
  case (V6 x)
  then have "unat (128 - ucast len :: u32) = 128 - unat len"
    using assms unat_width_minus[of len 128] by (simp add: word_le_nat_alt)
  then show ?thesis using V6 by (auto simp: not_mask_high_bits) (simp add: high_bits_def checked_shl_def)
qed

lemma prefix_ok_iff:
  "prefix_ok p \<longleftrightarrow> px_length p \<le> max_length (px_address p) \<and>
     leading (unat (px_length p)) (px_address p) = px_address p"
  by (auto simp: prefix_ok_def new_prefix_def Let_def prefix_mask_leading not_less)

lemma max_length_same: "is_ipv4 a = is_ipv4 b \<Longrightarrow> max_length a = max_length b"
  by (cases a; cases b) simp_all

lemma prefix_contains_iff:
  assumes "prefix_ok p"
  shows "prefix_contains p q \<longleftrightarrow>
    px_length p \<le> px_length q \<and> leading_eq (unat (px_length p)) (px_address q) (px_address p)"
proof (cases "is_ipv4 (px_address p) = is_ipv4 (px_address q)")
  case True
  then have "px_length p \<le> max_length (px_address q)"
    using assms max_length_same[OF True] by (simp add: prefix_ok_iff)
  then show ?thesis
    using assms by (simp add: prefix_contains_def prefix_ok_iff leading_eq_iff prefix_mask_leading) blast
next
  case False
  then show ?thesis using leading_eq_family by (auto simp: prefix_contains_def)
qed

lemma prefix_contains_trans:
  assumes "prefix_ok p" "prefix_ok q" "prefix_contains p q" "prefix_contains q r"
  shows "prefix_contains p r"
proof -
  have "px_length p \<le> px_length q" "px_length q \<le> px_length r"
    and "leading_eq (unat (px_length p)) (px_address q) (px_address p)"
    and "leading_eq (unat (px_length q)) (px_address r) (px_address q)"
    using assms by (simp_all add: prefix_contains_iff)
  moreover from this have "leading_eq (unat (px_length p)) (px_address r) (px_address q)"
    by (meson leading_eq_mono word_le_nat_alt)
  ultimately show ?thesis
    using assms(1) by (meson leading_eq_trans order_trans prefix_contains_iff)
qed

lemma containing_prefixes_ordered:
  assumes "prefix_ok p" "prefix_ok q" "prefix_contains p r" "prefix_contains q r"
    "px_length p \<le> px_length q"
  shows "prefix_contains p q"
proof -
  have "leading_eq (unat (px_length p)) (px_address r) (px_address p)"
    and "leading_eq (unat (px_length q)) (px_address r) (px_address q)"
    using assms by (simp_all add: prefix_contains_iff)
  moreover from this have "leading_eq (unat (px_length p)) (px_address q) (px_address r)"
    using assms(5) by (meson leading_eq_mono leading_eq_sym word_le_nat_alt)
  ultimately show ?thesis
    using assms(1,5) by (meson leading_eq_trans prefix_contains_iff)
qed

lemma containing_prefixes_nest:
  assumes "prefix_ok p" "prefix_ok q" "prefix_contains p r" "prefix_contains q r"
  shows "prefix_contains p q \<or> prefix_contains q p"
  using containing_prefixes_ordered assms by (metis linear)

section \<open>What a checked configuration guarantees\<close>

lemma check_entries_ok:
  "check_entries es = Inr () \<longleftrightarrow>
     (\<forall>e\<in>set es. floor_of (ae_prefix e) \<le> px_length (ae_prefix e) \<and>
        trim (ae_tenant e) \<noteq> [] \<and> ae_actions e \<noteq> [])"
  by (induction es) (auto simp: not_less)

lemma entries_overlap_sym: "entries_overlap a b \<longleftrightarrow> entries_overlap b a"
  by (auto simp: entries_overlap_def)

lemma check_overlaps_ok:
  "check_overlaps es = Inr () \<Longrightarrow> a \<in> set es \<Longrightarrow> b \<in> set es \<Longrightarrow> entries_overlap a b \<Longrightarrow>
     ae_tenant a = ae_tenant b"
proof (induction es)
  case (Cons c es)
  have rest: "check_overlaps es = Inr ()"
    and apart: "\<And>d. d \<in> set es \<Longrightarrow> entries_overlap c d \<Longrightarrow> ae_tenant c = ae_tenant d"
    using Cons.prems(1) by (auto split: option.splits simp: find_None_iff)
  show ?case
    using Cons.prems(2-4) Cons.IH[OF rest] apart entries_overlap_sym[of a b]
    by (metis set_ConsD)
qed simp

lemma max_by_length_member:
  "max_by_length es = Some e \<Longrightarrow> e \<in> set es \<and> (\<forall>x\<in>set es. px_length (ae_prefix x) \<le> px_length (ae_prefix e))"
proof (induction es arbitrary: e)
  case (Cons a es)
  show ?case
  proof (cases "max_by_length es")
    case None
    then have "es = []" by (cases es) (auto split: option.splits if_splits)
    with Cons.prems show ?thesis by simp
  next
    case (Some y)
    with Cons.IH[OF Some] Cons.prems show ?thesis by (auto split: if_splits)
  qed
qed simp

lemma new_guard_ok:
  assumes "new_guard c = Inr g"
  shows "g = \<lparr>gd_config = c\<rparr> \<and> IPV4_FLOOR \<le> ml_ipv4 (gc_min_length c) \<and>
    IPV6_FLOOR \<le> ml_ipv6 (gc_min_length c) \<and>
    unat (gc_max_duration_seconds c) * 10 ^ 9 \<le> MAX_DURATION \<and>
    check_entries (gc_allowlist c) = Inr () \<and> check_overlaps (gc_allowlist c) = Inr ()"
  using assms unfolding new_guard_def Let_def
  by (simp split: if_split_asm add: bind_res_eq_Inr not_less)

lemma guard_check_ok:
  assumes "guard_check g tenant p a d ks = Inr ()"
  shows "\<not> ks \<and> \<not> gc_kill_switch (gd_config g) \<and>
    d div 10 ^ 9 \<le> unat (gc_max_duration_seconds (gd_config g)) \<and>
    (is_host p \<or> (if prefix_is_ipv4 p then ml_ipv4 (gc_min_length (gd_config g))
       else ml_ipv6 (gc_min_length (gd_config g))) \<le> px_length p) \<and>
    (\<exists>e. max_by_length (filter (\<lambda>e. prefix_contains (ae_prefix e) p) (gc_allowlist (gd_config g))) = Some e \<and>
       ae_tenant e = tenant_as_str tenant \<and> action_kind a \<in> set (ae_actions e))"
  using assms unfolding guard_check_def Let_def
  by (simp split: if_split_asm option.split_asm add: not_less)

lemma guard_check_chosen:
  assumes "guard_check g tenant p a d ks = Inr ()"
  obtains e where "e \<in> set (gc_allowlist (gd_config g))" "prefix_contains (ae_prefix e) p"
    "ae_tenant e = tenant_as_str tenant" "action_kind a \<in> set (ae_actions e)"
  using guard_check_ok[OF assms] max_by_length_member by fastforce

lemma floor_of_same: "prefix_is_ipv4 p = prefix_is_ipv4 q \<Longrightarrow> floor_of p = floor_of q"
  by (simp add: floor_of_def)

lemma equal_covering_entries:
  assumes "prefix_ok p" "prefix_ok q" "prefix_contains p r" "prefix_contains q r"
    "px_length p = px_length q"
  shows "p = q"
proof -
  have "prefix_contains p q" using containing_prefixes_ordered[OF assms(1-4)] assms(5) by simp
  then have "prefix_mask (px_address q) (px_length q) = px_address p"
    using assms(5) by (simp add: prefix_contains_def)
  then have "px_address q = px_address p"
    using assms(2) by (simp add: prefix_ok_iff prefix_mask_leading)
  then show ?thesis using assms(5) by simp
qed

lemma max_by_length_unique:
  assumes "e \<in> set es" "\<forall>x\<in>set es. px_length (ae_prefix x) \<le> px_length (ae_prefix e)"
    "\<And>x. x \<in> set es \<Longrightarrow> px_length (ae_prefix x) = px_length (ae_prefix e) \<Longrightarrow> x = e"
  shows "max_by_length es = Some e"
proof (cases "max_by_length es")
  case None
  with assms(1) show ?thesis by (cases es) (auto split: option.splits if_splits)
next
  case (Some y)
  from max_by_length_member[OF this] assms(1,2) have "y \<in> set es"
    and "px_length (ae_prefix y) = px_length (ae_prefix e)" by (auto intro: antisym)
  with assms(3) Some show ?thesis by simp
qed

text \<open>
  Property C15. Isolation and bounds of the safety guard. If a validated configuration admits an
  action of a tenant on a prefix, then no switch is on, some allowlist entry of that same tenant
  covers the prefix and permits the action, no address space of an entry naming another tenant
  is touched (neither contains the other), the prefix is never wider than the fixed floor of its
  family, and the duration exceeds the seven day maximum by less than one second.\<close>

theorem guard_never_crosses_tenants:
  assumes "new_guard c = Inr g" "\<forall>e\<in>set (gc_allowlist c). prefix_ok (ae_prefix e)" "prefix_ok p"
    and "guard_check g tenant p a d ks = Inr ()"
  shows "\<not> ks \<and> \<not> gc_kill_switch c \<and>
    (\<exists>e\<in>set (gc_allowlist c). ae_tenant e = tenant_as_str tenant \<and>
       prefix_contains (ae_prefix e) p \<and> action_kind a \<in> set (ae_actions e)) \<and>
    (\<forall>e\<in>set (gc_allowlist c). ae_tenant e \<noteq> tenant_as_str tenant \<longrightarrow>
       \<not> prefix_contains (ae_prefix e) p \<and> \<not> prefix_contains p (ae_prefix e)) \<and>
    floor_of p \<le> px_length p \<and> d < MAX_DURATION + 10 ^ 9"
proof -
  note conf = new_guard_ok[OF assms(1)]
  note passed = guard_check_ok[OF assms(4)]
  obtain e where e: "e \<in> set (gc_allowlist c)" "prefix_contains (ae_prefix e) p"
      "ae_tenant e = tenant_as_str tenant" "action_kind a \<in> set (ae_actions e)"
    using guard_check_chosen[OF assms(4)] conf by auto
  have apart: "\<not> prefix_contains (ae_prefix f) p \<and> \<not> prefix_contains p (ae_prefix f)"
    if f: "f \<in> set (gc_allowlist c)" "ae_tenant f \<noteq> tenant_as_str tenant" for f
  proof -
    have "\<not> entries_overlap e f" using check_overlaps_ok[of "gc_allowlist c" e f] conf e f by auto
    then show ?thesis
      using containing_prefixes_nest prefix_contains_trans e f assms(2,3)
      unfolding entries_overlap_def by blast
  qed
  have "floor_of (ae_prefix e) \<le> px_length (ae_prefix e)"
    using conf e(1) check_entries_ok by blast
  then have "floor_of p \<le> px_length p"
    using e(2) floor_of_same[of "ae_prefix e" p]
    by (auto simp: prefix_contains_def prefix_is_ipv4_def intro: order_trans)
  moreover have "d div 10 ^ 9 \<le> 604800"
    using conf passed by (auto simp: MAX_DURATION_def)
  then have "d < MAX_DURATION + 10 ^ 9" by (simp add: MAX_DURATION_def)
  ultimately show ?thesis using passed conf e apart by auto
qed

definition acme_net :: Prefix where "acme_net = \<lparr>px_address = V4 0xC0000200, px_length = 24\<rparr>"
definition other_net :: Prefix where "other_net = \<lparr>px_address = V4 0xC6336400, px_length = 24\<rparr>"
definition one_host :: Prefix where "one_host = \<lparr>px_address = V4 0xC0000207, px_length = 32\<rparr>"

definition two_tenants :: GuardConfig where
  "two_tenants = default_guard_config\<lparr>gc_allowlist :=
     [\<lparr>ae_prefix = acme_net, ae_tenant = lit ''acme'', ae_actions = [KindRtbh]\<rparr>,
      \<lparr>ae_prefix = other_net, ae_tenant = lit ''other'', ae_actions = [KindRtbh]\<rparr>]\<rparr>"

lemma sample_prefixes:
  "prefix_ok acme_net" "prefix_ok other_net" "prefix_ok one_host"
  "prefix_contains acme_net one_host" "\<not> prefix_contains other_net one_host"
  "\<not> prefix_contains acme_net other_net" "\<not> prefix_contains other_net acme_net"
  "acme_net \<noteq> other_net" "is_host one_host"
  "floor_of acme_net \<le> px_length acme_net" "floor_of other_net \<le> px_length other_net"
  by (simp_all add: acme_net_def other_net_def one_host_def prefix_ok_def new_prefix_def
      prefix_contains_def is_host_def prefix_max_length_def floor_of_def prefix_is_ipv4_def
      IPV4_FLOOR_def mask_eq_exp_minus_1)

lemma sample_names:
  "trim (lit ''acme'') \<noteq> []" "trim (lit ''other'') \<noteq> []" "lit ''acme'' \<noteq> lit ''other''"
  by (simp_all add: trim_def lit_def is_whitespace_def)

lemma two_tenants_valid: "new_guard two_tenants = Inr \<lparr>gd_config = two_tenants\<rparr>"
  by (simp add: new_guard_def two_tenants_def default_guard_config_def default_min_length_def
      IPV4_FLOOR_def IPV6_FLOOR_def MIN_DURATION_def MAX_DURATION_def entries_overlap_def
      not_less[THEN iffD2] sample_prefixes sample_names leD)

theorem guard_never_crosses_tenants_witness:
  "floor_of one_host \<le> px_length one_host \<and> \<not> prefix_contains one_host other_net"
proof -
  have "\<forall>e\<in>set (gc_allowlist two_tenants). prefix_ok (ae_prefix e)"
    "guard_check \<lparr>gd_config = two_tenants\<rparr> (TenantId (lit ''acme'')) one_host Rtbh (60 * 10 ^ 9) False = Inr ()"
    by (simp_all add: two_tenants_def default_guard_config_def guard_check_def sample_prefixes)
  from guard_never_crosses_tenants[OF two_tenants_valid this(1) sample_prefixes(3) this(2)]
  show ?thesis using sample_names(3) by (simp add: two_tenants_def)
qed

text \<open>
  Property C16. The guard decides exactly by the most specific entry. With no prefix listed twice,
  a request is admitted if and only if no kill switch is on, the longest allowlist entry covering
  the prefix names the tenant and permits the action, a prefix of more than one host has at least
  the configured length, a FlowSpec source match is not a whole address family, and the
  duration in whole seconds is within the configured maximum.\<close>

theorem guard_admits_exactly:
  assumes "new_guard c = Inr g" "\<forall>e\<in>set (gc_allowlist c). prefix_ok (ae_prefix e)"
    and "distinct (map ae_prefix (gc_allowlist c))"
  shows "guard_check g tenant p a d ks = Inr () \<longleftrightarrow>
    \<not> ks \<and> \<not> gc_kill_switch c \<and>
    (\<exists>e\<in>set (gc_allowlist c). prefix_contains (ae_prefix e) p \<and>
       ae_tenant e = tenant_as_str tenant \<and> action_kind a \<in> set (ae_actions e) \<and>
       (\<forall>f\<in>set (gc_allowlist c). prefix_contains (ae_prefix f) p \<longrightarrow>
          px_length (ae_prefix f) \<le> px_length (ae_prefix e))) \<and>
    (\<not> is_host p \<longrightarrow> (if prefix_is_ipv4 p then ml_ipv4 (gc_min_length c)
       else ml_ipv6 (gc_min_length c)) \<le> px_length p) \<and>
    (\<forall>flow source. action_flow a = Some flow \<and> fm_source flow = Some source \<longrightarrow> px_length source \<noteq> 0) \<and>
    d div 10 ^ 9 \<le> unat (gc_max_duration_seconds c)"
proof -
  let ?covering = "filter (\<lambda>e. prefix_contains (ae_prefix e) p) (gc_allowlist c)"
  have config: "gd_config g = c" using new_guard_ok[OF assms(1)] by simp
  have chosen: "max_by_length ?covering = Some e \<longleftrightarrow>
      e \<in> set ?covering \<and> (\<forall>f\<in>set ?covering. px_length (ae_prefix f) \<le> px_length (ae_prefix e))" for e
  proof
    assume e: "e \<in> set ?covering \<and> (\<forall>f\<in>set ?covering. px_length (ae_prefix f) \<le> px_length (ae_prefix e))"
    have "x = e" if "x \<in> set ?covering" "px_length (ae_prefix x) = px_length (ae_prefix e)" for x
      using equal_covering_entries[of "ae_prefix x" "ae_prefix e" p] that e assms(2,3)
      by (auto simp: distinct_map inj_on_def)
    with e show "max_by_length ?covering = Some e" by (intro max_by_length_unique) auto
  qed (rule max_by_length_member)
  have source: "(\<forall>flow source. action_flow a = Some flow \<and> fm_source flow = Some source \<longrightarrow> px_length source \<noteq> 0)
      \<longleftrightarrow> (case Option.bind (action_flow a) fm_source of None \<Rightarrow> True | Some s \<Rightarrow> px_length s \<noteq> 0)"
    by (cases "action_flow a") (auto split: option.splits)
  have "guard_check g tenant p a d ks = Inr () \<longleftrightarrow>
    \<not> ks \<and> \<not> gc_kill_switch c \<and>
    (\<exists>e. max_by_length ?covering = Some e \<and> ae_tenant e = tenant_as_str tenant \<and> action_kind a \<in> set (ae_actions e)) \<and>
    (\<not> is_host p \<longrightarrow> (if prefix_is_ipv4 p then ml_ipv4 (gc_min_length c)
       else ml_ipv6 (gc_min_length c)) \<le> px_length p) \<and>
    (case Option.bind (action_flow a) fm_source of None \<Rightarrow> True | Some s \<Rightarrow> px_length s \<noteq> 0) \<and>
    d div 10 ^ 9 \<le> unat (gc_max_duration_seconds c)"
    unfolding guard_check_def Let_def config
    by (cases "max_by_length ?covering"; cases "Option.bind (action_flow a) fm_source")
       (simp_all add: not_less, auto)
  then show ?thesis unfolding chosen source by auto
qed

theorem guard_admits_exactly_witness:
  "guard_check \<lparr>gd_config = two_tenants\<rparr> (TenantId (lit ''acme'')) one_host ParentPrefix (60 * 10 ^ 9) False \<noteq> Inr ()"
proof -
  have "\<forall>e\<in>set (gc_allowlist two_tenants). prefix_ok (ae_prefix e)"
    "distinct (map ae_prefix (gc_allowlist two_tenants))"
    by (simp_all add: two_tenants_def sample_prefixes)
  from guard_admits_exactly[OF two_tenants_valid this, of "TenantId (lit ''acme'')" one_host ParentPrefix "60 * 10 ^ 9" False]
  show ?thesis by (simp add: two_tenants_def)
qed

text \<open>
  A fresh install can mitigate nothing: the default configuration is valid, it
  announces nothing, and it refuses every request of every tenant.\<close>

theorem fresh_install_mitigates_nothing:
  "\<exists>g. new_guard default_guard_config = Inr g \<and> effective_dry_run g \<and>
     (\<forall>tenant p a d ks. guard_check g tenant p a d ks =
        Inl (if ks then KillSwitch else NotAllowlisted p))"
  by (simp add: new_guard_def default_guard_config_def default_min_length_def IPV4_FLOOR_def
      IPV6_FLOOR_def MIN_DURATION_def MAX_DURATION_def effective_dry_run_def guard_check_def)

end
