(* ===== verification/Lifecycle.thy ===== *)
theory Lifecycle
  imports Main
begin

text \<open>
  The contract of a lifecycle: an enumeration of states, which of them end it, and which moves
  the code permits, and what follows for whole histories. The mitigation state machine provides it;
  that of incidents does not, since its closed incidents can be opened again.
\<close>

locale lifecycle =
  fixes can_move :: "'s \<Rightarrow> 's \<Rightarrow> bool" and ended :: "'s \<Rightarrow> bool"
  assumes ended_is_final: "ended s \<Longrightarrow> \<not> can_move s t"
    and live_can_move: "\<not> ended s \<Longrightarrow> \<exists>t. can_move s t"
begin

lemma ended_iff_stuck: "ended s \<longleftrightarrow> (\<forall>t. \<not> can_move s t)"
  using ended_is_final live_can_move by blast

lemma ended_stays: "can_move\<^sup>*\<^sup>* s t \<Longrightarrow> ended s \<Longrightarrow> t = s"
  by (erule converse_rtranclpE) (auto dest: ended_is_final)

end

text \<open>A lifecycle whose moves all descend: every history is short and can be completed.\<close>

locale descending_lifecycle = lifecycle can_move ended
  for can_move :: "'s \<Rightarrow> 's \<Rightarrow> bool" and ended :: "'s \<Rightarrow> bool" +
  fixes rank :: "'s \<Rightarrow> nat"
  assumes move_descends: "can_move s t \<Longrightarrow> rank t < rank s"
begin

lemma history_length: "(can_move ^^ n) s t \<Longrightarrow> n + rank t \<le> rank s"
  by (induction n arbitrary: t) (fastforce dest: move_descends)+

lemma no_move_back: "can_move\<^sup>+\<^sup>+ s t \<Longrightarrow> rank t < rank s"
  by (induction rule: tranclp_induct) (auto dest: move_descends)

lemma can_complete: "\<exists>t. can_move\<^sup>*\<^sup>* s t \<and> ended t"
proof (induction "rank s" arbitrary: s rule: less_induct)
  case less
  show ?case
  proof (cases "ended s")
    case False
    then obtain u where u: "can_move s u" using live_can_move by blast
    with less move_descends obtain t where "can_move\<^sup>*\<^sup>* u t" "ended t" by blast
    with u show ?thesis by (meson converse_rtranclp_into_rtranclp)
  qed blast
qed

end

end
