(* ===== verification/Mitigation.thy ===== *)
theory Mitigation
  imports Mitigation_Guard Lifecycle
begin

text \<open>
  The mitigation state machine (\<open>src/crates/mitigation/src/state.rs\<close>) and the mitigation record
  with the commands that move it (\<open>mitigation.rs\<close>). A command takes the mitigation and returns
  its result beside the mitigation as it is afterwards, also when the result is an error: the
  source takes \<open>&mut self\<close>. Creating a mitigation parses an incident identifier, whose panic is
  kept apart from the errors. The version is a \<open>u64\<close> and \<open>+=\<close> on it wraps, as in a release build.
\<close>

section \<open>States\<close>

datatype MitigationState =
    Proposed | Requested | Approved | Announcing | Active | Withdrawing
  | Withdrawn | Rejected | Expired | Failed

definition ALL_STATES :: "MitigationState list" where
  "ALL_STATES = [Proposed, Requested, Approved, Announcing, Active, Withdrawing,
     Withdrawn, Rejected, Expired, Failed]"

primrec state_as_str :: "MitigationState \<Rightarrow> string" where
  "state_as_str Proposed = ''proposed''"
| "state_as_str Requested = ''requested''"
| "state_as_str Approved = ''approved''"
| "state_as_str Announcing = ''announcing''"
| "state_as_str Active = ''active''"
| "state_as_str Withdrawing = ''withdrawing''"
| "state_as_str Withdrawn = ''withdrawn''"
| "state_as_str Rejected = ''rejected''"
| "state_as_str Expired = ''expired''"
| "state_as_str Failed = ''failed''"

definition parse_state :: "string \<Rightarrow> MitigationState option" where
  "parse_state s = find (\<lambda>state. state_as_str state = s) ALL_STATES"

definition is_terminal :: "MitigationState \<Rightarrow> bool" where
  "is_terminal s = (s = Withdrawn \<or> s = Rejected \<or> s = Expired \<or> s = Failed)"

definition awaits_approval :: "MitigationState \<Rightarrow> bool" where
  "awaits_approval s = (s = Proposed \<or> s = Requested)"

definition may_hold_a_route :: "MitigationState \<Rightarrow> bool" where
  "may_hold_a_route s = (s = Announcing \<or> s = Active \<or> s = Withdrawing)"

fun can_transition_to :: "MitigationState \<Rightarrow> MitigationState \<Rightarrow> bool" where
  "can_transition_to Proposed Approved = True"
| "can_transition_to Requested Approved = True"
| "can_transition_to Proposed Rejected = True"
| "can_transition_to Requested Rejected = True"
| "can_transition_to Proposed Expired = True"
| "can_transition_to Requested Expired = True"
| "can_transition_to Approved Announcing = True"
| "can_transition_to Approved Withdrawn = True"
| "can_transition_to Approved Failed = True"
| "can_transition_to Announcing Active = True"
| "can_transition_to Announcing Failed = True"
| "can_transition_to Announcing Withdrawing = True"
| "can_transition_to Active Withdrawing = True"
| "can_transition_to Withdrawing Withdrawn = True"
| "can_transition_to _ _ = False"

section \<open>Records, transitions and errors\<close>

definition MAX_REASON_CHARS :: nat where "MAX_REASON_CHARS = 1000"

datatype WithdrawalCause = OperatorCause | DurationReached | KillSwitchCause

primrec cause_as_str :: "WithdrawalCause \<Rightarrow> string" where
  "cause_as_str OperatorCause = ''operator''"
| "cause_as_str DurationReached = ''duration_reached''"
| "cause_as_str KillSwitchCause = ''kill_switch''"

definition parse_cause :: "string \<Rightarrow> WithdrawalCause option" where
  "parse_cause s = find (\<lambda>cause. cause_as_str cause = s) [OperatorCause, DurationReached, KillSwitchCause]"

record MitigationRequest =
  mq_prefix :: Prefix
  mq_action :: Action
  mq_reason :: rust_str
  mq_duration :: nat
  mq_incident_id :: "rust_str option"

type_synonym MitigationId = rust_str

record MitigationRecord =
  mr_id :: MitigationId
  mr_tenant :: TenantId
  mr_incident_id :: "rust_str option"
  mr_prefix :: Prefix
  mr_action :: Action
  mr_reason :: rust_str
  mr_duration :: nat
  mr_state :: MitigationState
  mr_version :: u64
  mr_requested_by :: Actor
  mr_approved_by :: "Actor option"
  mr_dry_run :: "bool option"
  mr_withdrawal :: "WithdrawalCause option"
  mr_last_error :: "rust_str option"

record Transition =
  tn_from :: "MitigationState option"
  tn_to :: MitigationState
  tn_actor :: Actor
  tn_permission :: Permission
  tn_detail :: "rust_str option"

definition event_type :: "Transition \<Rightarrow> string" where
  "event_type t = ''mitigation.'' @ state_as_str (tn_to t)"

datatype MitigationError =
    Forbidden Permission
  | NotFound
  | IllegalTransition MitigationState MitigationState
  | SelfApproval
  | Invalid string
  | Duplicate
  | VersionConflict u64
  | Refused GuardRefusal

primrec error_code :: "MitigationError \<Rightarrow> string" where
  "error_code (Forbidden p) = ''mitigation.forbidden''"
| "error_code NotFound = ''mitigation.not_found''"
| "error_code (IllegalTransition a b) = ''mitigation.illegal_transition''"
| "error_code SelfApproval = ''mitigation.self_approval''"
| "error_code (Invalid m) = ''mitigation.invalid''"
| "error_code Duplicate = ''mitigation.duplicate''"
| "error_code (VersionConflict v) = ''mitigation.version_conflict''"
| "error_code (Refused r) = refusal_code r"

text \<open>\<open>MitigationId::parse\<close>.\<close>

definition parse_mitigation_id :: "rust_str \<Rightarrow> MitigationError failure + MitigationId" where
  "parse_mitigation_id s =
     (case parse_incident_id s of
        Inr i \<Rightarrow> Inr (to_canonical_string i)
      | Inl (Err e) \<Rightarrow> Inl (Err NotFound)
      | Inl Panic \<Rightarrow> Inl Panic)"

section \<open>Commands\<close>

definition require :: "AuthorizationContext \<Rightarrow> Permission \<Rightarrow> MitigationError + unit" where
  "require ctx permission = (if has ctx permission then Inr () else Inl (Forbidden permission))"

definition validate_reason :: "rust_str \<Rightarrow> MitigationError + rust_str" where
  "validate_reason reason =
     (let reason = trim reason in
      if reason = [] then Inl (Invalid ''a reason is required'')
      else if length reason > MAX_REASON_CHARS then Inl (Invalid ''a reason is at most 1000 characters'')
      else if \<exists>c\<in>set reason. is_control c then Inl (Invalid ''a reason cannot hold control characters'')
      else Inr reason)"

definition canonical_incident :: "rust_str option \<Rightarrow> MitigationError failure + rust_str option" where
  "canonical_incident incident =
     (case incident of
        None \<Rightarrow> Inr None
      | Some s \<Rightarrow>
          (case parse_incident_id s of
             Inr i \<Rightarrow> Inr (Some (to_canonical_string i))
           | Inl (Err e) \<Rightarrow> Inl (Err (Invalid ''the incident id is not a UUID''))
           | Inl Panic \<Rightarrow> Inl Panic))"

definition create ::
    "AuthorizationContext \<Rightarrow> MitigationId \<Rightarrow> MitigationRequest \<Rightarrow> Permission \<Rightarrow> MitigationState \<Rightarrow>
     MitigationError failure + (MitigationRecord \<times> Transition)" where
  "create ctx ident request permission state =
     bind_res (map_err Err (require ctx permission)) (\<lambda>_.
     bind_res (map_err (\<lambda>e. Err (Invalid (action_error_text e)))
                 (validate_for (mq_action request) (mq_prefix request))) (\<lambda>_.
     bind_res (map_err Err (validate_reason (mq_reason request))) (\<lambda>reason.
     if mq_duration request < MIN_DURATION \<or> mq_duration request > MAX_DURATION then
       Inl (Err (Invalid ''the duration must be between 60 and 604800 seconds''))
     else bind_res (canonical_incident (mq_incident_id request)) (\<lambda>incident_id.
     Inr (\<lparr>mr_id = ident, mr_tenant = cx_tenant ctx, mr_incident_id = incident_id,
            mr_prefix = mq_prefix request, mr_action = mq_action request, mr_reason = reason,
            mr_duration = mq_duration request, mr_state = state, mr_version = 1,
            mr_requested_by = cx_actor ctx, mr_approved_by = None, mr_dry_run = None,
            mr_withdrawal = None, mr_last_error = None\<rparr>,
          \<lparr>tn_from = None, tn_to = state, tn_actor = cx_actor ctx, tn_permission = permission,
            tn_detail = Some reason\<rparr>)))))"

definition propose ::
    "AuthorizationContext \<Rightarrow> MitigationId \<Rightarrow> MitigationRequest \<Rightarrow>
     MitigationError failure + (MitigationRecord \<times> Transition)" where
  "propose ctx ident request = create ctx ident request MitigationPropose Proposed"

definition request_mitigation ::
    "AuthorizationContext \<Rightarrow> MitigationId \<Rightarrow> MitigationRequest \<Rightarrow>
     MitigationError failure + (MitigationRecord \<times> Transition)" where
  "request_mitigation ctx ident request = create ctx ident request MitigationRequestPermission Requested"

definition duplicate_key :: "MitigationRecord \<Rightarrow> string" where
  "duplicate_key m = action_duplicate_key (mr_action m) (mr_prefix m)"

definition check :: "MitigationRecord \<Rightarrow> AuthorizationContext \<Rightarrow> Permission \<Rightarrow> MitigationError + unit" where
  "check m ctx permission = (if cx_tenant ctx \<noteq> mr_tenant m then Inl NotFound else require ctx permission)"

definition allowed :: "MitigationRecord \<Rightarrow> MitigationState \<Rightarrow> MitigationError + unit" where
  "allowed m target =
     (if can_transition_to (mr_state m) target then Inr () else Inl (IllegalTransition (mr_state m) target))"

definition apply_transition ::
    "MitigationRecord \<Rightarrow> AuthorizationContext \<Rightarrow> Permission \<Rightarrow> MitigationState \<Rightarrow> rust_str option \<Rightarrow>
     Transition \<times> MitigationRecord" where
  "apply_transition m ctx permission target detail =
     (\<lparr>tn_from = Some (mr_state m), tn_to = target, tn_actor = cx_actor ctx,
        tn_permission = permission, tn_detail = detail\<rparr>,
      m\<lparr>mr_state := target, mr_version := mr_version m + 1\<rparr>)"

type_synonym command_result = "(MitigationError + Transition) \<times> MitigationRecord"

text \<open>A chain of checks that leave the mitigation alone, and what runs once they have passed.\<close>

definition guarded :: "MitigationRecord \<Rightarrow> MitigationError + 'a \<Rightarrow> ('a \<Rightarrow> command_result) \<Rightarrow> command_result" where
  "guarded m checked k = (case checked of Inl e \<Rightarrow> (Inl e, m) | Inr x \<Rightarrow> k x)"

definition succeed :: "Transition \<times> MitigationRecord \<Rightarrow> command_result" where
  "succeed r = (Inr (fst r), snd r)"

definition approve :: "MitigationRecord \<Rightarrow> AuthorizationContext \<Rightarrow> ApprovalPolicy \<Rightarrow> command_result" where
  "approve m ctx policy =
     guarded m (check m ctx MitigationApprove) (\<lambda>_.
     guarded m (allowed m Approved) (\<lambda>_.
     if \<not> ap_allow_self_approval policy \<and> mr_requested_by m = cx_actor ctx then (Inl SelfApproval, m)
     else succeed (apply_transition (m\<lparr>mr_approved_by := Some (cx_actor ctx)\<rparr>)
            ctx MitigationApprove Approved None)))"

definition reject :: "MitigationRecord \<Rightarrow> AuthorizationContext \<Rightarrow> rust_str \<Rightarrow> command_result" where
  "reject m ctx reason =
     guarded m (check m ctx MitigationApprove) (\<lambda>_.
     guarded m (validate_reason reason) (\<lambda>reason.
     guarded m (allowed m Rejected) (\<lambda>_.
     succeed (apply_transition m ctx MitigationApprove Rejected (Some reason)))))"

definition take_down ::
    "MitigationRecord \<Rightarrow> AuthorizationContext \<Rightarrow> Permission \<Rightarrow> WithdrawalCause \<Rightarrow> rust_str option \<Rightarrow>
     command_result" where
  "take_down m ctx permission cause reason =
     (let target = (if mr_state m = Approved then Withdrawn else Withdrawing) in
      guarded m (allowed m target) (\<lambda>_.
      let detail = (case reason of
            Some reason \<Rightarrow> lit (cause_as_str cause) @ lit '': '' @ reason
          | None \<Rightarrow> lit (cause_as_str cause)) in
      succeed (apply_transition (m\<lparr>mr_withdrawal := Some cause\<rparr>) ctx permission target (Some detail))))"

definition withdraw :: "MitigationRecord \<Rightarrow> AuthorizationContext \<Rightarrow> rust_str \<Rightarrow> command_result" where
  "withdraw m ctx reason =
     guarded m (check m ctx MitigationWithdraw) (\<lambda>_.
     guarded m (validate_reason reason) (\<lambda>reason.
     take_down m ctx MitigationWithdraw OperatorCause (Some reason)))"

definition begin_withdrawal :: "MitigationRecord \<Rightarrow> AuthorizationContext \<Rightarrow> WithdrawalCause \<Rightarrow> command_result" where
  "begin_withdrawal m ctx cause =
     guarded m (check m ctx MitigationExecute) (\<lambda>_. take_down m ctx MitigationExecute cause None)"

definition begin_announcing :: "MitigationRecord \<Rightarrow> AuthorizationContext \<Rightarrow> bool \<Rightarrow> command_result" where
  "begin_announcing m ctx dry_run =
     guarded m (check m ctx MitigationExecute) (\<lambda>_.
     guarded m (allowed m Announcing) (\<lambda>_.
     succeed (apply_transition (m\<lparr>mr_dry_run := Some dry_run\<rparr>) ctx MitigationExecute Announcing
       (if dry_run then Some (lit ''dry_run'') else None))))"

definition execute ::
    "MitigationRecord \<Rightarrow> AuthorizationContext \<Rightarrow> MitigationState \<Rightarrow> rust_str option \<Rightarrow> command_result" where
  "execute m ctx target detail =
     guarded m (check m ctx MitigationExecute) (\<lambda>_.
     guarded m (allowed m target) (\<lambda>_.
     succeed (apply_transition m ctx MitigationExecute target detail)))"

definition mark_active :: "MitigationRecord \<Rightarrow> AuthorizationContext \<Rightarrow> command_result" where
  "mark_active m ctx = execute m ctx Active None"

definition mark_withdrawn :: "MitigationRecord \<Rightarrow> AuthorizationContext \<Rightarrow> command_result" where
  "mark_withdrawn m ctx =
     (if mr_state m = Approved then (Inl (IllegalTransition (mr_state m) Withdrawn), m)
      else execute m ctx Withdrawn None)"

definition mark_failed :: "MitigationRecord \<Rightarrow> AuthorizationContext \<Rightarrow> rust_str \<Rightarrow> command_result" where
  "mark_failed m ctx error =
     (let error = take MAX_REASON_CHARS (filter (\<lambda>c. \<not> is_control c) error) in
      execute (m\<lparr>mr_last_error := Some error\<rparr>) ctx Failed (Some error))"

definition expire :: "MitigationRecord \<Rightarrow> AuthorizationContext \<Rightarrow> command_result" where
  "expire m ctx = execute m ctx Expired None"

text \<open>The commands of the interface, for statements about whole histories.\<close>

datatype MitigationCommand =
    ApproveCommand ApprovalPolicy
  | RejectCommand rust_str
  | WithdrawCommand rust_str
  | BeginWithdrawal WithdrawalCause
  | BeginAnnouncing bool
  | MarkActive
  | MarkWithdrawn
  | MarkFailed rust_str
  | ExpireCommand

primrec run_command :: "MitigationRecord \<Rightarrow> AuthorizationContext \<Rightarrow> MitigationCommand \<Rightarrow> command_result" where
  "run_command m ctx (ApproveCommand policy) = approve m ctx policy"
| "run_command m ctx (RejectCommand reason) = reject m ctx reason"
| "run_command m ctx (WithdrawCommand reason) = withdraw m ctx reason"
| "run_command m ctx (BeginWithdrawal cause) = begin_withdrawal m ctx cause"
| "run_command m ctx (BeginAnnouncing dry_run) = begin_announcing m ctx dry_run"
| "run_command m ctx MarkActive = mark_active m ctx"
| "run_command m ctx MarkWithdrawn = mark_withdrawn m ctx"
| "run_command m ctx (MarkFailed error) = mark_failed m ctx error"
| "run_command m ctx ExpireCommand = expire m ctx"

primrec run_commands :: "MitigationRecord \<Rightarrow> (AuthorizationContext \<times> MitigationCommand) list \<Rightarrow> MitigationRecord" where
  "run_commands m [] = m"
| "run_commands m (c # cs) = run_commands (snd (run_command m (fst c) (snd c))) cs"

section \<open>The lifecycle\<close>

primrec moves_left :: "MitigationState \<Rightarrow> nat" where
  "moves_left Proposed = 5"
| "moves_left Requested = 5"
| "moves_left Approved = 4"
| "moves_left Announcing = 3"
| "moves_left Active = 2"
| "moves_left Withdrawing = 1"
| "moves_left Withdrawn = 0"
| "moves_left Rejected = 0"
| "moves_left Expired = 0"
| "moves_left Failed = 0"

fun_cases can_transition_toE: "can_transition_to s t"

interpretation mitigation_states: descending_lifecycle can_transition_to is_terminal moves_left
proof
  fix s t
  show "can_transition_to s t \<Longrightarrow> moves_left t < moves_left s"
    by (erule can_transition_toE) simp_all
  show "is_terminal s \<Longrightarrow> \<not> can_transition_to s t"
    by (auto simp: is_terminal_def elim: can_transition_toE)
  have "\<not> is_terminal s \<Longrightarrow> \<exists>t\<in>set ALL_STATES. can_transition_to s t"
    by (cases s) (simp_all add: is_terminal_def ALL_STATES_def)
  then show "\<not> is_terminal s \<Longrightarrow> \<exists>t. can_transition_to s t" by blast
qed

section \<open>What every command does\<close>

text \<open>The frame of a command: a refusal may at most replace the last error; a success follows
  one edge of the lifecycle, bumps the version and touches no field of the request.\<close>

definition request_of :: "MitigationRecord \<Rightarrow> MitigationId \<times> TenantId \<times> rust_str option \<times> Prefix \<times>
    Action \<times> rust_str \<times> nat \<times> Actor" where
  "request_of m = (mr_id m, mr_tenant m, mr_incident_id m, mr_prefix m, mr_action m, mr_reason m,
     mr_duration m, mr_requested_by m)"

definition well_moved :: "MitigationRecord \<Rightarrow> AuthorizationContext \<Rightarrow> command_result \<Rightarrow> bool" where
  "well_moved m ctx r =
     (case fst r of
        Inl e \<Rightarrow> snd r = m\<lparr>mr_last_error := mr_last_error (snd r)\<rparr>
      | Inr t \<Rightarrow> cx_tenant ctx = mr_tenant m \<and> has ctx (tn_permission t) \<and>
          tn_actor t = cx_actor ctx \<and> tn_from t = Some (mr_state m) \<and>
          can_transition_to (mr_state m) (tn_to t) \<and> mr_state (snd r) = tn_to t \<and>
          mr_version (snd r) = mr_version m + 1 \<and> request_of (snd r) = request_of m)"

lemma refused_well_moved [simp]:
  "well_moved m ctx (Inl e, m)"
  "well_moved m ctx (Inl e, m\<lparr>mr_last_error := l\<rparr>)"
  by (simp_all add: well_moved_def)

lemma check_Inr: "check m ctx p = Inr u \<longleftrightarrow> cx_tenant ctx = mr_tenant m \<and> has ctx p"
  by (auto simp: check_def require_def)

lemma allowed_Inr: "allowed m s = Inr u \<longleftrightarrow> can_transition_to (mr_state m) s"
  by (auto simp: allowed_def)

lemma guarded_well_moved:
  assumes "\<And>x. checked = Inr x \<Longrightarrow> well_moved m ctx (k x)"
  shows "well_moved m ctx (guarded m checked k)"
    and "well_moved m ctx (guarded (m\<lparr>mr_last_error := l\<rparr>) checked k)"
  using assms by (cases checked; simp add: guarded_def)+

lemma applied_well_moved:
  assumes "cx_tenant ctx = mr_tenant m" "has ctx p" "can_transition_to (mr_state m) s"
    and "mr_state m' = mr_state m" "mr_version m' = mr_version m" "request_of m' = request_of m"
  shows "well_moved m ctx (succeed (apply_transition m' ctx p s detail))"
  using assms by (simp add: well_moved_def succeed_def apply_transition_def request_of_def)

lemma take_down_well_moved:
  assumes "cx_tenant ctx = mr_tenant m" "has ctx p"
  shows "well_moved m ctx (take_down m ctx p cause reason)"
  unfolding take_down_def Let_def
  by (rule guarded_well_moved, rule applied_well_moved[OF assms]) (auto simp: allowed_Inr request_of_def)

lemma execute_well_moved:
  "well_moved m ctx (execute (m\<lparr>mr_last_error := l\<rparr>) ctx s detail)"
  unfolding execute_def
  by (intro guarded_well_moved applied_well_moved)
     (simp_all add: check_Inr allowed_Inr request_of_def check_def require_def split: if_splits)

lemma run_command_well_moved: "well_moved m ctx (run_command m ctx c)"
proof (cases c)
  case (ApproveCommand policy)
  then show ?thesis
    unfolding ApproveCommand run_command.simps approve_def
    by (intro guarded_well_moved) (simp add: applied_well_moved check_Inr allowed_Inr request_of_def)
next
  case (RejectCommand reason)
  then show ?thesis
    unfolding RejectCommand run_command.simps reject_def
    by (intro guarded_well_moved) (simp add: applied_well_moved check_Inr allowed_Inr)
next
  case (WithdrawCommand reason)
  then show ?thesis
    unfolding WithdrawCommand run_command.simps withdraw_def
    by (intro guarded_well_moved) (simp add: take_down_well_moved check_Inr)
next
  case (BeginWithdrawal cause)
  then show ?thesis
    unfolding BeginWithdrawal run_command.simps begin_withdrawal_def
    by (intro guarded_well_moved) (simp add: take_down_well_moved check_Inr)
next
  case (BeginAnnouncing dry)
  then show ?thesis
    unfolding BeginAnnouncing run_command.simps begin_announcing_def
    by (intro guarded_well_moved) (simp add: applied_well_moved check_Inr allowed_Inr request_of_def)
next
  case (MarkFailed e)
  then show ?thesis using execute_well_moved by (simp add: mark_failed_def Let_def)
qed (use execute_well_moved[of m ctx "mr_last_error m"] in
      \<open>simp_all add: mark_active_def mark_withdrawn_def expire_def\<close>)

section \<open>Histories\<close>

text \<open>How many commands of a history were answered with a transition.\<close>

primrec successes :: "MitigationRecord \<Rightarrow> (AuthorizationContext \<times> MitigationCommand) list \<Rightarrow> nat" where
  "successes m [] = 0"
| "successes m (c # cs) =
     (case run_command m (fst c) (snd c) of (answer, m') \<Rightarrow>
        (case answer of Inl _ \<Rightarrow> 0 | Inr _ \<Rightarrow> 1) + successes m' cs)"

lemma run_commands_history:
  "(can_transition_to ^^ successes m cs) (mr_state m) (mr_state (run_commands m cs)) \<and>
     mr_version (run_commands m cs) = mr_version m + of_nat (successes m cs) \<and>
     request_of (run_commands m cs) = request_of m"
proof (induction cs arbitrary: m)
  case (Cons c cs)
  obtain answer m' where r: "run_command m (fst c) (snd c) = (answer, m')" by fastforce
  note moved = run_command_well_moved[of m "fst c" "snd c", unfolded r]
  show ?case
  proof (cases answer)
    case (Inl e)
    then obtain l where "m' = m\<lparr>mr_last_error := l\<rparr>" using moved unfolding well_moved_def by fastforce
    then have "mr_state m' = mr_state m" "mr_version m' = mr_version m" "request_of m' = request_of m"
      by (simp_all add: request_of_def)
    with Cons.IH[of m'] Inl show ?thesis by (simp add: r)
  next
    case (Inr t)
    with moved have "can_transition_to (mr_state m) (mr_state m')" "mr_version m' = mr_version m + 1"
      "request_of m' = request_of m" by (simp_all add: well_moved_def)
    with Cons.IH[of m'] Inr show ?thesis by (simp add: r) (metis relpowp_Suc_I2 relpowp.simps(2))
  qed
qed simp

text \<open>What the fields of a mitigation record about its history, given whether its approvers
  were bound by the two-person rule.\<close>

definition mitigation_ok :: "bool \<Rightarrow> MitigationRecord \<Rightarrow> bool" where
  "mitigation_ok two_person m =
     ((mr_approved_by m = None) = (mr_state m \<in> {Proposed, Requested, Rejected, Expired}) \<and>
      (two_person \<longrightarrow> mr_approved_by m \<noteq> Some (mr_requested_by m)) \<and>
      (may_hold_a_route (mr_state m) \<longrightarrow> mr_dry_run m \<noteq> None) \<and>
      (mr_withdrawal m = None) = (mr_state m \<notin> {Withdrawing, Withdrawn}) \<and>
      (mr_state m = Failed \<longrightarrow> mr_last_error m \<noteq> None))"

primrec two_person_command :: "MitigationCommand \<Rightarrow> bool" where
  "two_person_command (ApproveCommand policy) = (\<not> ap_allow_self_approval policy)"
| "two_person_command (RejectCommand r) = True"
| "two_person_command (WithdrawCommand r) = True"
| "two_person_command (BeginWithdrawal c) = True"
| "two_person_command (BeginAnnouncing d) = True"
| "two_person_command MarkActive = True"
| "two_person_command MarkWithdrawn = True"
| "two_person_command (MarkFailed e) = True"
| "two_person_command ExpireCommand = True"

lemma guarded_ok:
  "mitigation_ok b m \<Longrightarrow> (\<And>x. checked = Inr x \<Longrightarrow> mitigation_ok b (snd (k x))) \<Longrightarrow>
     mitigation_ok b (snd (guarded m checked k))"
  by (cases checked) (auto simp: guarded_def)

lemma last_error_ok: "mitigation_ok b m \<Longrightarrow> mitigation_ok b (m\<lparr>mr_last_error := Some l\<rparr>)"
  by (simp add: mitigation_ok_def)

lemmas command_effects = succeed_def apply_transition_def mitigation_ok_def may_hold_a_route_def
  allowed_Inr

lemma take_down_ok: "mitigation_ok b m \<Longrightarrow> mitigation_ok b (snd (take_down m ctx p cause reason))"
  unfolding take_down_def Let_def
  by (rule guarded_ok, assumption)
     (cases "mr_state m"; simp add: command_effects)

lemma execute_ok:
  assumes "mitigation_ok b m" "s \<in> {Active, Expired} \<or> (s = Withdrawn \<and> mr_state m \<noteq> Approved) \<or>
    (s = Failed \<and> mr_last_error m \<noteq> None)"
  shows "mitigation_ok b (snd (execute m ctx s detail))"
  unfolding execute_def
  by (rule guarded_ok[OF assms(1)], rule guarded_ok[OF assms(1)])
     (use assms in \<open>cases "mr_state m"; auto simp: command_effects\<close>)

lemma run_command_ok:
  assumes "mitigation_ok b m" "b \<longrightarrow> two_person_command c"
  shows "mitigation_ok b (snd (run_command m ctx c))"
proof (cases c)
  case (ApproveCommand policy)
  show ?thesis
    unfolding ApproveCommand run_command.simps approve_def
    by (rule guarded_ok[OF assms(1)], rule guarded_ok[OF assms(1)])
       (use assms ApproveCommand in \<open>cases "mr_state m"; simp add: command_effects\<close>)
next
  case (RejectCommand reason)
  show ?thesis
    unfolding RejectCommand run_command.simps reject_def
    by (rule guarded_ok[OF assms(1)], rule guarded_ok[OF assms(1)], rule guarded_ok[OF assms(1)])
       (use assms in \<open>cases "mr_state m"; simp add: command_effects\<close>)
next
  case (WithdrawCommand reason)
  show ?thesis
    unfolding WithdrawCommand run_command.simps withdraw_def
    by (intro guarded_ok assms(1) take_down_ok)
next
  case (BeginWithdrawal cause)
  show ?thesis
    unfolding BeginWithdrawal run_command.simps begin_withdrawal_def
    by (intro guarded_ok assms(1) take_down_ok)
next
  case (BeginAnnouncing dry)
  show ?thesis
    unfolding BeginAnnouncing run_command.simps begin_announcing_def
    by (rule guarded_ok[OF assms(1)], rule guarded_ok[OF assms(1)])
       (use assms in \<open>cases "mr_state m"; simp add: command_effects\<close>)
qed (use assms(1) in \<open>simp_all add: mark_active_def mark_withdrawn_def mark_failed_def expire_def
      Let_def execute_ok last_error_ok\<close>)

lemma run_commands_ok:
  "mitigation_ok b m \<Longrightarrow> (b \<longrightarrow> list_all (two_person_command \<circ> snd) cs) \<Longrightarrow>
     mitigation_ok b (run_commands m cs)"
  by (induction cs arbitrary: m) (simp_all add: run_command_ok)

lemma create_Inr:
  assumes "create ctx ident req p s = Inr (m, t)"
  shows "mr_state m = s \<and> mr_version m = 1 \<and> mr_tenant m = cx_tenant ctx \<and> has ctx p \<and>
    mr_requested_by m = cx_actor ctx \<and> mr_approved_by m = None \<and> mr_dry_run m = None \<and>
    mr_withdrawal m = None \<and> mr_prefix m = mq_prefix req \<and> mr_action m = mq_action req \<and>
    MIN_DURATION \<le> mr_duration m \<and> mr_duration m \<le> MAX_DURATION \<and>
    validate_for (mq_action req) (mq_prefix req) = Inr ()"
  using assms unfolding create_def
  by (clarsimp simp: bind_res_eq_Inr require_def not_less split: if_split_asm)

lemma created_facts:
  assumes "propose ctx ident req = Inr (m, t) \<or> request_mitigation ctx ident req = Inr (m, t)"
  shows "awaits_approval (mr_state m) \<and> mr_version m = 1 \<and> mr_requested_by m = cx_actor ctx \<and>
    mr_approved_by m = None \<and> mr_withdrawal m = None \<and> mr_prefix m = mq_prefix req \<and>
    mr_action m = mq_action req \<and> validate_for (mq_action req) (mq_prefix req) = Inr () \<and>
    mr_tenant m = cx_tenant ctx"
proof -
  obtain p s where "create ctx ident req p s = Inr (m, t)" "s = Proposed \<or> s = Requested"
    using assms unfolding propose_def request_mitigation_def by blast
  with create_Inr[OF this(1)] show ?thesis by (elim disjE) (simp_all add: awaits_approval_def)
qed

lemma created_ok:
  assumes "propose ctx ident req = Inr (m, t) \<or> request_mitigation ctx ident req = Inr (m, t)"
  shows "mitigation_ok b m"
  using created_facts[OF assms] unfolding mitigation_ok_def awaits_approval_def may_hold_a_route_def
  by (elim conjE disjE) simp_all

text \<open>
  Property C14. No route without a second person. Take a mitigation that was proposed or requested
  and any history of commands, by any callers, in which no approval was made under a policy
  that allows self-approval. Whenever the mitigation is in a state that may hold a route, it
  has been approved, by someone other than the actor who asked for it, it is recorded whether
  the announcement was a dry run, and it still covers exactly the prefix and action asked for,
  which passed the structural checks.\<close>

theorem routes_need_a_second_person:
  assumes "propose ctx ident req = Inr (m\<^sub>0, t\<^sub>0) \<or> request_mitigation ctx ident req = Inr (m\<^sub>0, t\<^sub>0)"
    and "list_all (two_person_command \<circ> snd) cs"
    and "m = run_commands m\<^sub>0 cs" "may_hold_a_route (mr_state m)"
  shows "\<exists>approver. mr_approved_by m = Some approver \<and> approver \<noteq> cx_actor ctx \<and>
    mr_requested_by m = cx_actor ctx \<and> mr_dry_run m \<noteq> None \<and> mr_tenant m = cx_tenant ctx \<and>
    mr_prefix m = mq_prefix req \<and> mr_action m = mq_action req \<and>
    validate_for (mr_action m) (mr_prefix m) = Inr ()"
proof -
  have ok: "mitigation_ok True m" using run_commands_ok[OF created_ok[OF assms(1)]] assms(2,3) by simp
  have same: "request_of m = request_of m\<^sub>0" using run_commands_history assms(3) by blast
  from ok assms(4) have "mr_approved_by m \<noteq> None" "mr_approved_by m \<noteq> Some (mr_requested_by m)"
    "mr_dry_run m \<noteq> None"
    unfolding mitigation_ok_def may_hold_a_route_def by (elim disjE; simp)+
  moreover have "mr_requested_by m = cx_actor ctx \<and> mr_tenant m = cx_tenant ctx \<and>
      mr_prefix m = mq_prefix req \<and> mr_action m = mq_action req"
    using same created_facts[OF assms(1)] by (simp add: request_of_def)
  ultimately show ?thesis using created_facts[OF assms(1)] by (cases "mr_approved_by m") simp_all
qed

definition sample_ctx :: "rust_str \<Rightarrow> Permission list \<Rightarrow> AuthorizationContext" where
  "sample_ctx name ps = \<lparr>cx_tenant = TenantId (lit ''acme''), cx_actor = Operator name, cx_granted = ps\<rparr>"

definition sample_request :: MitigationRequest where
  "sample_request = \<lparr>mq_prefix = one_host, mq_action = Rtbh, mq_reason = lit ''flood'',
     mq_duration = MIN_DURATION, mq_incident_id = None\<rparr>"

definition sample_mitigation :: MitigationRecord where
  "sample_mitigation = \<lparr>mr_id = [], mr_tenant = TenantId (lit ''acme''), mr_incident_id = None,
     mr_prefix = one_host, mr_action = Rtbh, mr_reason = lit ''flood'', mr_duration = MIN_DURATION,
     mr_state = Requested, mr_version = 1, mr_requested_by = Operator (lit ''a''),
     mr_approved_by = None, mr_dry_run = None, mr_withdrawal = None, mr_last_error = None\<rparr>"

definition sample_history :: "(AuthorizationContext \<times> MitigationCommand) list" where
  "sample_history = [(sample_ctx (lit ''b'') [MitigationApprove], ApproveCommand \<lparr>ap_allow_self_approval = False\<rparr>),
     (sample_ctx (lit ''c'') [MitigationExecute], BeginAnnouncing True)]"

lemma sample_created: "\<exists>t. request_mitigation (sample_ctx (lit ''a'') [MitigationRequestPermission]) [] sample_request =
    Inr (sample_mitigation, t)"
  using sample_prefixes(9)
  by (simp add: request_mitigation_def create_def sample_request_def sample_mitigation_def
      sample_ctx_def require_def has_def validate_for_def validate_reason_def trim_def lit_def
      is_whitespace_def is_control_def MAX_REASON_CHARS_def MIN_DURATION_def MAX_DURATION_def
      canonical_incident_def)

lemma sample_announcing: "mr_state (run_commands sample_mitigation sample_history) = Announcing"
  by (simp add: sample_history_def sample_ctx_def sample_mitigation_def approve_def guarded_def check_def
      require_def has_def allowed_def succeed_def apply_transition_def begin_announcing_def lit_def)

theorem routes_need_a_second_person_witness:
  "mr_approved_by (run_commands sample_mitigation sample_history) \<noteq> Some (Operator (lit ''a''))"
proof -
  obtain t where t: "request_mitigation (sample_ctx (lit ''a'') [MitigationRequestPermission]) [] sample_request =
    Inr (sample_mitigation, t)" using sample_created by blast
  have "list_all (two_person_command \<circ> snd) sample_history" by (simp add: sample_history_def)
  from routes_need_a_second_person[OF disjI2[OF t] this refl] sample_announcing show ?thesis
    by (auto simp: may_hold_a_route_def sample_ctx_def)
qed

text \<open>
  Property C17. Commands implement the lifecycle. Whatever the command and the caller, either it is
  refused and the mitigation is unchanged apart from the text of its last error, or the caller
  belongs to the mitigation's tenant and holds the permission recorded in the transition, the
  transition is an edge of the lifecycle from the old state to the new one, the version grows
  by one, and nothing of the request changes.\<close>

theorem commands_refine_lifecycle:
  "case run_command m ctx c of (result, m') \<Rightarrow>
     (case result of
        Inl e \<Rightarrow> m' = m\<lparr>mr_last_error := mr_last_error m'\<rparr>
      | Inr t \<Rightarrow> cx_tenant ctx = mr_tenant m \<and> has ctx (tn_permission t) \<and>
          tn_actor t = cx_actor ctx \<and> tn_from t = Some (mr_state m) \<and> tn_to t = mr_state m' \<and>
          can_transition_to (mr_state m) (mr_state m') \<and> mr_version m' = mr_version m + 1 \<and>
          request_of m' = request_of m)"
  using run_command_well_moved[of m ctx c]
  by (cases "run_command m ctx c") (auto simp: well_moved_def split: sum.splits)

text \<open>
  Property C18. Histories end. Of any sequence of commands on a new mitigation at most five are answered
  with success, the version is one more than the number of those answers (so it never wraps), and
  once a terminal state is reached every command of every caller is refused; from every state a
  terminal state can be reached.\<close>

theorem mitigation_histories_are_short:
  assumes "propose ctx ident req = Inr (m\<^sub>0, t\<^sub>0) \<or> request_mitigation ctx ident req = Inr (m\<^sub>0, t\<^sub>0)"
    and "m = run_commands m\<^sub>0 cs"
  shows "successes m\<^sub>0 cs \<le> 5 \<and> unat (mr_version m) = 1 + successes m\<^sub>0 cs \<and>
    (is_terminal (mr_state m) \<longrightarrow> (\<forall>ctx c. \<exists>e. fst (run_command m ctx c) = Inl e)) \<and>
    (\<exists>s. can_transition_to\<^sup>*\<^sup>* (mr_state m) s \<and> is_terminal s)"
proof -
  let ?n = "successes m\<^sub>0 cs"
  have n: "(can_transition_to ^^ ?n) (mr_state m\<^sub>0) (mr_state m)" "mr_version m = mr_version m\<^sub>0 + of_nat ?n"
    using run_commands_history[of m\<^sub>0 cs] assms(2) by simp_all
  have "moves_left (mr_state m\<^sub>0) = 5" using created_facts[OF assms(1)] by (auto simp: awaits_approval_def)
  with mitigation_states.history_length[OF n(1)] have "?n \<le> 5" by simp
  moreover from this n(2) have "unat (mr_version m) = 1 + ?n"
    using created_facts[OF assms(1)] by (simp add: unat_word_ariths unat_of_nat take_bit_nat_eq_self)
  moreover have "\<exists>e. fst (run_command m ctx' c) = Inl e" if "is_terminal (mr_state m)" for ctx' c
    using run_command_well_moved[of m ctx' c] mitigation_states.ended_is_final[OF that]
    by (cases "fst (run_command m ctx' c)") (auto simp: well_moved_def)
  ultimately show ?thesis using mitigation_states.can_complete by blast
qed

theorem mitigation_histories_are_short_witness:
  "successes sample_mitigation sample_history = 2 \<and>
   unat (mr_version (run_commands sample_mitigation sample_history)) = 3"
proof -
  obtain t where t: "request_mitigation (sample_ctx (lit ''a'') [MitigationRequestPermission]) [] sample_request =
    Inr (sample_mitigation, t)" using sample_created by blast
  have "successes sample_mitigation sample_history = 2"
    by (simp add: sample_history_def sample_ctx_def sample_mitigation_def approve_def guarded_def check_def
      require_def has_def allowed_def succeed_def apply_transition_def begin_announcing_def lit_def)
  with mitigation_histories_are_short[OF disjI2[OF t] refl, of sample_history] show ?thesis by simp
qed

text \<open>
  Property C19. Two commands of the mitigator act before they check the caller. Reporting a failure
  of another tenant's mitigation is refused as not found, but the reported text has already
  replaced the last error; and reporting another tenant's approved mitigation as withdrawn is
  answered with its state instead of not found.\<close>

theorem failure_report_writes_before_checks:
  assumes "cx_tenant ctx \<noteq> mr_tenant m"
  shows "mark_failed m ctx e =
      (Inl NotFound, m\<lparr>mr_last_error := Some (take MAX_REASON_CHARS (filter (\<lambda>c. \<not> is_control c) e))\<rparr>) \<and>
    (mr_state m = Approved \<longrightarrow> mark_withdrawn m ctx = (Inl (IllegalTransition Approved Withdrawn), m))"
  using assms by (simp add: mark_failed_def mark_withdrawn_def execute_def guarded_def check_def Let_def)

theorem failure_report_writes_before_checks_witness:
  "mr_last_error (snd (mark_failed sample_mitigation (mitigator (TenantId []) []) (lit ''x''))) = Some (lit ''x'')"
proof -
  have "cx_tenant (mitigator (TenantId []) []) \<noteq> mr_tenant sample_mitigation"
    by (simp add: mitigator_def sample_mitigation_def lit_def)
  from failure_report_writes_before_checks[OF this, of "lit ''x''"] show ?thesis
    by (simp add: lit_def is_control_def MAX_REASON_CHARS_def)
qed

end
