(* ===== verification/Detection_Input.thy ===== *)
theory Detection_Input
  imports Ordered_Map Rust_Text
begin

text \<open>
  What the detector consumes (\<open>crates/detector/src/input.rs\<close>): address families, directions,
  scope keys with the orders the sources derive for them, metric kinds with their units and the
  completeness flag each needs, sampling and completeness summaries, rates and the snapshot.
  The order on scope keys is the derived \<open>Ord\<close>: field by field, enum variants in declaration
  order, addresses with IPv4 before IPv6.
\<close>

section \<open>Scopes\<close>

datatype AddressFamily = Ipv4 | Ipv6

primrec family_of :: "IpAddr \<Rightarrow> AddressFamily" where
  "family_of (V4 _) = Ipv4"
| "family_of (V6 _) = Ipv6"

primrec family_as_str :: "AddressFamily \<Rightarrow> string" where
  "family_as_str Ipv4 = ''ipv4''"
| "family_as_str Ipv6 = ''ipv6''"

datatype TrafficDirection =
  TrafficIncoming | TrafficOutgoing | TrafficInternal | TrafficOther | TrafficUnknown

primrec direction_as_str :: "TrafficDirection \<Rightarrow> string" where
  "direction_as_str TrafficIncoming = ''incoming''"
| "direction_as_str TrafficOutgoing = ''outgoing''"
| "direction_as_str TrafficInternal = ''internal''"
| "direction_as_str TrafficOther = ''other''"
| "direction_as_str TrafficUnknown = ''unknown''"

datatype ScopeType = HostScope | PrefixScope | Slash24 | HostgroupTotal

primrec scope_as_str :: "ScopeType \<Rightarrow> string" where
  "scope_as_str HostScope = ''host''"
| "scope_as_str PrefixScope = ''prefix''"
| "scope_as_str Slash24 = ''slash24''"
| "scope_as_str HostgroupTotal = ''hostgroupTotal''"

primrec scope_specificity :: "ScopeType \<Rightarrow> u8" where
  "scope_specificity HostScope = 40"
| "scope_specificity PrefixScope = 30"
| "scope_specificity Slash24 = 20"
| "scope_specificity HostgroupTotal = 10"

datatype ScopeId = HostId IpAddr | NetworkId IpAddr u8 | HostgroupId rust_str

primrec scope_id_display :: "ScopeId \<Rightarrow> rust_str" where
  "scope_id_display (HostId addr) = lit (show_ip addr)"
| "scope_id_display (NetworkId addr prefix_len) = lit (show_ip addr @ ''/'' @ show_nat (unat prefix_len))"
| "scope_id_display (HostgroupId name) = name"

datatype ScopeKey = ScopeKey
  (sk_tenant: rust_str)
  (sk_scope_type: ScopeType)
  (sk_scope_id: ScopeId)
  (sk_direction: TrafficDirection)
  (sk_address_family: AddressFamily)

subsection \<open>The derived order\<close>

primrec family_index :: "AddressFamily \<Rightarrow> nat" where
  "family_index Ipv4 = 0"
| "family_index Ipv6 = 1"

primrec direction_index :: "TrafficDirection \<Rightarrow> nat" where
  "direction_index TrafficIncoming = 0"
| "direction_index TrafficOutgoing = 1"
| "direction_index TrafficInternal = 2"
| "direction_index TrafficOther = 3"
| "direction_index TrafficUnknown = 4"

primrec scope_index :: "ScopeType \<Rightarrow> nat" where
  "scope_index HostScope = 0"
| "scope_index PrefixScope = 1"
| "scope_index Slash24 = 2"
| "scope_index HostgroupTotal = 3"

primrec ip_order :: "IpAddr \<Rightarrow> nat \<times> nat" where
  "ip_order (V4 a) = (0, unat a)"
| "ip_order (V6 a) = (1, unat a)"

primrec scope_id_order :: "ScopeId \<Rightarrow> nat \<times> (nat \<times> nat) \<times> nat \<times> nat list" where
  "scope_id_order (HostId addr) = (0, ip_order addr, 0, [])"
| "scope_id_order (NetworkId addr prefix_len) = (1, ip_order addr, unat prefix_len, [])"
| "scope_id_order (HostgroupId name) = (2, (0, 0), 0, name)"

type_synonym scope_order_key =
  "nat list \<times> nat \<times> (nat \<times> (nat \<times> nat) \<times> nat \<times> nat list) \<times> nat \<times> nat"

primrec scope_order :: "ScopeKey \<Rightarrow> scope_order_key" where
  "scope_order (ScopeKey tenant scope_type scope_id direction family) =
     (tenant, scope_index scope_type, scope_id_order scope_id, direction_index direction, family_index family)"

lemma family_index_inject [simp]: "family_index a = family_index b \<longleftrightarrow> a = b"
  by (cases a; cases b) simp_all

lemma direction_index_inject [simp]: "direction_index a = direction_index b \<longleftrightarrow> a = b"
  by (cases a; cases b) simp_all

lemma scope_index_inject [simp]: "scope_index a = scope_index b \<longleftrightarrow> a = b"
  by (cases a; cases b) simp_all

lemma ip_order_inject [simp]: "ip_order a = ip_order b \<longleftrightarrow> a = b"
  by (cases a; cases b) (auto simp: word_unat_eq_iff)

lemma scope_id_order_inject [simp]: "scope_id_order a = scope_id_order b \<longleftrightarrow> a = b"
  by (cases a; cases b) (auto simp: word_unat_eq_iff)

lemma scope_order_inject [simp]: "scope_order a = scope_order b \<longleftrightarrow> a = b"
  by (cases a; cases b) auto

instantiation ScopeKey :: linorder
begin

definition less_eq_ScopeKey :: "ScopeKey \<Rightarrow> ScopeKey \<Rightarrow> bool" where
  "less_eq_ScopeKey a b \<longleftrightarrow> scope_order a \<le> scope_order b"

definition less_ScopeKey :: "ScopeKey \<Rightarrow> ScopeKey \<Rightarrow> bool" where
  "less_ScopeKey a b \<longleftrightarrow> scope_order a < scope_order b"

instance
proof
  fix a b c :: ScopeKey
  show "a < b \<longleftrightarrow> a \<le> b \<and> \<not> b \<le> a"
    unfolding less_eq_ScopeKey_def less_ScopeKey_def by (rule less_le_not_le)
  show "a \<le> a" "a \<le> b \<or> b \<le> a"
    by (simp_all add: less_eq_ScopeKey_def linear)
  show "a \<le> c" if "a \<le> b" "b \<le> c"
    using that by (simp add: less_eq_ScopeKey_def)
  show "a = b" if "a \<le> b" "b \<le> a"
    using that by (simp add: less_eq_ScopeKey_def)
qed

end

section \<open>Metrics\<close>

datatype MetricKind =
  Bps | Pps | Fps | TcpBps | TcpPps | UdpBps | UdpPps | IcmpBps | IcmpPps | TcpSynBps | TcpSynPps
| FragmentedBps | FragmentedPps | DroppedBps | DroppedPps

datatype MetricUnit = BitsPerSecond | PacketsPerSecond | FlowsPerSecond

primrec unit_as_str :: "MetricUnit \<Rightarrow> string" where
  "unit_as_str BitsPerSecond = ''bps''"
| "unit_as_str PacketsPerSecond = ''pps''"
| "unit_as_str FlowsPerSecond = ''fps''"

definition ALL_METRIC_KINDS :: "MetricKind list" where
  "ALL_METRIC_KINDS =
     [Bps, Pps, Fps, TcpBps, TcpPps, UdpBps, UdpPps, IcmpBps, IcmpPps, TcpSynBps, TcpSynPps,
      FragmentedBps, FragmentedPps, DroppedBps, DroppedPps]"

primrec metric_as_str :: "MetricKind \<Rightarrow> string" where
  "metric_as_str Bps = ''bps''"
| "metric_as_str Pps = ''pps''"
| "metric_as_str Fps = ''fps''"
| "metric_as_str TcpBps = ''tcpBps''"
| "metric_as_str TcpPps = ''tcpPps''"
| "metric_as_str UdpBps = ''udpBps''"
| "metric_as_str UdpPps = ''udpPps''"
| "metric_as_str IcmpBps = ''icmpBps''"
| "metric_as_str IcmpPps = ''icmpPps''"
| "metric_as_str TcpSynBps = ''tcpSynBps''"
| "metric_as_str TcpSynPps = ''tcpSynPps''"
| "metric_as_str FragmentedBps = ''fragmentedBps''"
| "metric_as_str FragmentedPps = ''fragmentedPps''"
| "metric_as_str DroppedBps = ''droppedBps''"
| "metric_as_str DroppedPps = ''droppedPps''"

fun metric_unit :: "MetricKind \<Rightarrow> MetricUnit" where
  "metric_unit Fps = FlowsPerSecond"
| "metric_unit k =
     (if k \<in> {Bps, TcpBps, UdpBps, IcmpBps, TcpSynBps, FragmentedBps, DroppedBps}
      then BitsPerSecond else PacketsPerSecond)"

datatype CompletenessFlag = FlagProtocol | FlagTcpFlags | FlagFragmentation | FlagForwardingStatus

fun required_completeness :: "MetricKind \<Rightarrow> CompletenessFlag option" where
  "required_completeness TcpSynBps = Some FlagTcpFlags"
| "required_completeness TcpSynPps = Some FlagTcpFlags"
| "required_completeness FragmentedBps = Some FlagFragmentation"
| "required_completeness FragmentedPps = Some FlagFragmentation"
| "required_completeness DroppedBps = Some FlagForwardingStatus"
| "required_completeness DroppedPps = Some FlagForwardingStatus"
| "required_completeness Bps = None"
| "required_completeness Pps = None"
| "required_completeness Fps = None"
| "required_completeness _ = Some FlagProtocol"

primrec metric_index :: "MetricKind \<Rightarrow> nat" where
  "metric_index Bps = 0"
| "metric_index Pps = 1"
| "metric_index Fps = 2"
| "metric_index TcpBps = 3"
| "metric_index TcpPps = 4"
| "metric_index UdpBps = 5"
| "metric_index UdpPps = 6"
| "metric_index IcmpBps = 7"
| "metric_index IcmpPps = 8"
| "metric_index TcpSynBps = 9"
| "metric_index TcpSynPps = 10"
| "metric_index FragmentedBps = 11"
| "metric_index FragmentedPps = 12"
| "metric_index DroppedBps = 13"
| "metric_index DroppedPps = 14"

lemma metric_of_index: "ALL_METRIC_KINDS ! metric_index k = k"
  by (cases k) (simp_all add: ALL_METRIC_KINDS_def)

lemma metric_index_inject [simp]: "metric_index a = metric_index b \<longleftrightarrow> a = b"
  by (metis metric_of_index)

instantiation MetricKind :: linorder
begin

definition less_eq_MetricKind :: "MetricKind \<Rightarrow> MetricKind \<Rightarrow> bool" where
  "less_eq_MetricKind a b \<longleftrightarrow> metric_index a \<le> metric_index b"

definition less_MetricKind :: "MetricKind \<Rightarrow> MetricKind \<Rightarrow> bool" where
  "less_MetricKind a b \<longleftrightarrow> metric_index a < metric_index b"

instance
proof
  fix a b c :: MetricKind
  show "a < b \<longleftrightarrow> a \<le> b \<and> \<not> b \<le> a" "a \<le> a" "a \<le> b \<or> b \<le> a"
    by (auto simp: less_eq_MetricKind_def less_MetricKind_def)
  show "a \<le> c" if "a \<le> b" "b \<le> c"
    using that by (simp add: less_eq_MetricKind_def)
  show "a = b" if "a \<le> b" "b \<le> a"
    using that by (simp add: less_eq_MetricKind_def)
qed

end

section \<open>Snapshots\<close>

record DataCompleteness =
  dc_protocol_seen :: bool
  dc_tcp_flags_seen :: bool
  dc_fragmentation_seen :: bool
  dc_forwarding_status_seen :: bool

definition default_completeness :: DataCompleteness where
  "default_completeness = \<lparr>dc_protocol_seen = False, dc_tcp_flags_seen = False,
     dc_fragmentation_seen = False, dc_forwarding_status_seen = False\<rparr>"

primrec completeness_has :: "CompletenessFlag \<Rightarrow> DataCompleteness \<Rightarrow> bool" where
  "completeness_has FlagProtocol c = dc_protocol_seen c"
| "completeness_has FlagTcpFlags c = dc_tcp_flags_seen c"
| "completeness_has FlagFragmentation c = dc_fragmentation_seen c"
| "completeness_has FlagForwardingStatus c = dc_forwarding_status_seen c"

definition completeness_merge :: "DataCompleteness \<Rightarrow> DataCompleteness \<Rightarrow> DataCompleteness" where
  "completeness_merge c other = c\<lparr>
     dc_protocol_seen := dc_protocol_seen c \<or> dc_protocol_seen other,
     dc_tcp_flags_seen := dc_tcp_flags_seen c \<or> dc_tcp_flags_seen other,
     dc_fragmentation_seen := dc_fragmentation_seen c \<or> dc_fragmentation_seen other,
     dc_forwarding_status_seen := dc_forwarding_status_seen c \<or> dc_forwarding_status_seen other\<rparr>"

record SamplingStatus =
  ss_corrected :: bool
  ss_used_global_default :: bool
  ss_max_rate :: u32

definition default_sampling :: SamplingStatus where
  "default_sampling = \<lparr>ss_corrected = False, ss_used_global_default = False, ss_max_rate = 0\<rparr>"

definition sampling_merge :: "SamplingStatus \<Rightarrow> SamplingStatus \<Rightarrow> SamplingStatus" where
  "sampling_merge s other = s\<lparr>
     ss_corrected := ss_corrected s \<or> ss_corrected other,
     ss_used_global_default := ss_used_global_default s \<or> ss_used_global_default other,
     ss_max_rate := max (ss_max_rate s) (ss_max_rate other)\<rparr>"

record MetricRates =
  mt_bps :: u64
  mt_pps :: u64
  mt_fps :: u64
  mt_tcp_bps :: u64
  mt_tcp_pps :: u64
  mt_udp_bps :: u64
  mt_udp_pps :: u64
  mt_icmp_bps :: u64
  mt_icmp_pps :: u64
  mt_tcp_syn_bps :: u64
  mt_tcp_syn_pps :: u64
  mt_fragmented_bps :: u64
  mt_fragmented_pps :: u64
  mt_dropped_bps :: u64
  mt_dropped_pps :: u64

definition default_rates :: MetricRates where
  "default_rates = \<lparr>mt_bps = 0, mt_pps = 0, mt_fps = 0, mt_tcp_bps = 0, mt_tcp_pps = 0,
     mt_udp_bps = 0, mt_udp_pps = 0, mt_icmp_bps = 0, mt_icmp_pps = 0, mt_tcp_syn_bps = 0,
     mt_tcp_syn_pps = 0, mt_fragmented_bps = 0, mt_fragmented_pps = 0, mt_dropped_bps = 0,
     mt_dropped_pps = 0\<rparr>"

primrec rate_of :: "MetricKind \<Rightarrow> MetricRates \<Rightarrow> u64" where
  "rate_of Bps r = mt_bps r"
| "rate_of Pps r = mt_pps r"
| "rate_of Fps r = mt_fps r"
| "rate_of TcpBps r = mt_tcp_bps r"
| "rate_of TcpPps r = mt_tcp_pps r"
| "rate_of UdpBps r = mt_udp_bps r"
| "rate_of UdpPps r = mt_udp_pps r"
| "rate_of IcmpBps r = mt_icmp_bps r"
| "rate_of IcmpPps r = mt_icmp_pps r"
| "rate_of TcpSynBps r = mt_tcp_syn_bps r"
| "rate_of TcpSynPps r = mt_tcp_syn_pps r"
| "rate_of FragmentedBps r = mt_fragmented_bps r"
| "rate_of FragmentedPps r = mt_fragmented_pps r"
| "rate_of DroppedBps r = mt_dropped_bps r"
| "rate_of DroppedPps r = mt_dropped_pps r"

text \<open>Instants and durations are nanoseconds, wall-clock times nanoseconds from the epoch, negative
  before it.\<close>

type_synonym WallTime = int

record DetectionSnapshot =
  sn_key :: ScopeKey
  sn_window :: nat
  sn_observed_at :: nat
  sn_observed_wall :: WallTime
  sn_rates :: MetricRates
  sn_completeness :: DataCompleteness
  sn_sampling :: SamplingStatus
  sn_flows_observed :: u64
  sn_exporters_observed :: u32

end
