(* ===== verification/Detection_Policy.thy ===== *)
theory Detection_Policy
  imports Detection_Input
begin

text \<open>
  Detection policies (\<open>crates/detector/src/policy.rs\<close>), the evaluation of one policy against one
  snapshot (\<open>evaluate.rs\<close>) and the choice of the policy that governs a scope
  (\<open>precedence.rs\<close>). The properties say that validation gives the bounds the state machine
  relies on and no policy beyond its tenant's prefixes, that evaluation reports exactly the
  crossed thresholds, when a snapshot can be over threshold and clear at once, and that the
  governing policy is the maximum of a total order.
\<close>

section \<open>Policies\<close>

definition MAX_POLICY_ID_LEN :: nat where "MAX_POLICY_ID_LEN = 128"
definition MAX_POLICY_NAME_LEN :: nat where "MAX_POLICY_NAME_LEN = 256"
definition MAX_DESCRIPTION_LEN :: nat where "MAX_DESCRIPTION_LEN = 2048"
definition MAX_LABELS :: nat where "MAX_LABELS = 16"
definition MAX_LABEL_KEY_LEN :: nat where "MAX_LABEL_KEY_LEN = 64"
definition MAX_LABEL_VALUE_LEN :: nat where "MAX_LABEL_VALUE_LEN = 256"

abbreviation secs :: "nat \<Rightarrow> nat" where
  "secs n \<equiv> n * 1000000000"

definition MAX_WINDOW :: nat where "MAX_WINDOW = secs 300"
definition MAX_TIMER :: nat where "MAX_TIMER = secs (7 * 24 * 3600)"
definition WILDCARD_TENANT :: rust_str where "WILDCARD_TENANT = lit ''*''"

datatype ExecutionMode = Disabled | Observe | AlertOnly | DryRun

primrec mode_as_str :: "ExecutionMode \<Rightarrow> string" where
  "mode_as_str Disabled = ''disabled''"
| "mode_as_str Observe = ''observe''"
| "mode_as_str AlertOnly = ''alertOnly''"
| "mode_as_str DryRun = ''dryRun''"

definition evaluates :: "ExecutionMode \<Rightarrow> bool" where
  "evaluates mode = (mode \<noteq> Disabled)"

definition emits_events :: "ExecutionMode \<Rightarrow> bool" where
  "emits_events mode = (mode = AlertOnly \<or> mode = DryRun)"

datatype Severity = Info | Minor | Major | Critical

primrec severity_as_str :: "Severity \<Rightarrow> string" where
  "severity_as_str Info = ''info''"
| "severity_as_str Minor = ''minor''"
| "severity_as_str Major = ''major''"
| "severity_as_str Critical = ''critical''"

datatype PolicySelector = SelHost IpAddr | SelNetwork IpAddr u8 | SelHostgroup rust_str | SelAny

type_synonym Thresholds = "(MetricKind \<times> u64) list"

datatype ClearPercent = ClearPercent u8

definition DEFAULT_CLEAR_PERCENT :: u8 where "DEFAULT_CLEAR_PERCENT = 80"

definition new_clear_percent :: "u8 \<Rightarrow> ClearPercent option" where
  "new_clear_percent percent = (if 1 \<le> percent \<and> percent \<le> 100 then Some (ClearPercent percent) else None)"

primrec clear_percent_get :: "ClearPercent \<Rightarrow> u8" where
  "clear_percent_get (ClearPercent percent) = percent"

text \<open>The product is computed in 128 bits, where it cannot overflow.\<close>

definition clear_threshold :: "ClearPercent \<Rightarrow> u64 \<Rightarrow> u64" where
  "clear_threshold p trigger =
     (let scaled = unat trigger * unat (clear_percent_get p) div 100 in
      if scaled < 2 ^ 64 then of_nat scaled else - 1)"

record DetectionPolicy =
  dp_id :: rust_str
  dp_name :: rust_str
  dp_description :: "rust_str option"
  dp_enabled :: bool
  dp_tenant :: rust_str
  dp_scope_type :: ScopeType
  dp_selector :: PolicySelector
  dp_address_family :: "AddressFamily option"
  dp_direction :: TrafficDirection
  dp_window :: nat
  dp_thresholds :: Thresholds
  dp_clear_percent :: ClearPercent
  dp_trigger_for :: nat
  dp_clear_for :: nat
  dp_cooldown :: nat
  dp_hold_down :: nat
  dp_event_update_interval :: nat
  dp_severity :: Severity
  dp_execution_mode :: ExecutionMode
  dp_priority :: int
  dp_labels :: "(rust_str \<times> rust_str) list"
  dp_version :: u32

definition policy_clear_threshold :: "DetectionPolicy \<Rightarrow> MetricKind \<Rightarrow> u64 option" where
  "policy_clear_threshold p kind =
     map_option (clear_threshold (dp_clear_percent p)) (map_of (dp_thresholds p) kind)"

fun selector_matches :: "PolicySelector \<Rightarrow> ScopeId \<Rightarrow> bool" where
  "selector_matches SelAny _ = True"
| "selector_matches (SelHost addr) (HostId other) = (addr = other)"
| "selector_matches (SelNetwork addr prefix_len) (NetworkId other other_len) =
     (addr = other \<and> prefix_len = other_len)"
| "selector_matches (SelHostgroup name) (HostgroupId other) = (name = other)"
| "selector_matches _ _ = False"

definition matches_scope :: "DetectionPolicy \<Rightarrow> ScopeKey \<Rightarrow> bool" where
  "matches_scope p key =
     (if \<not> dp_enabled p then False
      else if dp_tenant p \<noteq> WILDCARD_TENANT \<and> dp_tenant p \<noteq> sk_tenant key then False
      else if dp_scope_type p \<noteq> sk_scope_type key then False
      else if dp_direction p \<noteq> sk_direction key then False
      else if (case dp_address_family p of None \<Rightarrow> False | Some f \<Rightarrow> f \<noteq> sk_address_family key) then False
      else selector_matches (dp_selector p) (sk_scope_id key))"

primrec selector_specificity :: "PolicySelector \<Rightarrow> nat" where
  "selector_specificity (SelHost _) = 900"
| "selector_specificity (SelNetwork _ prefix_len) = 100 + unat prefix_len"
| "selector_specificity (SelHostgroup _) = 50"
| "selector_specificity SelAny = 0"

definition specificity :: "DetectionPolicy \<Rightarrow> nat" where
  "specificity p =
     (if dp_tenant p = WILDCARD_TENANT then 0 else 1000000) +
     unat (scope_specificity (dp_scope_type p)) * 1000 +
     selector_specificity (dp_selector p) +
     (if dp_address_family p \<noteq> None then 1 else 0)"

section \<open>Validation\<close>

datatype PolicyError =
  EmptyId | IdTooLong rust_str | IdCharacter rust_str nat | EmptyName rust_str | NameTooLong rust_str
| DescriptionTooLong rust_str | EmptyTenant rust_str | TooManyLabels rust_str nat
| LabelTooLong rust_str rust_str | ZeroWindow rust_str | WindowTooLong rust_str nat
| NoThresholds rust_str | ZeroThreshold rust_str string
| MetricScopeMismatch rust_str string string | InvalidClearPercent rust_str u8
| TriggerShorterThanWindow rust_str nat nat | ClearShorterThanWindow rust_str nat nat
| TimerTooLong rust_str string nat | ZeroEventUpdateInterval rust_str
| SelectorScopeMismatch rust_str string string | InvalidPrefixLength rust_str IpAddr u8
| PrefixNotOwnedByTenant rust_str rust_str IpAddr u8 | UnsupportedDirection rust_str string
| DuplicateId rust_str

record PolicyDraft =
  pd_id :: rust_str
  pd_name :: rust_str
  pd_description :: "rust_str option"
  pd_enabled :: bool
  pd_tenant :: rust_str
  pd_scope_type :: ScopeType
  pd_selector :: PolicySelector
  pd_address_family :: "AddressFamily option"
  pd_direction :: TrafficDirection
  pd_window :: nat
  pd_thresholds :: Thresholds
  pd_clear_percent :: u8
  pd_trigger_for :: nat
  pd_clear_for :: nat
  pd_cooldown :: nat
  pd_hold_down :: nat
  pd_event_update_interval :: nat
  pd_severity :: Severity
  pd_execution_mode :: ExecutionMode
  pd_priority :: int
  pd_labels :: "(rust_str \<times> rust_str) list"
  pd_version :: u32

text \<open>\<open>network_contains\<close>: the mask \<open>MAX << (width - len)\<close> keeps the leading bits.\<close>

definition network_contains :: "IpAddr \<Rightarrow> u8 \<Rightarrow> IpAddr \<Rightarrow> bool" where
  "network_contains network prefix_len addr =
     (case (network, addr) of
        (V4 n, V4 a) \<Rightarrow>
          if prefix_len > 32 then False
          else if prefix_len = 0 then True
          else let mask = push_bit (32 - unat prefix_len) (- 1) in n AND mask = a AND mask
      | (V6 n, V6 a) \<Rightarrow>
          if prefix_len > 128 then False
          else if prefix_len = 0 then True
          else let mask = push_bit (128 - unat prefix_len) (- 1) in n AND mask = a AND mask
      | _ \<Rightarrow> False)"

type_synonym TenantPrefixes = "(rust_str \<times> (IpAddr \<times> u8) list) list"

definition tenant_prefixes_insert :: "rust_str \<Rightarrow> IpAddr \<Rightarrow> u8 \<Rightarrow> TenantPrefixes \<Rightarrow> TenantPrefixes" where
  "tenant_prefixes_insert tenant addr prefix_len entries =
     (let owned = (case map_of entries tenant of None \<Rightarrow> [] | Some owned \<Rightarrow> owned) in
      bt_insert tenant (owned @ [(addr, prefix_len)]) entries)"

definition tenant_covers :: "TenantPrefixes \<Rightarrow> rust_str \<Rightarrow> IpAddr \<Rightarrow> u8 \<Rightarrow> bool" where
  "tenant_covers entries tenant addr prefix_len =
     (case map_of entries tenant of
        None \<Rightarrow> False
      | Some owned \<Rightarrow>
          list_ex (\<lambda>(owned_addr, owned_len). owned_len \<le> prefix_len \<and> network_contains owned_addr owned_len addr) owned)"

definition is_id_char :: "nat \<Rightarrow> bool" where
  "is_id_char c = ((48 \<le> c \<and> c \<le> 57) \<or> (65 \<le> c \<and> c \<le> 90) \<or> (97 \<le> c \<and> c \<le> 122) \<or> c = 45 \<or> c = 95 \<or> c = 46)"

definition validate_id :: "rust_str \<Rightarrow> PolicyError + unit" where
  "validate_id pid =
     (if pid = [] then Inl EmptyId
      else if length pid > MAX_POLICY_ID_LEN then Inl (IdTooLong pid)
      else case List.find (\<lambda>c. \<not> is_id_char c) pid of
        Some ch \<Rightarrow> Inl (IdCharacter pid ch)
      | None \<Rightarrow> Inr ())"

fun selector_compatible :: "ScopeType \<Rightarrow> PolicySelector \<Rightarrow> bool" where
  "selector_compatible _ SelAny = True"
| "selector_compatible HostScope (SelHost _) = True"
| "selector_compatible PrefixScope (SelNetwork _ _) = True"
| "selector_compatible Slash24 (SelNetwork _ prefix_len) = (prefix_len = 24)"
| "selector_compatible HostgroupTotal (SelHostgroup _) = True"
| "selector_compatible _ _ = False"

primrec selector_name :: "PolicySelector \<Rightarrow> string" where
  "selector_name (SelHost _) = ''host''"
| "selector_name (SelNetwork _ _) = ''network''"
| "selector_name (SelHostgroup _) = ''hostgroup''"
| "selector_name SelAny = ''any''"

definition validate_selector :: "rust_str \<Rightarrow> ScopeType \<Rightarrow> PolicySelector \<Rightarrow> PolicyError + unit" where
  "validate_selector pid scope_type selector =
     (if \<not> selector_compatible scope_type selector then
        Inl (SelectorScopeMismatch pid (scope_as_str scope_type) (selector_name selector))
      else case selector of
        SelNetwork addr prefix_len \<Rightarrow>
          if unat prefix_len > width addr then Inl (InvalidPrefixLength pid addr prefix_len) else Inr ()
      | _ \<Rightarrow> Inr ())"

definition validate_direction :: "rust_str \<Rightarrow> TrafficDirection \<Rightarrow> PolicyError + unit" where
  "validate_direction pid direction =
     (if direction = TrafficUnknown then Inl (UnsupportedDirection pid (direction_as_str direction)) else Inr ())"

primrec selector_target :: "PolicySelector \<Rightarrow> (IpAddr \<times> u8) option" where
  "selector_target (SelNetwork addr prefix_len) = Some (addr, prefix_len)"
| "selector_target (SelHost addr) = Some (addr, of_nat (width addr))"
| "selector_target (SelHostgroup _) = None"
| "selector_target SelAny = None"

definition validate_prefix_ownership ::
    "rust_str \<Rightarrow> rust_str \<Rightarrow> PolicySelector \<Rightarrow> TenantPrefixes \<Rightarrow> PolicyError + unit" where
  "validate_prefix_ownership pid tenant selector tenant_prefixes =
     (if tenant_prefixes = [] \<or> tenant = WILDCARD_TENANT then Inr ()
      else case selector_target selector of
        None \<Rightarrow> Inr ()
      | Some (addr, prefix_len) \<Rightarrow>
          if tenant_covers tenant_prefixes tenant addr prefix_len then Inr ()
          else Inl (PrefixNotOwnedByTenant pid tenant addr prefix_len))"

definition ensure :: "bool \<Rightarrow> 'e \<Rightarrow> 'e + unit" where
  "ensure b e = (if b then Inr () else Inl e)"

primrec ensure_all :: "('a \<Rightarrow> 'e + unit) \<Rightarrow> 'a list \<Rightarrow> 'e + unit" where
  "ensure_all f [] = Inr ()"
| "ensure_all f (x # xs) = bind_res (f x) (\<lambda>_. ensure_all f xs)"

definition policy_of_draft :: "PolicyDraft \<Rightarrow> ClearPercent \<Rightarrow> DetectionPolicy" where
  "policy_of_draft d clear_percent =
     \<lparr>dp_id = pd_id d, dp_name = pd_name d, dp_description = pd_description d,
      dp_enabled = pd_enabled d, dp_tenant = pd_tenant d, dp_scope_type = pd_scope_type d,
      dp_selector = pd_selector d, dp_address_family = pd_address_family d,
      dp_direction = pd_direction d, dp_window = pd_window d, dp_thresholds = pd_thresholds d,
      dp_clear_percent = clear_percent, dp_trigger_for = pd_trigger_for d,
      dp_clear_for = pd_clear_for d, dp_cooldown = pd_cooldown d, dp_hold_down = pd_hold_down d,
      dp_event_update_interval = pd_event_update_interval d, dp_severity = pd_severity d,
      dp_execution_mode = pd_execution_mode d, dp_priority = pd_priority d,
      dp_labels = pd_labels d, dp_version = pd_version d\<rparr>"

definition validate :: "PolicyDraft \<Rightarrow> TenantPrefixes \<Rightarrow> PolicyError + DetectionPolicy" where
  "validate d tenant_prefixes =
     (let pid = pd_id d in
      bind_res (validate_id pid) (\<lambda>_.
      bind_res (ensure (trim (pd_name d) \<noteq> []) (EmptyName pid)) (\<lambda>_.
      bind_res (ensure (length (pd_name d) \<le> MAX_POLICY_NAME_LEN) (NameTooLong pid)) (\<lambda>_.
      bind_res (ensure (case pd_description d of None \<Rightarrow> True
                        | Some desc \<Rightarrow> length desc \<le> MAX_DESCRIPTION_LEN) (DescriptionTooLong pid)) (\<lambda>_.
      bind_res (ensure (trim (pd_tenant d) \<noteq> []) (EmptyTenant pid)) (\<lambda>_.
      bind_res (ensure (length (pd_labels d) \<le> MAX_LABELS) (TooManyLabels pid (length (pd_labels d)))) (\<lambda>_.
      bind_res (ensure_all (\<lambda>(k, v).
                  ensure (length k \<le> MAX_LABEL_KEY_LEN \<and> length v \<le> MAX_LABEL_VALUE_LEN) (LabelTooLong pid k))
                  (pd_labels d)) (\<lambda>_.
      bind_res (ensure (pd_window d \<noteq> 0) (ZeroWindow pid)) (\<lambda>_.
      bind_res (ensure (pd_window d \<le> MAX_WINDOW) (WindowTooLong pid (pd_window d))) (\<lambda>_.
      bind_res (ensure (pd_thresholds d \<noteq> []) (NoThresholds pid)) (\<lambda>_.
      bind_res (ensure_all (\<lambda>(metric, v). ensure (v \<noteq> 0) (ZeroThreshold pid (metric_as_str metric)))
                  (pd_thresholds d)) (\<lambda>_.
      bind_res (ok_or (new_clear_percent (pd_clear_percent d)) (InvalidClearPercent pid (pd_clear_percent d))) (\<lambda>clear_percent.
      bind_res (ensure (pd_window d \<le> pd_trigger_for d)
                  (TriggerShorterThanWindow pid (pd_trigger_for d) (pd_window d))) (\<lambda>_.
      bind_res (ensure (pd_window d \<le> pd_clear_for d)
                  (ClearShorterThanWindow pid (pd_clear_for d) (pd_window d))) (\<lambda>_.
      bind_res (ensure_all (\<lambda>(field, v). ensure (v \<le> MAX_TIMER) (TimerTooLong pid field v))
                  [(''triggerFor'', pd_trigger_for d), (''clearFor'', pd_clear_for d),
                   (''cooldown'', pd_cooldown d), (''holdDown'', pd_hold_down d),
                   (''eventUpdateInterval'', pd_event_update_interval d)]) (\<lambda>_.
      bind_res (ensure (pd_event_update_interval d \<noteq> 0) (ZeroEventUpdateInterval pid)) (\<lambda>_.
      bind_res (validate_selector pid (pd_scope_type d) (pd_selector d)) (\<lambda>_.
      bind_res (validate_direction pid (pd_direction d)) (\<lambda>_.
      bind_res (validate_prefix_ownership pid (pd_tenant d) (pd_selector d) tenant_prefixes) (\<lambda>_.
      Inr (policy_of_draft d clear_percent)))))))))))))))))))))"

section \<open>Evaluation\<close>

record MatchedReason =
  ma_metric :: MetricKind
  ma_observed :: u64
  ma_threshold :: u64
  ma_excess :: u64
  ma_ratio_percent :: u64

definition saturating_sub :: "'a::len word \<Rightarrow> 'a word \<Rightarrow> 'a word" where
  "saturating_sub a b = (if b \<le> a then a - b else 0)"

definition ratio_percent :: "u64 \<Rightarrow> u64 \<Rightarrow> u64" where
  "ratio_percent observed threshold =
     (if threshold = 0 then - 1
      else let scaled = unat observed * 100 div unat threshold in
        if scaled < 2 ^ 64 then of_nat scaled else - 1)"

definition new_matched :: "MetricKind \<Rightarrow> u64 \<Rightarrow> u64 \<Rightarrow> MatchedReason" where
  "new_matched metric observed threshold =
     \<lparr>ma_metric = metric, ma_observed = observed, ma_threshold = threshold,
      ma_excess = saturating_sub observed threshold,
      ma_ratio_percent = ratio_percent observed threshold\<rparr>"

datatype SkipReason = SourceFieldAbsent

record SkippedMetric =
  sm_metric :: MetricKind
  sm_reason :: SkipReason

record Evaluation =
  ev_matched :: "MatchedReason list"
  ev_skipped :: "SkippedMetric list"
  ev_all_below_clear :: bool
  ev_evaluated :: nat

definition is_over_threshold :: "Evaluation \<Rightarrow> bool" where
  "is_over_threshold e = (ev_matched e \<noteq> [])"

text \<open>The body of the loop over the thresholds, on the loop's four accumulators.\<close>

definition evaluate_metric ::
    "DetectionPolicy \<Rightarrow> DetectionSnapshot \<Rightarrow> MetricKind \<times> u64 \<Rightarrow> Evaluation \<Rightarrow> Evaluation" where
  "evaluate_metric policy snapshot mt e =
     (case mt of (metric, threshold) \<Rightarrow>
      if (case required_completeness metric of None \<Rightarrow> False
          | Some flag \<Rightarrow> \<not> completeness_has flag (sn_completeness snapshot)) then
        e\<lparr>ev_skipped := ev_skipped e @ [\<lparr>sm_metric = metric, sm_reason = SourceFieldAbsent\<rparr>]\<rparr>
      else
        let e = e\<lparr>ev_evaluated := ev_evaluated e + 1\<rparr>;
            observed = rate_of metric (sn_rates snapshot);
            e = (if observed \<ge> threshold
                 then e\<lparr>ev_matched := ev_matched e @ [new_matched metric observed threshold]\<rparr> else e);
            clear = clear_threshold (dp_clear_percent policy) threshold
        in if observed > clear then e\<lparr>ev_all_below_clear := False\<rparr> else e)"

definition evaluate :: "DetectionPolicy \<Rightarrow> DetectionSnapshot \<Rightarrow> Evaluation" where
  "evaluate policy snapshot =
     (let e = fold (evaluate_metric policy snapshot) (dp_thresholds policy)
                \<lparr>ev_matched = [], ev_skipped = [], ev_all_below_clear = True, ev_evaluated = 0\<rparr>
      in if ev_evaluated e = 0 then e\<lparr>ev_all_below_clear := False\<rparr> else e)"

section \<open>Precedence\<close>

datatype PrecedenceReason = OnlyCandidate | MoreSpecific | HigherPriority | LowestId

primrec precedence_as_str :: "PrecedenceReason \<Rightarrow> string" where
  "precedence_as_str OnlyCandidate = ''onlyCandidate''"
| "precedence_as_str MoreSpecific = ''moreSpecific''"
| "precedence_as_str HigherPriority = ''higherPriority''"
| "precedence_as_str LowestId = ''lowestId''"

record Candidate =
  cd_policy_id :: rust_str
  cd_specificity :: nat
  cd_priority :: int
  cd_selected :: bool

record Selection =
  se_winner :: "rust_str option"
  se_reason :: "PrecedenceReason option"
  se_candidates :: "Candidate list"

definition no_selection :: Selection where
  "no_selection = \<lparr>se_winner = None, se_reason = None, se_candidates = []\<rparr>"

type_synonym PolicySet = "(rust_str \<times> DetectionPolicy) list"

fun from_policies_loop :: "PolicySet \<Rightarrow> DetectionPolicy list \<Rightarrow> PolicyError + PolicySet" where
  "from_policies_loop acc [] = Inr acc"
| "from_policies_loop acc (policy # policies) =
     (if map_of acc (dp_id policy) \<noteq> None then Inl (DuplicateId (dp_id policy))
      else from_policies_loop (bt_insert (dp_id policy) policy acc) policies)"

definition from_policies :: "DetectionPolicy list \<Rightarrow> PolicyError + PolicySet" where
  "from_policies policies = from_policies_loop [] policies"

text \<open>\<open>sort_by\<close> is a stable sort by a key: higher specificity first, then higher priority, then
  the lower id.\<close>

definition precedence_key :: "DetectionPolicy \<Rightarrow> int \<times> int \<times> rust_str" where
  "precedence_key p = (- int (specificity p), - dp_priority p, dp_id p)"

definition select :: "PolicySet \<Rightarrow> ScopeKey \<Rightarrow> Selection" where
  "select policies key =
     (case sort_key precedence_key (filter (\<lambda>p. matches_scope p key) (map snd policies)) of
        [] \<Rightarrow> no_selection
      | winner # others \<Rightarrow>
          \<lparr>se_winner = Some (dp_id winner),
           se_reason = Some (case others of
               [] \<Rightarrow> OnlyCandidate
             | runner_up # _ \<Rightarrow>
                 if specificity winner \<noteq> specificity runner_up then MoreSpecific
                 else if dp_priority winner \<noteq> dp_priority runner_up then HigherPriority
                 else LowestId),
           se_candidates = map (\<lambda>p. \<lparr>cd_policy_id = dp_id p, cd_specificity = specificity p,
              cd_priority = dp_priority p, cd_selected = (dp_id p = dp_id winner)\<rparr>) (winner # others)\<rparr>)"

definition winner_for :: "PolicySet \<Rightarrow> ScopeKey \<Rightarrow> DetectionPolicy option" where
  "winner_for policies key = Option.bind (se_winner (select policies key)) (map_of policies)"

section \<open>What validation guarantees\<close>

lemma ensure_eq_Inr [simp]: "ensure b e = Inr u \<longleftrightarrow> b"
  by (simp add: ensure_def)

lemma ensure_all_eq_Inr: "ensure_all f xs = Inr u \<longleftrightarrow> (\<forall>x \<in> set xs. f x = Inr ())"
  by (induction xs) (auto simp: bind_res_eq_Inr)

lemma and_not_mask_eq_iff:
  fixes v w :: "'a::len word"
  shows "v AND NOT (mask k) = w AND NOT (mask k) \<longleftrightarrow> drop_bit k v = drop_bit k w"
proof -
  have cut: "u AND NOT (mask k) = push_bit k (drop_bit k u)" for u :: "'a word"
    by (rule bit_word_eqI) (auto simp: bit_and_iff bit_not_iff bit_mask_iff bit_push_bit_iff bit_drop_bit_eq)
  have same: "drop_bit k (u AND NOT (mask k)) = drop_bit k u" for u :: "'a word"
    by (rule bit_word_eqI) (auto simp: bit_and_iff bit_not_iff bit_mask_iff bit_drop_bit_eq dest: bit_imp_le_length)
  show ?thesis by (metis cut same)
qed

lemma unat_u8_less: "unat (l :: u8) < 256"
  using unsigned_less[of l] by simp

lemma network_contains_iff:
  "network_contains network prefix_len addr \<longleftrightarrow>
     unat prefix_len \<le> width network \<and> leading_eq (unat prefix_len) network addr"
proof (cases network; cases addr)
  fix n a assume eqs: "network = V4 n" "addr = V4 a"
  have "drop_bit 32 n = drop_bit 32 a" by (simp add: bit_eq_iff bit_drop_bit_eq)
  then show ?thesis
    by (auto simp: eqs network_contains_def and_not_mask_eq_iff word_less_nat_alt word_le_nat_alt unat_eq_0 Let_def
        simp del: drop_bit_eq_div)
next
  fix n a assume eqs: "network = V6 n" "addr = V6 a"
  have "drop_bit 128 n = drop_bit 128 a" by (simp add: bit_eq_iff bit_drop_bit_eq)
  then show ?thesis
    by (auto simp: eqs network_contains_def and_not_mask_eq_iff word_less_nat_alt word_le_nat_alt unat_eq_0 Let_def
        simp del: drop_bit_eq_div)
qed (auto simp: network_contains_def)


text \<open>The block of addresses a scope stands for, where it stands for one.\<close>

primrec scope_block :: "ScopeId \<Rightarrow> (IpAddr \<times> nat) option" where
  "scope_block (HostId addr) = Some (addr, width addr)"
| "scope_block (NetworkId addr prefix_len) = Some (addr, unat prefix_len)"
| "scope_block (HostgroupId _) = None"

lemma unat_of_width [simp]: "unat (of_nat (width a) :: u8) = width a"
  by (cases a) simp_all

lemma selector_target_block:
  assumes "selector_matches sel sid" "selector_target sel = Some (addr, len)"
  shows "scope_block sid = Some (addr, unat len)"
  using assms by (cases sel; cases sid) auto

lemma tenant_covers_block:
  assumes "tenant_covers tp tenant addr len"
  shows "\<exists>owned n l. map_of tp tenant = Some owned \<and> (n, l) \<in> set owned \<and>
    (\<forall>a. leading_eq (unat len) addr a \<longrightarrow> leading_eq (unat l) n a)"
proof -
  obtain owned n l where own: "map_of tp tenant = Some owned" "(n, l) \<in> set owned"
      "l \<le> len" "network_contains n l addr"
    using assms by (auto simp: tenant_covers_def list_ex_iff split: option.splits)
  have "leading_eq (unat l) n a" if "leading_eq (unat len) addr a" for a
    using own(3,4) leading_eq_mono[OF that, of "unat l"] leading_eq_trans
    by (auto simp: network_contains_iff word_le_nat_alt)
  with own(1,2) show ?thesis by blast
qed

lemma validate_eq_Inr:
  "validate d tp = Inr p \<Longrightarrow>
     pd_window d \<noteq> 0 \<and> pd_window d \<le> pd_trigger_for d \<and> pd_window d \<le> pd_clear_for d \<and>
     pd_event_update_interval d \<noteq> 0 \<and> pd_thresholds d \<noteq> [] \<and> (\<forall>(m, v) \<in> set (pd_thresholds d). v \<noteq> 0) \<and>
     1 \<le> pd_clear_percent d \<and> pd_clear_percent d \<le> 100 \<and>
     validate_prefix_ownership (pd_id d) (pd_tenant d) (pd_selector d) tp = Inr () \<and>
     p = policy_of_draft d (ClearPercent (pd_clear_percent d))"
  by (auto simp: validate_def Let_def bind_res_eq_Inr ok_or_eq_Inr new_clear_percent_def
      ensure_all_eq_Inr split: if_splits)

definition policy_ok :: "DetectionPolicy \<Rightarrow> bool" where
  "policy_ok p \<longleftrightarrow>
     0 < dp_window p \<and> dp_window p \<le> dp_trigger_for p \<and> dp_window p \<le> dp_clear_for p \<and>
     0 < dp_event_update_interval p \<and> dp_thresholds p \<noteq> [] \<and> (\<forall>(m, v) \<in> set (dp_thresholds p). v \<noteq> 0) \<and>
     1 \<le> clear_percent_get (dp_clear_percent p) \<and> clear_percent_get (dp_clear_percent p) \<le> 100"

lemma validate_policy_ok: "validate d tp = Inr p \<Longrightarrow> policy_ok p"
  by (drule validate_eq_Inr) (auto simp: policy_ok_def policy_of_draft_def)

lemma policy_ok_trigger: "policy_ok p \<Longrightarrow> 0 < dp_trigger_for p"
  by (simp add: policy_ok_def)

lemma matches_scope_tenant:
  "matches_scope p key \<Longrightarrow> dp_tenant p \<noteq> WILDCARD_TENANT \<Longrightarrow> sk_tenant key = dp_tenant p"
  by (auto simp: matches_scope_def split: if_splits)

lemma matches_scope_selector: "matches_scope p key \<Longrightarrow> selector_matches (dp_selector p) (sk_scope_id key)"
  by (auto simp: matches_scope_def split: if_splits)

text \<open>
  Property C29. A policy accepted while prefix ownership is configured reaches only its own tenant's
  addresses: if it names a tenant and targets a host or a network, then every scope it governs
  belongs to that tenant, and every address of that scope's block lies inside one prefix the
  tenant owns.\<close>

theorem policy_governs_only_owned_prefixes:
  assumes "validate d tp = Inr p" "tp \<noteq> []" "dp_tenant p \<noteq> WILDCARD_TENANT"
    and "selector_target (dp_selector p) \<noteq> None" "matches_scope p key"
  shows "sk_tenant key = dp_tenant p \<and>
    (\<exists>block len owned n l. scope_block (sk_scope_id key) = Some (block, len) \<and>
       map_of tp (dp_tenant p) = Some owned \<and> (n, l) \<in> set owned \<and>
       (\<forall>a. leading_eq len block a \<longrightarrow> leading_eq (unat l) n a))"
proof -
  obtain addr len where target: "selector_target (dp_selector p) = Some (addr, len)"
    using assms(4) by auto
  have "validate_prefix_ownership (pd_id d) (dp_tenant p) (dp_selector p) tp = Inr ()"
    using validate_eq_Inr[OF assms(1)] by (auto simp: policy_of_draft_def)
  with assms(2,3) target have "tenant_covers tp (dp_tenant p) addr len"
    by (auto simp: validate_prefix_ownership_def split: if_splits)
  from tenant_covers_block[OF this] show ?thesis
    using selector_target_block[OF matches_scope_selector[OF assms(5)] target]
      matches_scope_tenant[OF assms(5,3)] by blast
qed

section \<open>What evaluation reports\<close>

definition metric_seen :: "DetectionSnapshot \<Rightarrow> MetricKind \<Rightarrow> bool" where
  "metric_seen s m \<longleftrightarrow> (\<forall>flag. required_completeness m = Some flag \<longrightarrow> completeness_has flag (sn_completeness s))"

lemma metric_seen_iff:
  "metric_seen s m \<longleftrightarrow> (case required_completeness m of None \<Rightarrow> True
     | Some flag \<Rightarrow> completeness_has flag (sn_completeness s))"
  by (auto simp: metric_seen_def split: option.splits)

lemma evaluate_metric_split:
  "evaluate_metric p s (m, t) e =
     \<lparr>ev_matched = ev_matched e @ (if metric_seen s m \<and> t \<le> rate_of m (sn_rates s)
        then [new_matched m (rate_of m (sn_rates s)) t] else []),
      ev_skipped = ev_skipped e @ (if metric_seen s m then [] else [\<lparr>sm_metric = m, sm_reason = SourceFieldAbsent\<rparr>]),
      ev_all_below_clear = (ev_all_below_clear e \<and>
        (metric_seen s m \<longrightarrow> rate_of m (sn_rates s) \<le> clear_threshold (dp_clear_percent p) t)),
      ev_evaluated = ev_evaluated e + (if metric_seen s m then 1 else 0)\<rparr>"
  by (cases e) (auto simp: evaluate_metric_def metric_seen_iff Let_def split: option.splits)

definition crossed :: "DetectionSnapshot \<Rightarrow> MetricKind \<times> u64 \<Rightarrow> bool" where
  "crossed s mt \<longleftrightarrow> metric_seen s (fst mt) \<and> snd mt \<le> rate_of (fst mt) (sn_rates s)"

lemma fold_evaluate_metric:
  "fold (evaluate_metric p s) ts e =
     \<lparr>ev_matched = ev_matched e @ map (\<lambda>(m, t). new_matched m (rate_of m (sn_rates s)) t) (filter (crossed s) ts),
      ev_skipped = ev_skipped e @ map (\<lambda>(m, t). \<lparr>sm_metric = m, sm_reason = SourceFieldAbsent\<rparr>)
        (filter (\<lambda>(m, t). \<not> metric_seen s m) ts),
      ev_all_below_clear = (ev_all_below_clear e \<and>
        (\<forall>(m, t) \<in> set ts. metric_seen s m \<longrightarrow> rate_of m (sn_rates s) \<le> clear_threshold (dp_clear_percent p) t)),
      ev_evaluated = ev_evaluated e + length (filter (\<lambda>(m, t). metric_seen s m) ts)\<rparr>"
proof (induction ts arbitrary: e)
  case (Cons mt ts)
  obtain m t where "mt = (m, t)" by (cases mt)
  with Cons show ?case by (auto simp: evaluate_metric_split crossed_def)
qed simp

lemmas evaluate_simps = evaluate_def fold_evaluate_metric Let_def

lemma over_threshold_iff:
  "is_over_threshold (evaluate p s) \<longleftrightarrow> (\<exists>mt \<in> set (dp_thresholds p). crossed s mt)"
  by (auto simp: is_over_threshold_def evaluate_simps filter_empty_conv)

lemma below_clear_iff:
  "ev_all_below_clear (evaluate p s) \<longleftrightarrow>
     (\<exists>(m, t) \<in> set (dp_thresholds p). metric_seen s m) \<and>
     (\<forall>(m, t) \<in> set (dp_thresholds p). metric_seen s m \<longrightarrow>
        rate_of m (sn_rates s) \<le> clear_threshold (dp_clear_percent p) t)"
  by (auto simp: evaluate_simps filter_empty_conv)

text \<open>
  Property C27. Evaluating a policy reports exactly the crossed thresholds, in the order of the
  policy: a metric is matched when its source field was seen and its rate reached the threshold,
  with the excess and the rate observed; the metrics whose field was absent are listed as skipped
  and take no part; and the snapshot counts as below clear only when some metric was evaluated and
  every evaluated one is at most its clear threshold.\<close>

theorem evaluate_reports_exactly:
  "map (\<lambda>r. (ma_metric r, ma_threshold r)) (ev_matched (evaluate p s)) = filter (crossed s) (dp_thresholds p) \<and>
   (\<forall>r. r \<in> set (ev_matched (evaluate p s)) \<longrightarrow>
      ma_observed r = rate_of (ma_metric r) (sn_rates s) \<and>
      unat (ma_observed r) = unat (ma_threshold r) + unat (ma_excess r)) \<and>
   map sm_metric (ev_skipped (evaluate p s)) = filter (\<lambda>m. \<not> metric_seen s m) (map fst (dp_thresholds p)) \<and>
   (ev_all_below_clear (evaluate p s) \<longleftrightarrow>
      (\<exists>(m, t) \<in> set (dp_thresholds p). metric_seen s m) \<and>
      (\<forall>(m, t) \<in> set (dp_thresholds p). metric_seen s m \<longrightarrow>
         rate_of m (sn_rates s) \<le> clear_threshold (dp_clear_percent p) t))"
proof (intro conjI)
  show "map (\<lambda>r. (ma_metric r, ma_threshold r)) (ev_matched (evaluate p s)) = filter (crossed s) (dp_thresholds p)"
    by (simp add: evaluate_simps new_matched_def split_beta comp_def)
  show "\<forall>r. r \<in> set (ev_matched (evaluate p s)) \<longrightarrow>
      ma_observed r = rate_of (ma_metric r) (sn_rates s) \<and>
      unat (ma_observed r) = unat (ma_threshold r) + unat (ma_excess r)"
    by (auto simp: evaluate_simps new_matched_def crossed_def saturating_sub_def unat_sub word_le_nat_alt)
  show "map sm_metric (ev_skipped (evaluate p s)) = filter (\<lambda>m. \<not> metric_seen s m) (map fst (dp_thresholds p))"
    by (simp add: evaluate_simps filter_map comp_def split_def)
  show "ev_all_below_clear (evaluate p s) \<longleftrightarrow>
      (\<exists>(m, t) \<in> set (dp_thresholds p). metric_seen s m) \<and>
      (\<forall>(m, t) \<in> set (dp_thresholds p). metric_seen s m \<longrightarrow>
         rate_of m (sn_rates s) \<le> clear_threshold (dp_clear_percent p) t)"
    by (rule below_clear_iff)
qed

lemma unat_clear_threshold:
  assumes "clear_percent_get p \<le> 100"
  shows "unat (clear_threshold p t) = unat t * unat (clear_percent_get p) div 100"
proof -
  have "unat t * unat (clear_percent_get p) div 100 \<le> unat t * 100 div 100"
    using assms by (intro div_le_mono mult_le_mono2) (simp add: word_le_nat_alt)
  also have "\<dots> < 2 ^ 64" using unsigned_less[of t] by simp
  finally show ?thesis by (simp add: clear_threshold_def Let_def unat_of_nat)
qed

lemma clear_threshold_below:
  assumes "clear_percent_get p < 100" "t \<noteq> 0"
  shows "clear_threshold p t < t"
proof -
  have "0 < unat t" using assms(2) by (simp add: unat_gt_0)
  then have "unat t * unat (clear_percent_get p) < unat t * 100"
    using assms(1) by (simp add: word_less_nat_alt)
  then have "unat t * unat (clear_percent_get p) div 100 < unat t"
    by (simp add: div_less_iff_less_mult)
  then show ?thesis
    using unat_clear_threshold[of p t] assms(1) by (simp add: word_less_nat_alt word_le_nat_alt)
qed

lemma clear_threshold_full: "clear_percent_get p = 100 \<Longrightarrow> clear_threshold p t = t"
  by (simp add: unat_clear_threshold word_unat_eq_iff[of "clear_threshold p t"])

text \<open>
  Property C30. The hysteresis band closes at a clear percentage of 100. Under a validated policy
  with a smaller percentage no snapshot is over threshold and below clear at once; with 100 the
  two hold together exactly when some evaluated metric sits on its threshold and none is above,
  so a detection starts to clear on traffic that has not dropped below the trigger.\<close>

theorem over_and_clear_exactly_on_the_threshold:
  assumes "validate d tp = Inr p"
  shows "is_over_threshold (evaluate p s) \<and> ev_all_below_clear (evaluate p s) \<longleftrightarrow>
    clear_percent_get (dp_clear_percent p) = 100 \<and>
    (\<exists>(m, t) \<in> set (dp_thresholds p). metric_seen s m \<and> rate_of m (sn_rates s) = t) \<and>
    (\<forall>(m, t) \<in> set (dp_thresholds p). metric_seen s m \<longrightarrow> rate_of m (sn_rates s) \<le> t)" (is "?L \<longleftrightarrow> ?R")
proof -
  have ok: "policy_ok p" by (rule validate_policy_ok[OF assms])
  show ?thesis
  proof (cases "clear_percent_get (dp_clear_percent p) = 100")
    case True
    note full = clear_threshold_full[OF True]
    show ?thesis
    proof
      assume both: "?L"
      then obtain m t where mt: "(m, t) \<in> set (dp_thresholds p)" "metric_seen s m" "t \<le> rate_of m (sn_rates s)"
        by (auto simp: over_threshold_iff crossed_def)
      have below: "\<forall>(m, t) \<in> set (dp_thresholds p). metric_seen s m \<longrightarrow> rate_of m (sn_rates s) \<le> t"
        using both by (simp add: below_clear_iff full)
      with mt have "rate_of m (sn_rates s) = t" by (intro order_antisym) auto
      with mt have "\<exists>(m, t) \<in> set (dp_thresholds p). metric_seen s m \<and> rate_of m (sn_rates s) = t" by blast
      with True below show "?R" by simp
    next
      assume right: "?R"
      then obtain m where m: "(m, rate_of m (sn_rates s)) \<in> set (dp_thresholds p)" "metric_seen s m" by blast
      then have "crossed s (m, rate_of m (sn_rates s))" by (simp add: crossed_def)
      with m right show "?L"
        unfolding over_threshold_iff below_clear_iff full by blast
    qed
  next
    case False
    with ok have less: "clear_percent_get (dp_clear_percent p) < 100" by (auto simp: policy_ok_def)
    have "\<not> (is_over_threshold (evaluate p s) \<and> ev_all_below_clear (evaluate p s))"
    proof
      assume both: "is_over_threshold (evaluate p s) \<and> ev_all_below_clear (evaluate p s)"
      then obtain m t where mt: "(m, t) \<in> set (dp_thresholds p)" "metric_seen s m" "t \<le> rate_of m (sn_rates s)"
        by (auto simp: over_threshold_iff crossed_def)
      with both have "rate_of m (sn_rates s) \<le> clear_threshold (dp_clear_percent p) t"
        by (auto simp: below_clear_iff)
      moreover have "clear_threshold (dp_clear_percent p) t < t"
        using ok mt(1) by (intro clear_threshold_below[OF less]) (auto simp: policy_ok_def)
      ultimately show False using mt(3) by simp
    qed
    with False show ?thesis by blast
  qed
qed

section \<open>The governing policy\<close>

definition set_ok :: "PolicySet \<Rightarrow> bool" where
  "set_ok ps \<longleftrightarrow> bt_ok ps \<and> (\<forall>(k, p) \<in> set ps. k = dp_id p)"

lemma set_bt_insert_new:
  "map_of m k = None \<Longrightarrow> set (bt_insert k v m) = insert (k, v) (set m)"
  by (induction k v m rule: bt_insert.induct) (auto split: if_splits)

lemma from_policies_loop_ok:
  "from_policies_loop acc ps = Inr m \<Longrightarrow> set_ok acc \<Longrightarrow>
     set_ok m \<and> snd ` set m = snd ` set acc \<union> set ps"
proof (induction acc ps rule: from_policies_loop.induct)
  case (2 acc p ps)
  then have new: "map_of acc (dp_id p) = None"
    and rest: "from_policies_loop (bt_insert (dp_id p) p acc) ps = Inr m" by (auto split: if_splits)
  have "set_ok (bt_insert (dp_id p) p acc)"
    using 2(3) set_bt_insert_new[OF new] by (auto simp: set_ok_def)
  with 2(1)[OF _ rest] new show ?case
    by (auto simp: set_bt_insert_new[OF new])
qed simp

lemma from_policies_ok: "from_policies ps = Inr m \<Longrightarrow> set_ok m \<and> snd ` set m = set ps"
  using from_policies_loop_ok[of "[]" ps m] by (auto simp: from_policies_def set_ok_def)

definition outranks :: "DetectionPolicy \<Rightarrow> DetectionPolicy \<Rightarrow> bool" where
  "outranks w p \<longleftrightarrow> specificity p < specificity w \<or>
     (specificity p = specificity w \<and>
       (dp_priority p < dp_priority w \<or> (dp_priority p = dp_priority w \<and> dp_id w < dp_id p)))"

lemma precedence_key_le:
  "precedence_key w \<le> precedence_key p \<longleftrightarrow> outranks w p \<or> (specificity p = specificity w \<and>
     dp_priority p = dp_priority w \<and> dp_id p = dp_id w)"
  by (auto simp: precedence_key_def outranks_def less_eq_prod_def less_prod_def)

lemma winner_for_spec:
  assumes ok: "set_ok m"
  shows "case winner_for m key of
      None \<Rightarrow> \<forall>p \<in> snd ` set m. \<not> matches_scope p key
    | Some w \<Rightarrow> w \<in> snd ` set m \<and> matches_scope w key \<and>
        (\<forall>p \<in> snd ` set m. matches_scope p key \<longrightarrow> p = w \<or> outranks w p)"
proof (cases "sort_key precedence_key (filter (\<lambda>p. matches_scope p key) (map snd m))")
  case Nil
  then have "filter (\<lambda>p. matches_scope p key) (map snd m) = []"
    by (metis length_0_conv length_sort)
  with Nil show ?thesis
    by (auto simp: winner_for_def select_def no_selection_def filter_empty_conv)
next
  case (Cons w others)
  let ?c = "filter (\<lambda>p. matches_scope p key) (map snd m)"
  have w: "w \<in> snd ` set m" "matches_scope w key"
    using arg_cong[OF Cons, of set] by auto
  have least: "precedence_key w \<le> precedence_key p" if "p \<in> snd ` set m" "matches_scope p key" for p
  proof -
    have "sorted (map precedence_key (w # others))"
      using sorted_sort_key[of precedence_key ?c] by (simp only: Cons)
    moreover have "p \<in> set (w # others)" using arg_cong[OF Cons, of set] that by auto
    ultimately show ?thesis by auto
  qed
  have same_id: "p = w" if "p \<in> snd ` set m" "dp_id p = dp_id w" for p
  proof -
    have "(dp_id p, p) \<in> set m" "(dp_id w, w) \<in> set m"
      using ok that(1) w(1) by (auto simp: set_ok_def)
    with that(2) ok show ?thesis
      by (metis bt_ok_distinct eq_key_imp_eq_value set_ok_def)
  qed
  have "(dp_id w, w) \<in> set m" using ok w(1) by (auto simp: set_ok_def)
  then have "map_of m (dp_id w) = Some w"
    using ok by (intro map_of_is_SomeI[OF bt_ok_distinct]) (simp_all add: set_ok_def)
  with w least same_id show ?thesis
    by (auto simp: winner_for_def select_def Cons precedence_key_le)
qed

text \<open>
  Property C28. The governing policy is the greatest one of a total order: among the policies of
  the set that match a scope it is the most specific, then the one with the highest priority, then
  the one with the smallest id; a scope has none exactly when no policy matches. The order in
  which the policies were given plays no part.\<close>

theorem governing_policy_is_the_greatest:
  assumes "from_policies ps = Inr m"
  shows "(case winner_for m key of
      None \<Rightarrow> \<forall>p \<in> set ps. \<not> matches_scope p key
    | Some w \<Rightarrow> w \<in> set ps \<and> matches_scope w key \<and>
        (\<forall>p \<in> set ps. matches_scope p key \<longrightarrow> p = w \<or> outranks w p)) \<and>
    (\<forall>ps' m'. from_policies ps' = Inr m' \<and> set ps' = set ps \<longrightarrow> winner_for m' key = winner_for m key)"
proof -
  have asym: "\<not> outranks a b" if "outranks b a" for a b
    using that by (auto simp: outranks_def)
  have spec: "case winner_for n key of
      None \<Rightarrow> \<forall>p \<in> set qs. \<not> matches_scope p key
    | Some w \<Rightarrow> w \<in> set qs \<and> matches_scope w key \<and> (\<forall>p \<in> set qs. matches_scope p key \<longrightarrow> p = w \<or> outranks w p)"
    if "from_policies qs = Inr n" for qs n
  proof -
    have ok: "set_ok n" and eq: "set qs = snd ` set n" using from_policies_ok[OF that] by auto
    show ?thesis unfolding eq by (rule winner_for_spec[OF ok])
  qed
  have "winner_for m' key = winner_for m key" if "from_policies ps' = Inr m'" "set ps' = set ps" for ps' m'
    using spec[OF that(1)] spec[OF assms] that(2) asym by (auto split: option.splits) blast
  with spec[OF assms] show ?thesis by blast
qed

lemma specificity_below_tenant:
  "unat (scope_specificity st) * 1000 + selector_specificity sel + (if f then 1 else 0) < 1000000"
  using unat_u8_less[of "case sel of SelNetwork _ l \<Rightarrow> l | _ \<Rightarrow> 0"]
  by (cases st; cases sel) auto

text \<open>
  A policy that names its tenant outranks every wildcard-tenant policy, whatever the
  two select: the tenant's own default for a scope beats a wildcard policy written for that very
  host or network.\<close>

theorem named_tenant_outranks_wildcard:
  assumes "dp_tenant p \<noteq> WILDCARD_TENANT" "dp_tenant q = WILDCARD_TENANT"
  shows "outranks p q"
  using assms specificity_below_tenant[of "dp_scope_type q" "dp_selector q" "dp_address_family q \<noteq> None"]
  by (auto simp: outranks_def specificity_def)


text \<open>A concrete policy: one host threshold, ownership configured for its tenant.\<close>

definition sample_draft :: PolicyDraft where
  "sample_draft = \<lparr>pd_id = lit ''p1'', pd_name = lit ''host flood'', pd_description = None, pd_enabled = True,
     pd_tenant = lit ''acme'', pd_scope_type = HostScope, pd_selector = SelHost (V4 0xCB007107),
     pd_address_family = None, pd_direction = TrafficIncoming, pd_window = secs 5,
     pd_thresholds = [(Bps, 1000), (TcpSynPps, 50)], pd_clear_percent = 100, pd_trigger_for = secs 10,
     pd_clear_for = secs 10, pd_cooldown = secs 30, pd_hold_down = secs 20,
     pd_event_update_interval = secs 60, pd_severity = Major, pd_execution_mode = AlertOnly,
     pd_priority = 0, pd_labels = [], pd_version = 1\<rparr>"

definition sample_prefixes :: TenantPrefixes where
  "sample_prefixes = [(lit ''acme'', [(V4 0xCB007100, 24)])]"

definition sample_policy :: DetectionPolicy where
  "sample_policy = policy_of_draft sample_draft (ClearPercent 100)"

definition sample_key :: ScopeKey where
  "sample_key = ScopeKey (lit ''acme'') HostScope (HostId (V4 0xCB007107)) TrafficIncoming Ipv4"

lemma sample_validates: "validate sample_draft sample_prefixes = Inr sample_policy"
  by (simp add: validate_def sample_draft_def sample_prefixes_def sample_policy_def Let_def
      validate_id_def MAX_POLICY_ID_LEN_def lit_def is_id_char_def trim_def is_whitespace_def
      ensure_def MAX_POLICY_NAME_LEN_def MAX_LABELS_def MAX_WINDOW_def MAX_TIMER_def
      new_clear_percent_def validate_selector_def validate_direction_def validate_prefix_ownership_def
      WILDCARD_TENANT_def tenant_covers_def network_contains_iff)

lemma sample_fields [simp]:
  "dp_tenant sample_policy = lit ''acme''" "dp_selector sample_policy = SelHost (V4 0xCB007107)"
  "dp_thresholds sample_policy = [(Bps, 1000), (TcpSynPps, 50)]"
  "dp_clear_percent sample_policy = ClearPercent 100" "dp_id sample_policy = lit ''p1''"
  by (simp_all add: sample_policy_def policy_of_draft_def sample_draft_def)

lemma sample_matches: "matches_scope sample_policy sample_key"
  by (simp add: matches_scope_def sample_policy_def policy_of_draft_def sample_draft_def sample_key_def)

lemma acme_is_named: "lit ''acme'' \<noteq> WILDCARD_TENANT"
  by (simp add: WILDCARD_TENANT_def lit_def)

theorem policy_governs_only_owned_prefixes_witness:
  "\<exists>n l. (n, l) \<in> set (the (map_of sample_prefixes (lit ''acme''))) \<and> leading_eq (unat l) n (V4 0xCB007107)"
proof -
  have "selector_target (dp_selector sample_policy) \<noteq> None" "sample_prefixes \<noteq> []"
    by (simp_all add: sample_prefixes_def)
  with policy_governs_only_owned_prefixes[OF sample_validates _ _ _ sample_matches] acme_is_named
  obtain block len owned n l where own: "scope_block (sk_scope_id sample_key) = Some (block, len)"
      "map_of sample_prefixes (lit ''acme'') = Some owned" "(n, l) \<in> set owned"
      "\<forall>a. leading_eq len block a \<longrightarrow> leading_eq (unat l) n a"
    by auto
  from own(1) have "block = V4 0xCB007107" by (simp add: sample_key_def)
  with own(2-4) show ?thesis by force
qed

definition sample_snapshot :: "nat \<Rightarrow> u64 \<Rightarrow> DetectionSnapshot" where
  "sample_snapshot at bps = \<lparr>sn_key = sample_key, sn_window = secs 5, sn_observed_at = at, sn_observed_wall = int at,
     sn_rates = default_rates\<lparr>mt_bps := bps\<rparr>, sn_completeness = default_completeness,
     sn_sampling = default_sampling, sn_flows_observed = 1, sn_exporters_observed = 1\<rparr>"

theorem evaluate_reports_exactly_witness:
  "map (\<lambda>r. (ma_metric r, ma_threshold r)) (ev_matched (evaluate sample_policy (sample_snapshot 0 1500))) = [(Bps, 1000)] \<and>
   map sm_metric (ev_skipped (evaluate sample_policy (sample_snapshot 0 1500))) = [TcpSynPps]"
  using evaluate_reports_exactly[of sample_policy "sample_snapshot 0 1500"]
  by (simp add: crossed_def metric_seen_iff sample_snapshot_def default_completeness_def default_rates_def)

theorem over_and_clear_exactly_on_the_threshold_witness:
  "is_over_threshold (evaluate sample_policy (sample_snapshot 0 1000)) \<and>
   ev_all_below_clear (evaluate sample_policy (sample_snapshot 0 1000))"
  by (subst over_and_clear_exactly_on_the_threshold[OF sample_validates])
    (simp add: sample_snapshot_def metric_seen_def default_completeness_def)

theorem governing_policy_is_the_greatest_witness:
  "(\<forall>key. case winner_for [(lit ''p1'', sample_policy)] key of
       None \<Rightarrow> \<not> matches_scope sample_policy key | Some w \<Rightarrow> w = sample_policy) \<and>
   matches_scope sample_policy sample_key"
proof -
  have "from_policies [sample_policy] = Inr [(lit ''p1'', sample_policy)]"
    by (simp add: from_policies_def)
  then have "case winner_for [(lit ''p1'', sample_policy)] key of
       None \<Rightarrow> \<not> matches_scope sample_policy key | Some w \<Rightarrow> w = sample_policy" for key
    using governing_policy_is_the_greatest[of "[sample_policy]" _ key] by (auto split: option.splits)
  with sample_matches show ?thesis by blast
qed

theorem named_tenant_outranks_wildcard_witness:
  "outranks sample_policy (sample_policy\<lparr>dp_tenant := WILDCARD_TENANT\<rparr>)"
  by (rule named_tenant_outranks_wildcard) (simp_all add: acme_is_named)

end
