(* ===== verification/Detection_State.thy ===== *)
theory Detection_State
  imports Detection_Policy "HOL-Library.AList"
begin

text \<open>
  The per-scope state machine of the detector and its bounded table
  (\<open>crates/detector/src/state.rs\<close>): one snapshot at a time through \<open>step\<close>, and the
  resets by an operator, by a policy swap and by the sweep. The properties say that the table is
  well formed and bounded in every history, that replayed and late snapshots change nothing, that
  a detection opens only on an excess sustained for the policy's trigger time, and that the
  signals of a scope are correctly bracketed with consecutive sequence numbers.
\<close>

section \<open>States and transitions\<close>

datatype DetectionState = Idle | PendingTrigger | Active | PendingClear | Cooldown

primrec detection_state_as_str :: "DetectionState \<Rightarrow> string" where
  "detection_state_as_str Idle = ''idle''"
| "detection_state_as_str PendingTrigger = ''pendingTrigger''"
| "detection_state_as_str Active = ''active''"
| "detection_state_as_str PendingClear = ''pendingClear''"
| "detection_state_as_str Cooldown = ''cooldown''"

definition is_open :: "DetectionState \<Rightarrow> bool" where
  "is_open s = (s = Active \<or> s = PendingClear)"

definition state_can_transition_to :: "DetectionState \<Rightarrow> DetectionState \<Rightarrow> bool" where
  "state_can_transition_to s to =
     (if to = Idle then s \<noteq> Idle
      else (s, to) \<in> {(Idle, PendingTrigger), (Idle, Active), (PendingTrigger, Active),
        (Active, PendingClear), (Active, Cooldown), (PendingClear, Active), (PendingClear, Cooldown)})"

datatype TransitionReason =
  ThresholdCrossed | TriggerSustained | TriggerAborted | FellBelowClear | ClearSustained
| ClearAborted | CooldownExpired | PolicyChanged | PolicyWithdrawn | Stale | ManualReset | StillActive

primrec reason_as_str :: "TransitionReason \<Rightarrow> string" where
  "reason_as_str ThresholdCrossed = ''thresholdCrossed''"
| "reason_as_str TriggerSustained = ''triggerSustained''"
| "reason_as_str TriggerAborted = ''triggerAborted''"
| "reason_as_str FellBelowClear = ''fellBelowClear''"
| "reason_as_str ClearSustained = ''clearSustained''"
| "reason_as_str ClearAborted = ''clearAborted''"
| "reason_as_str CooldownExpired = ''cooldownExpired''"
| "reason_as_str PolicyChanged = ''policyChanged''"
| "reason_as_str PolicyWithdrawn = ''policyWithdrawn''"
| "reason_as_str Stale = ''stale''"
| "reason_as_str ManualReset = ''manualReset''"
| "reason_as_str StillActive = ''stillActive''"

record StateTransition =
  tr_key :: ScopeKey
  tr_policy_id :: rust_str
  tr_policy_version :: u32
  tr_from :: DetectionState
  tr_to :: DetectionState
  tr_reason :: TransitionReason
  tr_at :: nat
  tr_at_wall :: WallTime
  tr_matched :: "MatchedReason list"
  tr_time_in_previous :: nat

datatype Signal = Started | Updated | Ended

datatype StepIgnored = WindowMismatch | OutOfOrder | DuplicateSnapshot | TableFull | ModeDisabled

primrec ignored_as_str :: "StepIgnored \<Rightarrow> string" where
  "ignored_as_str WindowMismatch = ''windowMismatch''"
| "ignored_as_str OutOfOrder = ''outOfOrder''"
| "ignored_as_str DuplicateSnapshot = ''duplicate''"
| "ignored_as_str TableFull = ''tableFull''"
| "ignored_as_str ModeDisabled = ''modeDisabled''"

datatype Suppression = CooldownSuppression | HoldDown

primrec suppression_as_str :: "Suppression \<Rightarrow> string" where
  "suppression_as_str CooldownSuppression = ''cooldown''"
| "suppression_as_str HoldDown = ''holdDown''"

record DetectionContext =
  dx_started_at :: nat
  dx_started_wall :: WallTime
  dx_sequence :: u64
  dx_peak :: "MatchedReason list"
  dx_snapshots_in_detection :: u64

record SignalRecord =
  sr_signal :: Signal
  sr_transition :: StateTransition
  sr_detection :: DetectionContext

record StepOutcome =
  so_transitions :: "StateTransition list"
  so_signal :: "SignalRecord option"
  so_state :: "DetectionState option"
  so_ignored :: "StepIgnored option"
  so_suppressed :: "Suppression option"

definition default_outcome :: StepOutcome where
  "default_outcome = \<lparr>so_transitions = [], so_signal = None, so_state = None, so_ignored = None,
     so_suppressed = None\<rparr>"

definition outcome_skipped :: "StepIgnored \<Rightarrow> DetectionState option \<Rightarrow> StepOutcome" where
  "outcome_skipped reason state = default_outcome\<lparr>so_state := state, so_ignored := Some reason\<rparr>"

definition signal_kind :: "StepOutcome \<Rightarrow> Signal option" where
  "signal_kind o' = map_option sr_signal (so_signal o')"

section \<open>One scope\<close>

record ScopeState =
  st_key :: ScopeKey
  st_policy_id :: rust_str
  st_policy_version :: u32
  st_state :: DetectionState
  st_entered_at :: nat
  st_active_since :: "nat option"
  st_active_since_wall :: "WallTime option"
  st_last_snapshot_at :: "nat option"
  st_last_snapshot_wall :: "WallTime option"
  st_last_event_at :: "nat option"
  st_last_matched :: "MatchedReason list"
  st_peak_matched :: "MatchedReason list"
  st_snapshots_in_detection :: u64
  st_events_in_detection :: u64

definition new_scope_state :: "ScopeKey \<Rightarrow> DetectionPolicy \<Rightarrow> nat \<Rightarrow> ScopeState" where
  "new_scope_state key policy at =
     \<lparr>st_key = key, st_policy_id = dp_id policy, st_policy_version = dp_version policy, st_state = Idle,
      st_entered_at = at, st_active_since = None, st_active_since_wall = None,
      st_last_snapshot_at = None, st_last_snapshot_wall = None, st_last_event_at = None,
      st_last_matched = [], st_peak_matched = [], st_snapshots_in_detection = 0,
      st_events_in_detection = 0\<rparr>"

fun zip_option :: "'a option \<Rightarrow> 'b option \<Rightarrow> ('a \<times> 'b) option" where
  "zip_option (Some a) (Some b) = Some (a, b)"
| "zip_option _ _ = None"

definition opened :: "ScopeState \<Rightarrow> (nat \<times> WallTime) option" where
  "opened e = zip_option (st_active_since e) (st_active_since_wall e)"

definition scope_context :: "(nat \<times> WallTime) option \<Rightarrow> ScopeState \<Rightarrow> DetectionContext option \<times> ScopeState" where
  "scope_context started e =
     (case (case started of None \<Rightarrow> opened e | Some s \<Rightarrow> Some s) of
        None \<Rightarrow> (None, e)
      | Some (started_at, started_wall) \<Rightarrow>
          (Some \<lparr>dx_started_at = started_at, dx_started_wall = started_wall,
             dx_sequence = st_events_in_detection e, dx_peak = st_peak_matched e,
             dx_snapshots_in_detection = st_snapshots_in_detection e\<rparr>,
           e\<lparr>st_events_in_detection := saturating_add (st_events_in_detection e) 1\<rparr>))"

definition time_in_state :: "nat \<Rightarrow> ScopeState \<Rightarrow> nat" where
  "time_in_state now e = now - st_entered_at e"

definition detection_age :: "nat \<Rightarrow> ScopeState \<Rightarrow> nat option" where
  "detection_age now e = map_option (\<lambda>since. now - since) (st_active_since e)"

definition enter_state :: "DetectionState \<Rightarrow> nat \<Rightarrow> WallTime \<Rightarrow> ScopeState \<Rightarrow> ScopeState" where
  "enter_state to at at_wall e =
     (let e = e\<lparr>st_state := to, st_entered_at := at\<rparr> in
      case to of
        Active \<Rightarrow>
          if st_active_since e = None then
            e\<lparr>st_active_since := Some at, st_active_since_wall := Some at_wall,
              st_snapshots_in_detection := 0, st_events_in_detection := 0, st_peak_matched := []\<rparr>
          else e
      | Idle \<Rightarrow> e\<lparr>st_active_since := None, st_active_since_wall := None\<rparr>
      | Cooldown \<Rightarrow> e\<lparr>st_active_since := None, st_active_since_wall := None\<rparr>
      | _ \<Rightarrow> e)"

definition scope_transition ::
    "DetectionState \<Rightarrow> TransitionReason \<Rightarrow> nat \<Rightarrow> WallTime \<Rightarrow> MatchedReason list \<Rightarrow> ScopeState
     \<Rightarrow> StateTransition option \<times> ScopeState" where
  "scope_transition to reason at at_wall matched e =
     (if \<not> state_can_transition_to (st_state e) to then (None, e)
      else
        (Some \<lparr>tr_key = st_key e, tr_policy_id = st_policy_id e, tr_policy_version = st_policy_version e,
           tr_from = st_state e, tr_to = to, tr_reason = reason, tr_at = at, tr_at_wall = at_wall,
           tr_matched = matched, tr_time_in_previous = at - st_entered_at e\<rparr>,
         enter_state to at at_wall e))"

fun record_peak :: "MatchedReason \<Rightarrow> MatchedReason list \<Rightarrow> MatchedReason list" where
  "record_peak reason [] = [reason]"
| "record_peak reason (existing # peaks) =
     (if ma_metric existing = ma_metric reason then
        (if ma_observed reason > ma_observed existing then reason else existing) # peaks
      else existing # record_peak reason peaks)"

definition record_peaks :: "MatchedReason list \<Rightarrow> ScopeState \<Rightarrow> ScopeState" where
  "record_peaks matched e = e\<lparr>st_peak_matched := fold record_peak matched (st_peak_matched e)\<rparr>"

section \<open>The table\<close>

record StateTableConfig =
  sc_max_entries :: nat
  sc_idle_ttl :: nat
  sc_stale_after :: nat

definition default_table_config :: StateTableConfig where
  "default_table_config = \<lparr>sc_max_entries = 100000, sc_idle_ttl = secs 300, sc_stale_after = secs 180\<rparr>"

record Expiry =
  xp_key :: ScopeKey
  xp_transition :: "StateTransition option"
  xp_signal :: "Signal option"
  xp_detection :: "DetectionContext option"

record StateTableStats =
  ts_rejected_table_full :: u64
  ts_ignored_out_of_order :: u64
  ts_ignored_duplicate :: u64
  ts_ignored_window_mismatch :: u64
  ts_expired_idle :: u64
  ts_expired_stale :: u64
  ts_policy_changes :: u64

definition default_table_stats :: StateTableStats where
  "default_table_stats = \<lparr>ts_rejected_table_full = 0, ts_ignored_out_of_order = 0,
     ts_ignored_duplicate = 0, ts_ignored_window_mismatch = 0, ts_expired_idle = 0,
     ts_expired_stale = 0, ts_policy_changes = 0\<rparr>"

record StateTable =
  tb_config :: StateTableConfig
  tb_entries :: "(ScopeKey \<times> ScopeState) list"
  tb_stats :: StateTableStats

definition new_state_table :: "StateTableConfig \<Rightarrow> StateTable" where
  "new_state_table config = \<lparr>tb_config = config, tb_entries = [], tb_stats = default_table_stats\<rparr>"

definition table_open_detections :: "StateTable \<Rightarrow> ScopeState list" where
  "table_open_detections t = sort_key st_key (filter (\<lambda>e. is_open (st_state e)) (map snd (tb_entries t)))"

definition table_count_in :: "DetectionState \<Rightarrow> StateTable \<Rightarrow> nat" where
  "table_count_in state t = length (filter (\<lambda>e. st_state e = state) (map snd (tb_entries t)))"

subsection \<open>One snapshot\<close>

definition push_transition :: "StateTransition \<Rightarrow> StepOutcome \<Rightarrow> StepOutcome" where
  "push_transition t o' = o'\<lparr>so_transitions := so_transitions o' @ [t]\<rparr>"

definition raise_signal ::
    "Signal \<Rightarrow> StateTransition \<Rightarrow> (nat \<times> WallTime) option \<Rightarrow> ScopeState \<times> StepOutcome \<Rightarrow> ScopeState \<times> StepOutcome" where
  "raise_signal signal t started eo =
     (case scope_context started (fst eo) of
        (None, e) \<Rightarrow> (e, snd eo)
      | (Some detection, e) \<Rightarrow>
          (e, (snd eo)\<lparr>so_signal := Some \<lparr>sr_signal = signal, sr_transition = t, sr_detection = detection\<rparr>\<rparr>))"

definition move ::
    "DetectionState \<Rightarrow> TransitionReason \<Rightarrow> nat \<Rightarrow> WallTime \<Rightarrow> MatchedReason list
     \<Rightarrow> (StateTransition \<Rightarrow> ScopeState \<times> StepOutcome \<Rightarrow> ScopeState \<times> StepOutcome)
     \<Rightarrow> ScopeState \<times> StepOutcome \<Rightarrow> ScopeState \<times> StepOutcome" where
  "move to reason now wall matched announce eo =
     (case scope_transition to reason now wall matched (fst eo) of
        (None, e) \<Rightarrow> (e, snd eo)
      | (Some t, e) \<Rightarrow> (let (e, o') = announce t (e, snd eo) in (e, push_transition t o')))"

definition policy_change ::
    "DetectionPolicy \<Rightarrow> nat \<Rightarrow> WallTime \<Rightarrow> ScopeState \<times> StepOutcome \<Rightarrow> ScopeState \<times> StepOutcome" where
  "policy_change policy now wall eo =
     (let was_open = is_open (st_state (fst eo));
          op = opened (fst eo);
          (e, o') = move Idle PolicyChanged now wall []
            (\<lambda>t eo. if was_open then raise_signal Ended t op eo else eo) eo
      in (e\<lparr>st_policy_id := dp_id policy, st_policy_version := dp_version policy,
            st_last_event_at := None, st_peak_matched := []\<rparr>, o'))"

definition start_detection ::
    "MatchedReason list \<Rightarrow> nat \<Rightarrow> StateTransition \<Rightarrow> ScopeState \<times> StepOutcome \<Rightarrow> ScopeState \<times> StepOutcome" where
  "start_detection matched now t eo =
     raise_signal Started t None ((record_peaks matched (fst eo))\<lparr>st_last_event_at := Some now\<rparr>, snd eo)"

definition close_detection ::
    "DetectionPolicy \<Rightarrow> nat \<Rightarrow> WallTime \<Rightarrow> ScopeState \<times> StepOutcome \<Rightarrow> ScopeState \<times> StepOutcome" where
  "close_detection policy now wall eo =
     (let to = (if dp_cooldown policy = 0 then Idle else Cooldown);
          op = opened (fst eo)
      in move to ClearSustained now wall []
           (\<lambda>t eo. raise_signal Ended t op ((fst eo)\<lparr>st_last_event_at := Some now\<rparr>, snd eo)) eo)"

definition step_idle ::
    "DetectionPolicy \<Rightarrow> nat \<Rightarrow> WallTime \<Rightarrow> Evaluation \<Rightarrow> ScopeState \<times> StepOutcome \<Rightarrow> ScopeState \<times> StepOutcome" where
  "step_idle policy now wall ev eo =
     (if is_over_threshold ev then
        let to = (if dp_trigger_for policy = 0 then Active else PendingTrigger)
        in move to ThresholdCrossed now wall (ev_matched ev)
             (\<lambda>t eo. if to = Active then start_detection (ev_matched ev) now t eo else eo) eo
      else eo)"

definition step_pending_trigger ::
    "DetectionPolicy \<Rightarrow> nat \<Rightarrow> WallTime \<Rightarrow> Evaluation \<Rightarrow> ScopeState \<times> StepOutcome \<Rightarrow> ScopeState \<times> StepOutcome" where
  "step_pending_trigger policy now wall ev eo =
     (if is_over_threshold ev then
        if time_in_state now (fst eo) \<ge> dp_trigger_for policy
        then move Active TriggerSustained now wall (ev_matched ev) (start_detection (ev_matched ev) now) eo
        else eo
      else move Idle TriggerAborted now wall [] (\<lambda>_ eo. eo) eo)"

definition step_active ::
    "DetectionPolicy \<Rightarrow> nat \<Rightarrow> WallTime \<Rightarrow> Evaluation \<Rightarrow> ScopeState \<times> StepOutcome \<Rightarrow> ScopeState \<times> StepOutcome" where
  "step_active policy now wall ev eo =
     (if ev_all_below_clear ev then
        let held = (case detection_age now (fst eo) of None \<Rightarrow> True | Some age \<Rightarrow> age \<ge> dp_hold_down policy) in
        if \<not> held then (fst eo, (snd eo)\<lparr>so_suppressed := Some HoldDown\<rparr>)
        else if dp_clear_for policy = 0 then close_detection policy now wall eo
        else move PendingClear FellBelowClear now wall [] (\<lambda>_ eo. eo) eo
      else eo)"

definition step_pending_clear ::
    "DetectionPolicy \<Rightarrow> nat \<Rightarrow> WallTime \<Rightarrow> Evaluation \<Rightarrow> ScopeState \<times> StepOutcome \<Rightarrow> ScopeState \<times> StepOutcome" where
  "step_pending_clear policy now wall ev eo =
     (if ev_all_below_clear ev then
        if time_in_state now (fst eo) \<ge> dp_clear_for policy then close_detection policy now wall eo else eo
      else move Active ClearAborted now wall (ev_matched ev) (\<lambda>_ eo. eo) eo)"

definition step_state ::
    "DetectionPolicy \<Rightarrow> nat \<Rightarrow> WallTime \<Rightarrow> Evaluation \<Rightarrow> ScopeState \<times> StepOutcome \<Rightarrow> ScopeState \<times> StepOutcome" where
  "step_state policy now wall ev eo =
     (case st_state (fst eo) of
        Idle \<Rightarrow> step_idle policy now wall ev eo
      | PendingTrigger \<Rightarrow> step_pending_trigger policy now wall ev eo
      | Active \<Rightarrow> step_active policy now wall ev eo
      | PendingClear \<Rightarrow> step_pending_clear policy now wall ev eo
      | Cooldown \<Rightarrow>
          if is_over_threshold ev then (fst eo, (snd eo)\<lparr>so_suppressed := Some CooldownSuppression\<rparr>) else eo)"

definition paced_update ::
    "DetectionPolicy \<Rightarrow> nat \<Rightarrow> WallTime \<Rightarrow> Evaluation \<Rightarrow> ScopeState \<times> StepOutcome \<Rightarrow> ScopeState \<times> StepOutcome" where
  "paced_update policy now wall ev eo =
     (let e = fst eo in
      if is_open (st_state e) \<and> so_signal (snd eo) = None \<and> is_over_threshold ev then
        let due = (case st_last_event_at e of None \<Rightarrow> True
                   | Some last_at \<Rightarrow> now - last_at \<ge> dp_event_update_interval policy) in
        if due then
          let e = e\<lparr>st_last_event_at := Some now\<rparr>;
              t = \<lparr>tr_key = st_key e, tr_policy_id = st_policy_id e, tr_policy_version = st_policy_version e,
                   tr_from = st_state e, tr_to = st_state e, tr_reason = StillActive, tr_at = now,
                   tr_at_wall = wall, tr_matched = ev_matched ev, tr_time_in_previous = time_in_state now e\<rparr>
          in raise_signal Updated t None (e, snd eo)
        else eo
      else eo)"

text \<open>Everything after the ordering guards, on the entry of the snapshot's scope.\<close>

definition step_entry ::
    "DetectionPolicy \<Rightarrow> DetectionSnapshot \<Rightarrow> Evaluation \<Rightarrow> ScopeState \<Rightarrow> ScopeState \<times> StepOutcome" where
  "step_entry policy snapshot ev e =
     (let now = sn_observed_at snapshot;
          wall = sn_observed_wall snapshot;
          (e, o') = (if st_policy_id e \<noteq> dp_id policy \<or> st_policy_version e \<noteq> dp_version policy
                     then policy_change policy now wall (e, default_outcome) else (e, default_outcome));
          e = e\<lparr>st_last_snapshot_at := Some now, st_last_snapshot_wall := Some wall,
                st_last_matched := ev_matched ev\<rparr>;
          (e, o') = (if st_state e = Cooldown \<and> time_in_state now e \<ge> dp_cooldown policy
                     then move Idle CooldownExpired now wall [] (\<lambda>_ eo. eo) (e, o') else (e, o'));
          e = (if is_open (st_state e)
               then record_peaks (ev_matched ev)
                 (e\<lparr>st_snapshots_in_detection := saturating_add (st_snapshots_in_detection e) 1\<rparr>)
               else e);
          (e, o') = paced_update policy now wall ev (step_state policy now wall ev (e, o'))
      in (e, o'\<lparr>so_state := Some (st_state e)\<rparr>))"

definition table_step ::
    "DetectionPolicy \<Rightarrow> DetectionSnapshot \<Rightarrow> Evaluation \<Rightarrow> StateTable \<Rightarrow> StepOutcome \<times> StateTable" where
  "table_step policy snapshot ev t =
     (let key = sn_key snapshot;
          now = sn_observed_at snapshot;
          known = map_option st_state (map_of (tb_entries t) key);
          stats = tb_stats t
      in if \<not> evaluates (dp_execution_mode policy) then (outcome_skipped ModeDisabled known, t)
      else if sn_window snapshot \<noteq> dp_window policy then
        (outcome_skipped WindowMismatch known,
         t\<lparr>tb_stats := stats\<lparr>ts_ignored_window_mismatch := ts_ignored_window_mismatch stats + 1\<rparr>\<rparr>)
      else if map_of (tb_entries t) key = None \<and> length (tb_entries t) \<ge> sc_max_entries (tb_config t) then
        (outcome_skipped TableFull None,
         t\<lparr>tb_stats := stats\<lparr>ts_rejected_table_full := ts_rejected_table_full stats + 1\<rparr>\<rparr>)
      else
        let entry = (case map_of (tb_entries t) key of None \<Rightarrow> new_scope_state key policy now | Some e \<Rightarrow> e);
            t = t\<lparr>tb_entries := AList.update key entry (tb_entries t)\<rparr>
        in if (case st_last_snapshot_at entry of None \<Rightarrow> False | Some last_at \<Rightarrow> now < last_at) then
             (outcome_skipped OutOfOrder (Some (st_state entry)),
              t\<lparr>tb_stats := stats\<lparr>ts_ignored_out_of_order := ts_ignored_out_of_order stats + 1\<rparr>\<rparr>)
           else if st_last_snapshot_at entry = Some now then
             (outcome_skipped DuplicateSnapshot (Some (st_state entry)),
              t\<lparr>tb_stats := stats\<lparr>ts_ignored_duplicate := ts_ignored_duplicate stats + 1\<rparr>\<rparr>)
           else
             let (e, o') = step_entry policy snapshot ev entry
             in (o', t\<lparr>tb_entries := AList.update key e (tb_entries t),
                 tb_stats := (if st_policy_id entry \<noteq> dp_id policy \<or> st_policy_version entry \<noteq> dp_version policy
                   then stats\<lparr>ts_policy_changes := ts_policy_changes stats + 1\<rparr> else stats)\<rparr>))"

subsection \<open>Resets\<close>

definition manual_reset ::
    "ScopeKey \<Rightarrow> nat \<Rightarrow> WallTime \<Rightarrow> StateTable \<Rightarrow> (StateTransition \<times> DetectionContext option) option \<times> StateTable" where
  "manual_reset key now wall t =
     (case map_of (tb_entries t) key of
        None \<Rightarrow> (None, t)
      | Some e \<Rightarrow>
          let was_open = is_open (st_state e);
              op = opened e;
              e = e\<lparr>st_last_event_at := Some now\<rparr>
          in case scope_transition Idle ManualReset now wall [] e of
               (None, e) \<Rightarrow> (None, t\<lparr>tb_entries := AList.update key e (tb_entries t)\<rparr>)
             | (Some tr, e) \<Rightarrow>
                 let (ctx, e) = (if was_open then scope_context op e else (None, e))
                 in (Some (tr, ctx), t\<lparr>tb_entries := AList.update key e (tb_entries t)\<rparr>))"

text \<open>The end of a removed entry: its last transition and, when it was open, its context.\<close>

definition retire :: "TransitionReason \<Rightarrow> nat \<Rightarrow> WallTime \<Rightarrow> ScopeKey \<Rightarrow> ScopeState \<Rightarrow> Expiry" where
  "retire reason now wall key e =
     (let was_open = is_open (st_state e);
          op = opened e;
          (tr, e) = scope_transition Idle reason now wall [] e
      in \<lparr>xp_key = key, xp_transition = tr,
          xp_signal = (if was_open then Some Ended else None),
          xp_detection = (if was_open then fst (scope_context op e) else None)\<rparr>)"

definition stale_selection ::
    "(ScopeKey \<Rightarrow> (rust_str \<times> u32) option) \<Rightarrow> ScopeKey \<Rightarrow> ScopeState \<Rightarrow> TransitionReason option" where
  "stale_selection winner key e =
     (case winner key of
        None \<Rightarrow> Some PolicyWithdrawn
      | Some (pid, version) \<Rightarrow>
          if pid \<noteq> st_policy_id e \<or> version \<noteq> st_policy_version e then Some PolicyChanged else None)"

fun withdraw_loop ::
    "nat \<Rightarrow> WallTime \<Rightarrow> (ScopeKey \<times> TransitionReason) list \<Rightarrow> StateTable \<Rightarrow> Expiry list \<Rightarrow> Expiry list \<times> StateTable" where
  "withdraw_loop now wall [] t acc = (acc, t)"
| "withdraw_loop now wall ((key, reason) # doomed) t acc =
     (case map_of (tb_entries t) key of
        None \<Rightarrow> withdraw_loop now wall doomed t acc
      | Some e \<Rightarrow>
          withdraw_loop now wall doomed
            (t\<lparr>tb_entries := AList.delete key (tb_entries t),
               tb_stats := (if reason = PolicyChanged
                 then (tb_stats t)\<lparr>ts_policy_changes := ts_policy_changes (tb_stats t) + 1\<rparr> else tb_stats t)\<rparr>)
            (acc @ [retire reason now wall key e]))"

definition withdraw_stale_selection ::
    "nat \<Rightarrow> WallTime \<Rightarrow> (ScopeKey \<Rightarrow> (rust_str \<times> u32) option) \<Rightarrow> StateTable \<Rightarrow> Expiry list \<times> StateTable" where
  "withdraw_stale_selection now wall winner t =
     (let doomed = concat (map (\<lambda>(key, e). case stale_selection winner key e of
              None \<Rightarrow> [] | Some reason \<Rightarrow> [(key, reason)]) (tb_entries t));
          (expiries, t) = withdraw_loop now wall doomed t []
      in (sort_key xp_key expiries, t))"

definition sweep_dooms :: "StateTableConfig \<Rightarrow> nat \<Rightarrow> ScopeState \<Rightarrow> bool" where
  "sweep_dooms config now e =
     (let since = (case st_last_snapshot_at e of None \<Rightarrow> st_entered_at e | Some at \<Rightarrow> at);
          ttl = (if st_state e = Idle then sc_idle_ttl config else sc_stale_after config)
      in now - since \<ge> ttl)"

fun sweep_loop :: "nat \<Rightarrow> WallTime \<Rightarrow> ScopeKey list \<Rightarrow> StateTable \<Rightarrow> Expiry list \<Rightarrow> Expiry list \<times> StateTable" where
  "sweep_loop now wall [] t acc = (acc, t)"
| "sweep_loop now wall (key # doomed) t acc =
     (case map_of (tb_entries t) key of
        None \<Rightarrow> sweep_loop now wall doomed t acc
      | Some e \<Rightarrow>
          let t = t\<lparr>tb_entries := AList.delete key (tb_entries t)\<rparr>; stats = tb_stats t in
          if st_state e = Idle then
            sweep_loop now wall doomed
              (t\<lparr>tb_stats := stats\<lparr>ts_expired_idle := ts_expired_idle stats + 1\<rparr>\<rparr>)
              (acc @ [\<lparr>xp_key = key, xp_transition = None, xp_signal = None, xp_detection = None\<rparr>])
          else
            sweep_loop now wall doomed
              (t\<lparr>tb_stats := stats\<lparr>ts_expired_stale := ts_expired_stale stats + 1\<rparr>\<rparr>)
              (acc @ [retire Stale now wall key e]))"

definition table_sweep :: "nat \<Rightarrow> WallTime \<Rightarrow> StateTable \<Rightarrow> Expiry list \<times> StateTable" where
  "table_sweep now wall t =
     sweep_loop now wall
       (sort (map fst (filter (\<lambda>(key, e). sweep_dooms (tb_config t) now e) (tb_entries t)))) t []"

section \<open>The signals of one scope\<close>

definition entry_ok :: "ScopeKey \<Rightarrow> ScopeState \<Rightarrow> bool" where
  "entry_ok k e \<longleftrightarrow> st_key e = k \<and>
     (is_open (st_state e) \<longleftrightarrow> st_active_since e \<noteq> None) \<and>
     (st_active_since e = None \<longleftrightarrow> st_active_since_wall e = None)"

text \<open>The open detection of an entry: when it started and the next sequence number.\<close>

definition phase :: "ScopeState \<Rightarrow> (nat \<times> u64) option" where
  "phase e = (if is_open (st_state e) then Some (the (st_active_since e), st_events_in_detection e) else None)"

text \<open>The protocol a scope's signals follow: \<open>None\<close> between detections, then a start numbered 0,
  any number of updates and one end, all carrying the instant of the start and consecutive numbers
  (which saturate at the largest 64-bit number).\<close>

fun follow :: "(nat \<times> u64) option \<Rightarrow> (Signal \<times> nat \<times> u64) list \<Rightarrow> (nat \<times> u64) option option" where
  "follow ph [] = Some ph"
| "follow None ((Started, at, n) # xs) = (if n = 0 then follow (Some (at, 1)) xs else None)"
| "follow (Some (at, next)) ((Updated, at', n) # xs) =
     (if at' = at \<and> n = next then follow (Some (at, saturating_add next 1)) xs else None)"
| "follow (Some (at, next)) ((Ended, at', n) # xs) = (if at' = at \<and> n = next then follow None xs else None)"
| "follow _ _ = None"

lemma follow_append: "follow ph (xs @ ys) = Option.bind (follow ph xs) (\<lambda>ph. follow ph ys)"
  by (induction ph xs rule: follow.induct) auto

definition signal_view :: "SignalRecord \<Rightarrow> Signal \<times> nat \<times> u64" where
  "signal_view r = (sr_signal r, dx_started_at (sr_detection r), dx_sequence (sr_detection r))"

definition outcome_signals :: "StepOutcome \<Rightarrow> (Signal \<times> nat \<times> u64) list" where
  "outcome_signals o' = (case so_signal o' of None \<Rightarrow> [] | Some r \<Rightarrow> [signal_view r])"

definition consistent :: "ScopeState \<Rightarrow> ScopeState \<times> StepOutcome \<Rightarrow> bool" where
  "consistent e0 eo \<longleftrightarrow> entry_ok (st_key e0) (fst eo) \<and>
     follow (phase e0) (outcome_signals (snd eo)) = Some (phase (fst eo))"

named_theorems detection_defs

lemmas [detection_defs] =
  entry_ok_def phase_def consistent_def outcome_signals_def signal_view_def is_open_def
  move_def scope_transition_def enter_state_def state_can_transition_to_def raise_signal_def
  scope_context_def opened_def push_transition_def Let_def

lemma record_peaks_frame [simp]:
  "st_key (record_peaks m e) = st_key e" "st_state (record_peaks m e) = st_state e"
  "st_active_since (record_peaks m e) = st_active_since e"
  "st_active_since_wall (record_peaks m e) = st_active_since_wall e"
  "st_events_in_detection (record_peaks m e) = st_events_in_detection e"
  "st_entered_at (record_peaks m e) = st_entered_at e"
  "st_policy_id (record_peaks m e) = st_policy_id e"
  "st_policy_version (record_peaks m e) = st_policy_version e"
  "st_last_event_at (record_peaks m e) = st_last_event_at e"
  "st_last_snapshot_at (record_peaks m e) = st_last_snapshot_at e"
  by (simp_all add: record_peaks_def)

lemma zip_option_both: "(a = None \<longleftrightarrow> b = None) \<Longrightarrow> a \<noteq> None \<Longrightarrow> zip_option a b = Some (the a, the b)"
  by (cases a; cases b) auto

lemma policy_change_consistent:
  assumes "entry_ok k e"
  shows "consistent e (policy_change p now wall (e, default_outcome))"
    "st_state (fst (policy_change p now wall (e, default_outcome))) = Idle"
  using assms
  by (cases "st_state e"; cases "st_active_since e"; cases "st_active_since_wall e";
      simp add: policy_change_def default_outcome_def detection_defs)+

lemma start_consistent:
  assumes "entry_ok k e" "st_state e = Idle \<or> st_state e = PendingTrigger" "so_signal o' = None"
  shows "consistent e (move Active reason now wall m (start_detection m now) (e, o'))"
  using assms by (auto simp: start_detection_def detection_defs saturating_add_def split: option.splits)

lemma close_consistent:
  assumes "entry_ok k e" "is_open (st_state e)" "so_signal o' = None"
  shows "consistent e (close_detection p now wall (e, o'))"
  using assms
  by (cases "st_active_since e"; cases "st_active_since_wall e")
    (auto simp: close_detection_def detection_defs)

lemma step_state_consistent:
  assumes ok: "entry_ok k e" and quiet: "so_signal o' = None"
  shows "consistent e (step_state p now wall ev (e, o'))"
proof (cases "st_state e")
  case Idle
  then show ?thesis using assms start_consistent[OF ok, of o' ThresholdCrossed now wall "ev_matched ev"]
    by (auto simp: step_state_def step_idle_def detection_defs)
next
  case PendingTrigger
  then show ?thesis using assms start_consistent[OF ok, of o' TriggerSustained now wall "ev_matched ev"]
    by (auto simp: step_state_def step_pending_trigger_def detection_defs)
next
  case Active
  then show ?thesis using assms close_consistent[OF ok, of o' p now wall]
    by (auto simp: step_state_def step_active_def detection_defs split: option.splits)
next
  case PendingClear
  then show ?thesis using assms close_consistent[OF ok, of o' p now wall]
    by (auto simp: step_state_def step_pending_clear_def detection_defs)
next
  case Cooldown
  then show ?thesis using assms by (auto simp: step_state_def detection_defs)
qed

lemma consistent_cong:
  "st_key e = st_key e' \<Longrightarrow> phase e = phase e' \<Longrightarrow> consistent e eo = consistent e' eo"
  by (simp add: consistent_def)

lemma paced_update_consistent:
  assumes "consistent e0 (e, o')"
  shows "consistent e0 (paced_update p now wall ev (e, o'))"
proof (cases "so_signal o' = None")
  case True
  with assms show ?thesis
    by (cases "st_active_since e"; cases "st_active_since_wall e")
      (auto simp: paced_update_def detection_defs split: if_splits)
next
  case False
  then show ?thesis using assms by (auto simp: paced_update_def)
qed

definition touch :: "DetectionSnapshot \<Rightarrow> Evaluation \<Rightarrow> ScopeState \<Rightarrow> ScopeState" where
  "touch s ev e = e\<lparr>st_last_snapshot_at := Some (sn_observed_at s), st_last_snapshot_wall := Some (sn_observed_wall s),
     st_last_matched := ev_matched ev\<rparr>"

lemma touch_frame [simp]:
  "st_key (touch s ev e) = st_key e" "st_state (touch s ev e) = st_state e"
  "st_active_since (touch s ev e) = st_active_since e"
  "st_active_since_wall (touch s ev e) = st_active_since_wall e"
  "st_events_in_detection (touch s ev e) = st_events_in_detection e"
  "st_entered_at (touch s ev e) = st_entered_at e"
  "st_policy_id (touch s ev e) = st_policy_id e"
  "st_policy_version (touch s ev e) = st_policy_version e"
  "st_last_snapshot_at (touch s ev e) = Some (sn_observed_at s)"
  by (simp_all add: touch_def)

lemma step_entry_changed:
  assumes "st_policy_id e \<noteq> dp_id p \<or> st_policy_version e \<noteq> dp_version p" "0 < dp_trigger_for p"
  shows "\<exists>e1 o1. policy_change p (sn_observed_at s) (sn_observed_wall s) (e, default_outcome) = (e1, o1) \<and>
    step_entry p s ev e =
      (let e2 = touch s ev e1;
           (e3, o3) = (if is_over_threshold ev
             then move PendingTrigger ThresholdCrossed (sn_observed_at s) (sn_observed_wall s) (ev_matched ev) (\<lambda>_ eo. eo) (e2, o1)
             else (e2, o1))
       in (e3, o3\<lparr>so_state := Some (st_state e3)\<rparr>))"
proof -
  obtain e1 o1 where change: "policy_change p (sn_observed_at s) (sn_observed_wall s) (e, default_outcome) = (e1, o1)"
    by fastforce
  have idle: "st_state e1 = Idle"
    using change by (auto simp: policy_change_def detection_defs split: if_splits option.splits)
  show ?thesis
    using assms change idle
    by (auto simp: step_entry_def touch_def[symmetric] Let_def is_open_def step_state_def step_idle_def
        paced_update_def move_def scope_transition_def state_can_transition_to_def enter_state_def)
qed

definition settle :: "DetectionPolicy \<Rightarrow> DetectionSnapshot \<Rightarrow> Evaluation \<Rightarrow> ScopeState \<Rightarrow> ScopeState \<times> StepOutcome" where
  "settle p s ev e =
     (let e = touch s ev e;
          (e, o') = (if st_state e = Cooldown \<and> time_in_state (sn_observed_at s) e \<ge> dp_cooldown p
             then move Idle CooldownExpired (sn_observed_at s) (sn_observed_wall s) [] (\<lambda>_ eo. eo) (e, default_outcome)
             else (e, default_outcome))
      in (if is_open (st_state e)
          then record_peaks (ev_matched ev)
                 (e\<lparr>st_snapshots_in_detection := saturating_add (st_snapshots_in_detection e) 1\<rparr>)
          else e, o'))"

lemma step_entry_same:
  assumes "st_policy_id e = dp_id p" "st_policy_version e = dp_version p"
  shows "step_entry p s ev e =
    (let (e', o') = paced_update p (sn_observed_at s) (sn_observed_wall s) ev
           (step_state p (sn_observed_at s) (sn_observed_wall s) ev (settle p s ev e))
     in (e', o'\<lparr>so_state := Some (st_state e')\<rparr>))"
  using assms by (simp add: step_entry_def settle_def touch_def[symmetric] Let_def split_beta)

lemma settle_frame:
  "st_key (fst (settle p s ev e)) = st_key e" "so_signal (snd (settle p s ev e)) = None"
  "st_policy_id (fst (settle p s ev e)) = st_policy_id e"
  "st_policy_version (fst (settle p s ev e)) = st_policy_version e"
  "st_last_snapshot_at (fst (settle p s ev e)) = Some (sn_observed_at s)"
  "entry_ok k e \<Longrightarrow> entry_ok k (fst (settle p s ev e))"
  "entry_ok k e \<Longrightarrow> phase (fst (settle p s ev e)) = phase e"
  by (auto simp: settle_def default_outcome_def detection_defs)

lemma step_entry_consistent:
  assumes ok: "entry_ok k e" and trigger: "0 < dp_trigger_for p"
  shows "consistent e (step_entry p s ev e)"
proof (cases "st_policy_id e = dp_id p \<and> st_policy_version e = dp_version p")
  case True
  obtain e1 o1 where settled: "settle p s ev e = (e1, o1)" by fastforce
  have "entry_ok k e1" "so_signal o1 = None" "st_key e1 = st_key e" "phase e1 = phase e"
    using settle_frame(1,2)[of p s ev e] settle_frame(6,7)[OF ok, of p s ev] settled by simp_all
  then have "consistent e (step_state p (sn_observed_at s) (sn_observed_wall s) ev (e1, o1))"
    using step_state_consistent[of k e1 o1] consistent_cong[of e e1] by auto
  then show ?thesis
    using paced_update_consistent[of e "fst (step_state p (sn_observed_at s) (sn_observed_wall s) ev (e1, o1))"
        "snd (step_state p (sn_observed_at s) (sn_observed_wall s) ev (e1, o1))" p "sn_observed_at s" "sn_observed_wall s" ev]
      True settled
    by (simp add: step_entry_same split_beta consistent_def outcome_signals_def)
next
  case False
  obtain e1 o1 where change: "policy_change p (sn_observed_at s) (sn_observed_wall s) (e, default_outcome) = (e1, o1)"
    by fastforce
  have "consistent e (e1, o1)" "st_state e1 = Idle"
    using policy_change_consistent[OF ok, of p "sn_observed_at s" "sn_observed_wall s"] change by simp_all
  with step_entry_changed[of e p s ev] False trigger change show ?thesis
    by (auto simp: detection_defs split: if_splits)
qed

lemma step_state_started:
  assumes "so_signal o' = None" "map_option sr_signal (so_signal (snd (paced_update p now wall ev (step_state p now wall ev (e, o'))))) = Some Started"
    and "0 < dp_trigger_for p"
  shows "st_state e = PendingTrigger \<and> is_over_threshold ev \<and> dp_trigger_for p \<le> now - st_entered_at e"
  using assms
  by (cases "st_state e")
    (auto simp: step_state_def step_idle_def step_pending_trigger_def step_active_def step_pending_clear_def
      close_detection_def paced_update_def move_def scope_transition_def push_transition_def raise_signal_def
      time_in_state_def Let_def split: if_splits option.splits prod.splits)


lemma paced_update_frame [simp]:
  "st_state (fst (paced_update p now wall ev eo)) = st_state (fst eo)"
  "st_policy_id (fst (paced_update p now wall ev eo)) = st_policy_id (fst eo)"
  "st_policy_version (fst (paced_update p now wall ev eo)) = st_policy_version (fst eo)"
  "st_entered_at (fst (paced_update p now wall ev eo)) = st_entered_at (fst eo)"
  "st_last_snapshot_at (fst (paced_update p now wall ev eo)) = st_last_snapshot_at (fst eo)"
  by (simp_all add: paced_update_def raise_signal_def scope_context_def Let_def split: option.splits)

lemma raise_signal_frame [simp]:
  "st_state (fst (raise_signal sig t started eo)) = st_state (fst eo)"
  "st_policy_id (fst (raise_signal sig t started eo)) = st_policy_id (fst eo)"
  "st_policy_version (fst (raise_signal sig t started eo)) = st_policy_version (fst eo)"
  "st_entered_at (fst (raise_signal sig t started eo)) = st_entered_at (fst eo)"
  "st_last_snapshot_at (fst (raise_signal sig t started eo)) = st_last_snapshot_at (fst eo)"
  by (simp_all add: raise_signal_def scope_context_def split: option.splits)

lemma enter_state_frame [simp]:
  "st_state (enter_state to at w e) = to"
  "st_policy_id (enter_state to at w e) = st_policy_id e"
  "st_policy_version (enter_state to at w e) = st_policy_version e"
  "st_entered_at (enter_state to at w e) = at"
  "st_last_snapshot_at (enter_state to at w e) = st_last_snapshot_at e"
  by (simp_all add: enter_state_def Let_def split: DetectionState.splits)

lemma close_state:
  "st_state (fst (close_detection p now wall eo)) \<in> {Idle, Cooldown} \<or> close_detection p now wall eo = eo"
  by (auto simp: close_detection_def move_def scope_transition_def split_beta Let_def)

lemma step_state_pending:
  assumes "st_state (fst (step_state p now wall ev (e, o'))) = PendingTrigger"
  shows "is_over_threshold ev \<and>
    (let e' = fst (step_state p now wall ev (e, o')) in
     st_policy_id e' = st_policy_id e \<and> st_policy_version e' = st_policy_version e \<and>
     (st_entered_at e' = now \<or> st_state e = PendingTrigger \<and> st_entered_at e' = st_entered_at e))"
proof (cases "st_state e")
  case Idle
  then show ?thesis using assms
    by (auto simp: step_state_def step_idle_def move_def scope_transition_def start_detection_def split_beta Let_def
        split: if_splits)
next
  case PendingTrigger
  then show ?thesis using assms
    by (auto simp: step_state_def step_pending_trigger_def move_def scope_transition_def state_can_transition_to_def
        start_detection_def split_beta split: if_splits)
next
  case Active
  then show ?thesis using assms close_state[of p now wall "(e, o')"]
    by (auto simp: step_state_def step_active_def move_def scope_transition_def split_beta Let_def split: if_splits)
next
  case PendingClear
  then show ?thesis using assms close_state[of p now wall "(e, o')"]
    by (auto simp: step_state_def step_pending_clear_def move_def scope_transition_def split_beta Let_def split: if_splits)
next
  case Cooldown
  then show ?thesis using assms by (auto simp: step_state_def split: if_splits)
qed

definition run_of :: "DetectionPolicy \<Rightarrow> ScopeState \<Rightarrow> bool" where
  "run_of p e \<longleftrightarrow> st_policy_id e = dp_id p \<and> st_policy_version e = dp_version p"

lemma step_entry_started:
  assumes "signal_kind (snd (step_entry p s ev e)) = Some Started" "0 < dp_trigger_for p"
  shows "run_of p e \<and> st_state e = PendingTrigger \<and> is_over_threshold ev \<and>
    dp_trigger_for p \<le> sn_observed_at s - st_entered_at e"
proof (cases "run_of p e")
  case True
  have settled: "st_state (fst (settle p s ev e)) = PendingTrigger \<Longrightarrow>
      st_state e = PendingTrigger \<and> st_entered_at (fst (settle p s ev e)) = st_entered_at e"
    by (auto simp: settle_def move_def scope_transition_def enter_state_def state_can_transition_to_def
        is_open_def Let_def split: if_splits)
  show ?thesis
    using assms True settled step_state_started[of "snd (settle p s ev e)" p "sn_observed_at s" "sn_observed_wall s" ev "fst (settle p s ev e)"]
    by (auto simp: step_entry_same run_of_def signal_kind_def split_beta settle_frame)
next
  case False
  then have changed: "st_policy_id e \<noteq> dp_id p \<or> st_policy_version e \<noteq> dp_version p"
    by (auto simp: run_of_def)
  have "signal_kind (snd (policy_change p (sn_observed_at s) (sn_observed_wall s) (e, default_outcome))) \<noteq> Some Started"
    by (auto simp: policy_change_def default_outcome_def signal_kind_def move_def scope_transition_def raise_signal_def
        push_transition_def Let_def split: if_splits option.splits prod.splits)
  then show ?thesis
    using step_entry_changed[OF changed assms(2), of s ev] assms(1)
    by (auto simp: signal_kind_def move_def scope_transition_def push_transition_def Let_def split: if_splits)
qed

lemma step_entry_pending:
  assumes "st_state (fst (step_entry p s ev e)) = PendingTrigger" "0 < dp_trigger_for p"
  shows "is_over_threshold ev \<and> run_of p (fst (step_entry p s ev e)) \<and>
    (st_entered_at (fst (step_entry p s ev e)) = sn_observed_at s \<or>
     run_of p e \<and> st_state e = PendingTrigger \<and> st_entered_at (fst (step_entry p s ev e)) = st_entered_at e)"
proof (cases "run_of p e")
  case True
  have settled: "st_state (fst (settle p s ev e)) = PendingTrigger \<Longrightarrow>
      st_state e = PendingTrigger \<and> st_entered_at (fst (settle p s ev e)) = st_entered_at e"
    by (auto simp: settle_def move_def scope_transition_def enter_state_def state_can_transition_to_def
        is_open_def Let_def split: if_splits)
  show ?thesis
    using assms True settled step_state_pending[of p "sn_observed_at s" "sn_observed_wall s" ev "fst (settle p s ev e)" "snd (settle p s ev e)"]
    by (auto simp: step_entry_same run_of_def split_beta settle_frame Let_def)
next
  case False
  then have changed: "st_policy_id e \<noteq> dp_id p \<or> st_policy_version e \<noteq> dp_version p"
    by (auto simp: run_of_def)
  have "run_of p (fst (policy_change p (sn_observed_at s) (sn_observed_wall s) (e, default_outcome)))"
       "st_state (fst (policy_change p (sn_observed_at s) (sn_observed_wall s) (e, default_outcome))) = Idle"
    by (auto simp: policy_change_def run_of_def detection_defs split: if_splits option.splits)
  then show ?thesis
    using step_entry_changed[OF changed assms(2), of s ev] assms(1)
    by (auto simp: run_of_def move_def scope_transition_def enter_state_def push_transition_def Let_def split: if_splits)
qed

lemma step_entry_key: "st_key (fst (step_entry p s ev e)) = st_key e" if "entry_ok k e" "0 < dp_trigger_for p"
  using step_entry_consistent[OF that, of s ev] by (simp add: consistent_def entry_ok_def)

section \<open>The table\<close>

lemma hm_update_same: "map_of xs k = Some v \<Longrightarrow> AList.update k v xs = xs"
  by (induction xs) (auto split: if_splits)

lemma hm_update_update: "AList.update k v (AList.update k v' xs) = AList.update k v xs"
  by (induction xs) auto

definition table_ok :: "StateTable \<Rightarrow> bool" where
  "table_ok t \<longleftrightarrow> distinct (map fst (tb_entries t)) \<and>
     length (tb_entries t) \<le> sc_max_entries (tb_config t) \<and>
     list_all (\<lambda>(k, e). entry_ok k e) (tb_entries t)"

lemma table_ok_entry: "table_ok t \<Longrightarrow> map_of (tb_entries t) k = Some e \<Longrightarrow> entry_ok k e"
  using hm_list_all_map_of by (fastforce simp: table_ok_def)

lemma table_ok_new [simp]: "table_ok (new_state_table cfg)"
  by (simp add: table_ok_def new_state_table_def)

lemma table_ok_put:
  assumes "table_ok t" "entry_ok k e" "map_of (tb_entries t) k \<noteq> None \<or> length (tb_entries t) < sc_max_entries (tb_config t)"
    and "tb_entries t' = AList.update k e (tb_entries t)" "tb_config t' = tb_config t"
  shows "table_ok t'"
  using assms
  by (auto simp: table_ok_def hm_length_update distinct_update intro!: hm_list_all_update)

lemma table_ok_drop:
  assumes "table_ok t" "tb_entries t' = AList.delete k (tb_entries t)" "tb_config t' = tb_config t"
  shows "table_ok t'"
  using assms order_trans[OF length_delete_le[of k "tb_entries t"]]
  by (auto simp: table_ok_def intro!: hm_list_all_delete distinct_delete)

lemma new_scope_state_ok [simp]:
  "entry_ok k (new_scope_state k p at)" "phase (new_scope_state k p at) = None"
  "st_state (new_scope_state k p at) = Idle"
  by (simp_all add: new_scope_state_def entry_ok_def phase_def is_open_def)

lemma move_ignored [simp]:
  "(\<And>t eo. so_ignored (snd (announce t eo)) = so_ignored (snd eo)) \<Longrightarrow>
     so_ignored (snd (move to reason now wall m announce eo)) = so_ignored (snd eo)"
  by (auto simp: move_def push_transition_def split: prod.splits option.splits) (metis snd_conv)

lemma raise_signal_ignored [simp]: "so_ignored (snd (raise_signal sig t started eo)) = so_ignored (snd eo)"
  by (simp add: raise_signal_def split: prod.splits option.splits)

lemma default_outcome_quiet [simp]: "so_ignored default_outcome = None" "so_signal default_outcome = None"
  by (simp_all add: default_outcome_def)

lemma announce_ignored [simp]:
  "so_ignored (snd (close_detection p now wall eo)) = so_ignored (snd eo)"
  "so_ignored (snd (start_detection m now t eo)) = so_ignored (snd eo)"
  by (simp_all add: close_detection_def start_detection_def Let_def)

lemma step_state_ignored [simp]: "so_ignored (snd (step_state p now wall ev eo)) = so_ignored (snd eo)"
  by (cases "st_state (fst eo)")
    (simp_all add: step_state_def step_idle_def step_pending_trigger_def step_active_def step_pending_clear_def Let_def)

lemma paced_update_ignored [simp]: "so_ignored (snd (paced_update p now wall ev eo)) = so_ignored (snd eo)"
  by (simp add: paced_update_def Let_def)

lemma policy_change_ignored [simp]: "so_ignored (snd (policy_change p now wall eo)) = so_ignored (snd eo)"
  by (simp add: policy_change_def Let_def split_beta)

lemma settle_ignored [simp]: "so_ignored (snd (settle p s ev e)) = None"
  by (simp add: settle_def default_outcome_def Let_def split_beta)

lemma step_entry_ignored:
  assumes "0 < dp_trigger_for p"
  shows "so_ignored (snd (step_entry p s ev e)) = None"
proof (cases "st_policy_id e = dp_id p \<and> st_policy_version e = dp_version p")
  case True
  then show ?thesis by (simp add: step_entry_same split_beta)
next
  case False
  with step_entry_changed[of e p s ev] assms obtain e1 o1 where
    change: "policy_change p (sn_observed_at s) (sn_observed_wall s) (e, default_outcome) = (e1, o1)"
    and st: "step_entry p s ev e = (let e2 = touch s ev e1;
           (e3, o3) = (if is_over_threshold ev
             then move PendingTrigger ThresholdCrossed (sn_observed_at s) (sn_observed_wall s) (ev_matched ev) (\<lambda>_ eo. eo) (e2, o1)
             else (e2, o1))
       in (e3, o3\<lparr>so_state := Some (st_state e3)\<rparr>))"
    by auto
  have "so_ignored o1 = None"
    using policy_change_ignored[of p "sn_observed_at s" "sn_observed_wall s" "(e, default_outcome)"]
    unfolding change by simp
  then show ?thesis by (simp add: st Let_def split_beta)
qed

text \<open>Either a snapshot is ignored, and the entries stay as they are, or it is later than the
  last one of its scope and only the scope's entry changes.\<close>

lemma table_step_cases:
  assumes "table_step p s ev t = (o', t')" "0 < dp_trigger_for p"
  obtains
    (ignored) "so_ignored o' \<noteq> None" "so_signal o' = None" "tb_entries t' = tb_entries t" "tb_config t' = tb_config t"
  | (accepted) e e' where "so_ignored o' = None"
      "map_of (tb_entries t) (sn_key s) = Some e \<or>
       map_of (tb_entries t) (sn_key s) = None \<and> length (tb_entries t) < sc_max_entries (tb_config t) \<and>
       e = new_scope_state (sn_key s) p (sn_observed_at s)"
      "\<forall>at. st_last_snapshot_at e = Some at \<longrightarrow> at < sn_observed_at s"
      "step_entry p s ev e = (e', o')" "tb_config t' = tb_config t"
      "tb_entries t' = AList.update (sn_key s) e' (tb_entries t)"
      "evaluates (dp_execution_mode p)" "sn_window s = dp_window p"
proof -
  let ?m = "map_of (tb_entries t) (sn_key s)"
  let ?e = "case ?m of None \<Rightarrow> new_scope_state (sn_key s) p (sn_observed_at s) | Some e \<Rightarrow> e"
  have new: "st_last_snapshot_at (new_scope_state k p at) = None" for k at
    by (simp add: new_scope_state_def)
  have same: "?m = Some e \<Longrightarrow> AList.update (sn_key s) e (tb_entries t) = tb_entries t" for e
    by (rule hm_update_same)
  consider (skip) "\<not> evaluates (dp_execution_mode p) \<or> sn_window s \<noteq> dp_window p \<or>
      (?m = None \<and> length (tb_entries t) \<ge> sc_max_entries (tb_config t))"
    | (late) at where "evaluates (dp_execution_mode p)" "sn_window s = dp_window p"
        "\<not> (?m = None \<and> length (tb_entries t) \<ge> sc_max_entries (tb_config t))"
        "st_last_snapshot_at ?e = Some at" "sn_observed_at s \<le> at"
    | (fresh) "evaluates (dp_execution_mode p)" "sn_window s = dp_window p"
        "\<not> (?m = None \<and> length (tb_entries t) \<ge> sc_max_entries (tb_config t))"
        "\<forall>at. st_last_snapshot_at ?e = Some at \<longrightarrow> at < sn_observed_at s"
    by (meson linorder_not_le)
  then show thesis
  proof cases
    case skip
    with assms(1) show thesis
      by (intro ignored) (auto simp: table_step_def outcome_skipped_def default_outcome_def Let_def split: if_splits)
  next
    case late
    then obtain e where "?m = Some e" by (cases ?m) (auto simp: new)
    with late assms(1) same[of e] show thesis
      by (intro ignored) (auto simp: table_step_def outcome_skipped_def default_outcome_def Let_def split: if_splits)
  next
    case fresh
    obtain e' o1 where st: "step_entry p s ev ?e = (e', o1)" by fastforce
    have "o' = o1" "tb_config t' = tb_config t" "tb_entries t' = AList.update (sn_key s) e' (tb_entries t)"
      using assms(1) fresh st
      by (auto simp: table_step_def Let_def hm_update_update split: if_splits option.splits)
    with fresh st step_entry_ignored[OF assms(2), of s ev ?e] show thesis
      by (intro accepted[of ?e e']) (auto split: option.splits)
  qed
qed


section \<open>Histories\<close>

text \<open>What can happen to a table, with the signals each operation hands to its caller.\<close>

datatype table_op =
  StepOp DetectionPolicy DetectionSnapshot Evaluation
| SweepOp nat WallTime
| WithdrawOp nat WallTime "ScopeKey \<Rightarrow> (rust_str \<times> u32) option"
| ResetOp ScopeKey nat WallTime

type_synonym signals = "(ScopeKey \<times> Signal \<times> nat \<times> u64) list"

definition context_view :: "DetectionContext \<Rightarrow> nat \<times> u64" where
  "context_view d = (dx_started_at d, dx_sequence d)"

definition expiry_signals :: "Expiry \<Rightarrow> signals" where
  "expiry_signals x = (case (xp_signal x, xp_detection x) of
       (Some sig, Some d) \<Rightarrow> [(xp_key x, sig, context_view d)] | _ \<Rightarrow> [])"

primrec run_op :: "table_op \<Rightarrow> StateTable \<Rightarrow> signals \<times> StateTable" where
  "run_op (StepOp p s ev) t =
     (case table_step p s ev t of (o', t') \<Rightarrow> (map (Pair (sn_key s)) (outcome_signals o'), t'))"
| "run_op (SweepOp now wall) t =
     (case table_sweep now wall t of (xs, t') \<Rightarrow> (concat (map expiry_signals xs), t'))"
| "run_op (WithdrawOp now wall winner) t =
     (case withdraw_stale_selection now wall winner t of (xs, t') \<Rightarrow> (concat (map expiry_signals xs), t'))"
| "run_op (ResetOp k now wall) t =
     (case manual_reset k now wall t of
        (Some (_, Some d), t') \<Rightarrow> ([(k, Ended, context_view d)], t')
      | (_, t') \<Rightarrow> ([], t'))"

fun run_ops :: "table_op list \<Rightarrow> StateTable \<Rightarrow> signals \<times> StateTable" where
  "run_ops [] t = ([], t)"
| "run_ops (op # ops) t =
     (let (sigs, t) = run_op op t; (sigs', t) = run_ops ops t in (sigs @ sigs', t))"

primrec op_valid :: "table_op \<Rightarrow> bool" where
  "op_valid (StepOp p s ev) = (0 < dp_trigger_for p)"
| "op_valid (SweepOp _ _) = True"
| "op_valid (WithdrawOp _ _ _) = True"
| "op_valid (ResetOp _ _ _) = True"

definition signals_for :: "ScopeKey \<Rightarrow> signals \<Rightarrow> (Signal \<times> nat \<times> u64) list" where
  "signals_for k sigs = map snd (filter (\<lambda>x. fst x = k) sigs)"

lemma signals_for_simps [simp]:
  "signals_for k [] = []" "signals_for k (xs @ ys) = signals_for k xs @ signals_for k ys"
  by (simp_all add: signals_for_def)

definition phase_in :: "StateTable \<Rightarrow> ScopeKey \<Rightarrow> (nat \<times> u64) option" where
  "phase_in t k = Option.bind (map_of (tb_entries t) k) phase"

lemma step_bracketed:
  assumes ok: "table_ok t" and trigger: "0 < dp_trigger_for p" and st: "table_step p s ev t = (o', t')"
  shows "table_ok t' \<and> tb_config t' = tb_config t \<and>
    follow (phase_in t k) (signals_for k (map (Pair (sn_key s)) (outcome_signals o'))) = Some (phase_in t' k)"
  using st trigger
proof (cases rule: table_step_cases)
  case ignored
  then have "outcome_signals o' = []" by (simp add: outcome_signals_def)
  with ignored ok show ?thesis by (simp add: table_ok_def phase_in_def signals_for_def)
next
  case (accepted e e')
  have eok: "entry_ok (sn_key s) e" using accepted(2) ok table_ok_entry by auto
  then have con: "consistent e (e', o')" using step_entry_consistent[OF eok trigger, of s ev] accepted(4) by simp
  moreover have "st_key e = sn_key s" using eok by (simp add: entry_ok_def)
  ultimately have "entry_ok (sn_key s) e'" by (simp add: consistent_def)
  then have ok': "table_ok t'"
    using accepted(2) by (intro table_ok_put[OF ok _ _ accepted(6,5)]) auto
  have now: "phase_in t (sn_key s) = phase e" using accepted(2) by (auto simp: phase_in_def)
  have later: "phase_in t' k = (if k = sn_key s then phase e' else phase_in t k)"
    by (simp add: phase_in_def accepted(6) update_conv')
  have "signals_for k (map (Pair (sn_key s)) xs) = (if k = sn_key s then xs else [])" for xs
    by (simp add: signals_for_def filter_map comp_def)
  then show ?thesis
    using ok' accepted(5) con now later by (cases "k = sn_key s") (simp_all add: consistent_def)
qed

lemma retire_signals:
  assumes "entry_ok k e"
  shows "follow (phase e) (signals_for k (expiry_signals (retire r now wall k e))) = Some None"
    "k' \<noteq> k \<Longrightarrow> signals_for k' (expiry_signals (retire r now wall k e)) = []"
  using assms
  by (cases "st_active_since e"; cases "st_active_since_wall e";
      auto simp: retire_def expiry_signals_def signals_for_def context_view_def phase_def scope_transition_def
        scope_context_def opened_def enter_state_def entry_ok_def is_open_def state_can_transition_to_def Let_def
        split: if_splits)+


definition removal_ok :: "StateTable \<Rightarrow> Expiry list \<Rightarrow> StateTable \<Rightarrow> bool" where
  "removal_ok t xs t' \<longleftrightarrow> table_ok t' \<and> tb_config t' = tb_config t \<and>
     (\<forall>k e. map_of (tb_entries t') k = Some e \<longrightarrow> map_of (tb_entries t) k = Some e) \<and>
     (\<forall>k. follow (phase_in t k) (signals_for k (concat (map expiry_signals xs))) = Some (phase_in t' k))"

lemma removal_ok_refl: "table_ok t \<Longrightarrow> removal_ok t [] t"
  by (simp add: removal_ok_def)

lemma removal_ok_step:
  assumes ok: "table_ok t" and e: "map_of (tb_entries t) key = Some e"
    and t1: "tb_entries t1 = AList.delete key (tb_entries t)" "tb_config t1 = tb_config t"
    and x: "\<And>k. k \<noteq> key \<Longrightarrow> signals_for k (expiry_signals x) = []"
      "follow (phase e) (signals_for key (expiry_signals x)) = Some None"
    and rest: "removal_ok t1 xs t'"
  shows "removal_ok t (x # xs) t'"
proof -
  have "follow (phase_in t k) (signals_for k (expiry_signals x)) = Some (phase_in t1 k)" for k
    using x(1)[of k] x(2) e t1(1) by (cases "k = key") (auto simp: phase_in_def delete_conv')
  moreover have "map_of (tb_entries t) k = Some e" if "map_of (tb_entries t1) k = Some e" for k e
    using that t1(1) by (simp add: delete_conv' split: if_splits)
  ultimately show ?thesis using rest t1(2) by (auto simp: removal_ok_def follow_append)
qed

lemma withdraw_loop_ok:
  "table_ok t \<Longrightarrow> withdraw_loop now wall doomed t acc = (xs, t') \<Longrightarrow> \<exists>new. xs = acc @ new \<and> removal_ok t new t'"
proof (induction now wall doomed t acc rule: withdraw_loop.induct)
  case (1 now wall t acc)
  then show ?case by (auto intro: removal_ok_refl)
next
  case (2 now wall key reason doomed t acc)
  show ?case
  proof (cases "map_of (tb_entries t) key")
    case None
    with 2 show ?thesis by simp
  next
    case (Some e)
    let ?t1 = "t\<lparr>tb_entries := AList.delete key (tb_entries t),
      tb_stats := (if reason = PolicyChanged
        then (tb_stats t)\<lparr>ts_policy_changes := ts_policy_changes (tb_stats t) + 1\<rparr> else tb_stats t)\<rparr>"
    have "table_ok ?t1" by (rule table_ok_drop[OF 2(3), of _ key]) simp_all
    with 2(2)[OF Some] 2(4) Some obtain new where
      new: "xs = (acc @ [retire reason now wall key e]) @ new" "removal_ok ?t1 new t'" by auto
    have "removal_ok t (retire reason now wall key e # new) t'"
      by (rule removal_ok_step[OF 2(3) Some _ _ _ _ new(2)])
        (simp_all add: retire_signals[OF table_ok_entry[OF 2(3) Some]])
    with new(1) show ?thesis by simp
  qed
qed

lemma sweep_loop_ok:
  "table_ok t \<Longrightarrow> sweep_loop now wall doomed t acc = (xs, t') \<Longrightarrow> \<exists>new. xs = acc @ new \<and> removal_ok t new t'"
proof (induction now wall doomed t acc rule: sweep_loop.induct)
  case (1 now wall t acc)
  then show ?case by (auto intro: removal_ok_refl)
next
  case (2 now wall key doomed t acc)
  show ?case
  proof (cases "map_of (tb_entries t) key")
    case None
    with 2 show ?thesis by simp
  next
    case (Some e)
    let ?t0 = "t\<lparr>tb_entries := AList.delete key (tb_entries t)\<rparr>"
    let ?t1 = "if st_state e = Idle
      then ?t0\<lparr>tb_stats := (tb_stats t)\<lparr>ts_expired_idle := ts_expired_idle (tb_stats t) + 1\<rparr>\<rparr>
      else ?t0\<lparr>tb_stats := (tb_stats t)\<lparr>ts_expired_stale := ts_expired_stale (tb_stats t) + 1\<rparr>\<rparr>"
    let ?x = "if st_state e = Idle
      then \<lparr>xp_key = key, xp_transition = None, xp_signal = None, xp_detection = None\<rparr>
      else retire Stale now wall key e"
    have t1: "tb_entries ?t1 = AList.delete key (tb_entries t)" "tb_config ?t1 = tb_config t" by simp_all
    have ok1: "table_ok ?t1" by (rule table_ok_drop[OF 2(4) t1])
    have "sweep_loop now wall doomed ?t1 (acc @ [?x]) = (xs, t')"
      using 2(5) Some by (auto simp: Let_def)
    with 2(2,3)[OF Some] ok1 obtain new where
      new: "xs = (acc @ [?x]) @ new" "removal_ok ?t1 new t'"
      by (cases "st_state e = Idle") (auto simp: Let_def)
    have eok: "entry_ok key e" by (rule table_ok_entry[OF 2(4) Some])
    have "removal_ok t (?x # new) t'"
    proof (rule removal_ok_step[OF 2(4) Some t1 _ _ new(2)])
      show "signals_for k (expiry_signals ?x) = []" if "k \<noteq> key" for k
        using that retire_signals(2)[OF eok] by (simp add: expiry_signals_def)
      show "follow (phase e) (signals_for key (expiry_signals ?x)) = Some None"
      proof (cases "st_state e = Idle")
        case True
        then show ?thesis by (simp add: expiry_signals_def phase_def is_open_def)
      next
        case False
        then show ?thesis using retire_signals(1)[OF eok] by simp
      qed
    qed
    with new(1) show ?thesis by simp
  qed
qed

lemma signals_for_sorted:
  "signals_for k (concat (map expiry_signals (sort_key xp_key xs))) = signals_for k (concat (map expiry_signals xs))"
proof -
  have only: "signals_for k (concat (map expiry_signals ys)) =
      signals_for k (concat (map expiry_signals (filter (\<lambda>x. xp_key x = k) ys)))" for ys
    by (induction ys) (auto simp: signals_for_def expiry_signals_def split: option.splits)
  have "filter (\<lambda>x. xp_key x = k) (sort_key xp_key xs) = filter (\<lambda>x. xp_key x = k) xs"
    by (rule sort_key_stable)
  with only[of xs] only[of "sort_key xp_key xs"] show ?thesis by simp
qed

definition reset_entry :: "nat \<Rightarrow> WallTime \<Rightarrow> ScopeState \<Rightarrow> ScopeState" where
  "reset_entry now wall e =
     (let e0 = e\<lparr>st_last_event_at := Some now\<rparr>; e1 = enter_state Idle now wall e0 in
      if st_state e = Idle then e0
      else if is_open (st_state e)
      then e1\<lparr>st_events_in_detection := saturating_add (st_events_in_detection e) 1\<rparr> else e1)"

lemma reset_entry_ok:
  "entry_ok k e \<Longrightarrow> entry_ok k (reset_entry now wall e)" "phase (reset_entry now wall e) = None"
  by (auto simp: reset_entry_def entry_ok_def phase_def enter_state_def is_open_def Let_def)

lemma run_reset:
  assumes "map_of (tb_entries t) key = Some e" "entry_ok key e"
  shows "run_op (ResetOp key now wall) t =
    (if is_open (st_state e) then [(key, Ended, the (st_active_since e), st_events_in_detection e)] else [],
     t\<lparr>tb_entries := AList.update key (reset_entry now wall e) (tb_entries t)\<rparr>)"
proof (cases "is_open (st_state e)")
  case True
  then obtain at w where "opened e = Some (at, w)" "st_active_since e = Some at"
    using assms(2) by (cases "st_active_since e"; cases "st_active_since_wall e") (auto simp: entry_ok_def opened_def)
  with True assms(1) show ?thesis
    by (auto simp: manual_reset_def scope_transition_def scope_context_def state_can_transition_to_def reset_entry_def
        context_view_def enter_state_def is_open_def Let_def)
next
  case False
  with assms(1) show ?thesis
    by (auto simp: manual_reset_def scope_transition_def state_can_transition_to_def reset_entry_def is_open_def Let_def)
qed

lemma manual_reset_bracketed:
  assumes ok: "table_ok t" and run: "run_op (ResetOp key now wall) t = (sigs, t')"
  shows "table_ok t' \<and> tb_config t' = tb_config t \<and> follow (phase_in t k) (signals_for k sigs) = Some (phase_in t' k)"
proof (cases "map_of (tb_entries t) key")
  case None
  with ok run show ?thesis by (auto simp: manual_reset_def)
next
  case (Some e)
  have eok: "entry_ok key e" by (rule table_ok_entry[OF ok Some])
  have t': "tb_entries t' = AList.update key (reset_entry now wall e) (tb_entries t)" "tb_config t' = tb_config t"
    and sigs: "sigs = (if is_open (st_state e) then [(key, Ended, the (st_active_since e), st_events_in_detection e)] else [])"
    using run_reset[OF Some eok, of now wall] run by auto
  have "table_ok t'"
    using table_ok_put[OF ok reset_entry_ok(1)[OF eok] _ t'] Some by simp
  moreover have "phase_in t' key = None" "k \<noteq> key \<Longrightarrow> phase_in t' k = phase_in t k"
    "phase_in t key = phase e"
    using Some reset_entry_ok(2) by (simp_all add: t' phase_in_def update_conv')
  moreover have "follow (phase e) (signals_for key sigs) = Some None" "k \<noteq> key \<Longrightarrow> signals_for k sigs = []"
    by (simp_all add: sigs phase_def signals_for_def)
  ultimately show ?thesis using t'(2) by (cases "k = key") auto
qed

lemma run_op_bracketed:
  assumes "table_ok t" "op_valid op" "run_op op t = (sigs, t')"
  shows "table_ok t' \<and> tb_config t' = tb_config t \<and> follow (phase_in t k) (signals_for k sigs) = Some (phase_in t' k)"
proof (cases op)
  case (StepOp p s ev)
  obtain o' t1 where "table_step p s ev t = (o', t1)" by fastforce
  with assms StepOp step_bracketed[OF assms(1), of p s ev o' t1 k] show ?thesis by simp
next
  case (SweepOp now wall)
  obtain xs t1 where "table_sweep now wall t = (xs, t1)" by fastforce
  with assms SweepOp sweep_loop_ok[OF assms(1), of now wall _ "[]" xs t1] show ?thesis
    by (auto simp: table_sweep_def removal_ok_def)
next
  case (WithdrawOp now wall winner)
  obtain xs t1 where st: "withdraw_stale_selection now wall winner t = (xs, t1)" by fastforce
  then obtain ys doomed where ys: "xs = sort_key xp_key ys" "withdraw_loop now wall doomed t [] = (ys, t1)"
    by (auto simp: withdraw_stale_selection_def Let_def split: prod.splits)
  with assms WithdrawOp st withdraw_loop_ok[OF assms(1) ys(2)] show ?thesis
    by (auto simp: removal_ok_def signals_for_sorted)
next
  case (ResetOp key now wall)
  show ?thesis by (rule manual_reset_bracketed[OF assms(1) assms(3)[unfolded ResetOp]])
qed

lemma run_ops_bracketed:
  "table_ok t \<Longrightarrow> list_all op_valid ops \<Longrightarrow> run_ops ops t = (sigs, t') \<Longrightarrow>
     table_ok t' \<and> tb_config t' = tb_config t \<and> follow (phase_in t k) (signals_for k sigs) = Some (phase_in t' k)"
proof (induction ops arbitrary: t sigs)
  case (Cons op ops)
  obtain s1 t1 where one: "run_op op t = (s1, t1)" by fastforce
  obtain s2 where rest: "run_ops ops t1 = (s2, t')" "sigs = s1 @ s2"
    using Cons(4) one by (auto simp: Let_def split: prod.splits)
  have "table_ok t1 \<and> tb_config t1 = tb_config t \<and> follow (phase_in t k) (signals_for k s1) = Some (phase_in t1 k)"
    using run_op_bracketed[OF Cons(2) _ one] Cons(3) by simp
  with Cons.IH[OF _ _ rest(1)] Cons(3) rest(2) show ?case by (simp add: follow_append)
qed simp

text \<open>
  Property C33. The state table is well typed and bounded in every history of snapshots, sweeps,
  policy swaps and resets: it never holds more entries than configured, no scope twice, every
  entry is filed under its own key, and an entry carries the start of a detection (in both clocks)
  exactly while its state is open.\<close>

theorem state_table_is_well_formed:
  assumes "list_all op_valid ops"
  shows "case snd (run_ops ops (new_state_table cfg)) of t \<Rightarrow>
    distinct (map fst (tb_entries t)) \<and> length (tb_entries t) \<le> sc_max_entries cfg \<and>
    (\<forall>k e. map_of (tb_entries t) k = Some e \<longrightarrow> st_key e = k \<and>
       (is_open (st_state e) \<longleftrightarrow> st_active_since e \<noteq> None) \<and>
       (is_open (st_state e) \<longleftrightarrow> st_active_since_wall e \<noteq> None))"
proof -
  obtain sigs t where run: "run_ops ops (new_state_table cfg) = (sigs, t)" by fastforce
  then have ok: "table_ok t" "tb_config t = cfg"
    using run_ops_bracketed[OF table_ok_new assms run] by (auto simp: new_state_table_def)
  have "st_key e = k \<and> (is_open (st_state e) \<longleftrightarrow> st_active_since e \<noteq> None) \<and>
      (is_open (st_state e) \<longleftrightarrow> st_active_since_wall e \<noteq> None)" if "map_of (tb_entries t) k = Some e" for k e
    using table_ok_entry[OF ok(1) that] by (cases "st_active_since e"; cases "st_active_since_wall e") (auto simp: entry_ok_def)
  moreover have "distinct (map fst (tb_entries t))" "length (tb_entries t) \<le> sc_max_entries cfg"
    using ok by (simp_all add: table_ok_def)
  ultimately show ?thesis unfolding run snd_conv by blast
qed

text \<open>
  Property C31. Detections are correctly bracketed. In any history, the signals of one scope are a
  sequence of detections: a start numbered 0, then updates, then one end, numbered consecutively
  (up to the largest 64-bit number) and all carrying the instant of the start. What is left open
  at the end is exactly the open entry of the table, at its number. No end is lost or doubled by a
  sweep, a policy swap or a reset.\<close>

theorem detections_are_bracketed:
  assumes "list_all op_valid ops" "run_ops ops (new_state_table cfg) = (sigs, t)"
  shows "follow None (signals_for k sigs) =
    Some (case map_of (tb_entries t) k of
      Some e \<Rightarrow> if is_open (st_state e) then Some (the (st_active_since e), st_events_in_detection e) else None
    | None \<Rightarrow> None)"
  using run_ops_bracketed[OF table_ok_new assms, of k]
  by (auto simp: phase_in_def phase_def new_state_table_def split: option.splits)

section \<open>Replays and sustained excess\<close>

text \<open>
  Delivery may repeat and reorder snapshots without harm. A snapshot that is not later
  than the last one its scope has processed changes no entry, raises no signal and makes no
  transition; and no snapshot ever touches the entry of another scope.\<close>

theorem late_snapshots_change_nothing:
  assumes "0 < dp_trigger_for p" "table_step p s ev t = (o', t')"
  shows "(\<forall>k. k \<noteq> sn_key s \<longrightarrow> map_of (tb_entries t') k = map_of (tb_entries t) k) \<and>
    (\<forall>e at. map_of (tb_entries t) (sn_key s) = Some e \<and> st_last_snapshot_at e = Some at \<and> sn_observed_at s \<le> at \<longrightarrow>
       tb_entries t' = tb_entries t \<and> so_signal o' = None \<and> so_ignored o' \<noteq> None)"
  using assms(2,1)
  by (cases rule: table_step_cases) (auto simp: update_conv' linorder_not_le[symmetric])

text \<open>The snapshots a history has processed: scope, instant, whether the thresholds were crossed,
  and the policy with its version.\<close>

type_synonym observation = "ScopeKey \<times> nat \<times> bool \<times> rust_str \<times> u32"

primrec observed :: "table_op \<Rightarrow> StateTable \<Rightarrow> observation list" where
  "observed (StepOp p s ev) t =
     (if so_ignored (fst (table_step p s ev t)) = None
      then [(sn_key s, sn_observed_at s, is_over_threshold ev, dp_id p, dp_version p)] else [])"
| "observed (SweepOp _ _) t = []"
| "observed (WithdrawOp _ _ _) t = []"
| "observed (ResetOp _ _ _) t = []"

fun history :: "table_op list \<Rightarrow> StateTable \<Rightarrow> observation list" where
  "history [] t = []"
| "history (op # ops) t = observed op t @ history ops (snd (run_op op t))"

definition sustained :: "ScopeKey \<Rightarrow> rust_str \<Rightarrow> u32 \<Rightarrow> nat \<Rightarrow> observation list \<Rightarrow> bool" where
  "sustained k pid version since h \<longleftrightarrow> (\<exists>pre suf. filter (\<lambda>x. fst x = k) h = pre @ suf \<and> suf \<noteq> [] \<and>
     fst (snd (hd suf)) = since \<and> (\<forall>x \<in> set suf. snd (snd x) = (True, pid, version)))"

lemma sustained_skip: "sustained k pid v since h \<Longrightarrow> filter (\<lambda>x. fst x = k) h' = [] \<Longrightarrow> sustained k pid v since (h @ h')"
  by (auto simp: sustained_def)

lemma sustained_more:
  "sustained k pid v since h \<Longrightarrow> sustained k pid v since (h @ [(k, at, True, pid, v)])"
  unfolding sustained_def by (elim exE conjE, rule_tac x = pre in exI, rule_tac x = "suf @ [(k, at, True, pid, v)]" in exI) auto

lemma sustained_fresh: "sustained k pid v at (h @ [(k, at, True, pid, v)])"
  unfolding sustained_def by (rule exI[of _ "filter (\<lambda>x. fst x = k) h"], rule exI[of _ "[(k, at, True, pid, v)]"]) auto

definition pending_ok :: "observation list \<Rightarrow> StateTable \<Rightarrow> bool" where
  "pending_ok h t \<longleftrightarrow> (\<forall>k e. map_of (tb_entries t) k = Some e \<and> st_state e = PendingTrigger \<longrightarrow>
     sustained k (st_policy_id e) (st_policy_version e) (st_entered_at e) h)"

lemma pending_ok_step:
  assumes ok: "table_ok t" and pend: "pending_ok h t" and trigger: "0 < dp_trigger_for p"
  shows "pending_ok (h @ observed (StepOp p s ev) t) (snd (run_op (StepOp p s ev) t))"
proof -
  obtain o' t' where st: "table_step p s ev t = (o', t')" by fastforce
  let ?x = "(sn_key s, sn_observed_at s, is_over_threshold ev, dp_id p, dp_version p)"
  from st trigger show ?thesis
  proof (cases rule: table_step_cases)
    case ignored
    with pend st show ?thesis by (auto simp: pending_ok_def)
  next
    case (accepted e e')
    have "pending_ok (h @ [?x]) t'"
      unfolding pending_ok_def
    proof (intro allI impI, elim conjE)
      fix k e1 assume e1: "map_of (tb_entries t') k = Some e1" "st_state e1 = PendingTrigger"
      show "sustained k (st_policy_id e1) (st_policy_version e1) (st_entered_at e1) (h @ [?x])"
      proof (cases "k = sn_key s")
        case False
        with e1 accepted(6) pend have "sustained k (st_policy_id e1) (st_policy_version e1) (st_entered_at e1) h"
          by (auto simp: pending_ok_def update_conv')
        with False show ?thesis by (auto intro: sustained_skip)
      next
        case True
        with e1 accepted(4,6) have e': "e1 = fst (step_entry p s ev e)" by (simp add: update_conv')
        have facts: "is_over_threshold ev" "run_of p e1"
            "st_entered_at e1 = sn_observed_at s \<or> run_of p e \<and> st_state e = PendingTrigger \<and> st_entered_at e1 = st_entered_at e"
          using step_entry_pending[OF _ trigger, of s ev e] e1(2) unfolding e' by auto
        have "sustained (sn_key s) (dp_id p) (dp_version p) (st_entered_at e) h"
          if "run_of p e" "st_state e = PendingTrigger"
          using pend[unfolded pending_ok_def, rule_format, of "sn_key s" e] accepted(2) that by (auto simp: run_of_def)
        with facts True show ?thesis
          using sustained_fresh[of k "dp_id p" "dp_version p" "sn_observed_at s" h]
            sustained_more[of k "dp_id p" "dp_version p" "st_entered_at e" h "sn_observed_at s"]
          by (auto simp: run_of_def)
      qed
    qed
    with st accepted(1) show ?thesis by simp
  qed
qed

lemma run_op_removal:
  assumes "table_ok t" "\<And>p s ev. op \<noteq> StepOp p s ev"
    and "map_of (tb_entries (snd (run_op op t))) k = Some e" "st_state e = PendingTrigger"
  shows "map_of (tb_entries t) k = Some e"
proof (cases op)
  case (SweepOp now wall)
  obtain xs t1 where "table_sweep now wall t = (xs, t1)" by fastforce
  with assms SweepOp sweep_loop_ok[OF assms(1), of now wall _ "[]" xs t1] show ?thesis
    by (auto simp: table_sweep_def removal_ok_def)
next
  case (WithdrawOp now wall winner)
  obtain xs t1 where st: "withdraw_stale_selection now wall winner t = (xs, t1)" by fastforce
  then obtain ys doomed where ys: "withdraw_loop now wall doomed t [] = (ys, t1)"
    by (auto simp: withdraw_stale_selection_def Let_def split: prod.splits)
  with assms WithdrawOp st withdraw_loop_ok[OF assms(1) ys] show ?thesis
    by (auto simp: removal_ok_def)
next
  case (ResetOp key now wall)
  show ?thesis
  proof (cases "map_of (tb_entries t) key")
    case None
    with assms(3) ResetOp show ?thesis by (simp add: manual_reset_def)
  next
    case (Some e0)
    have "st_state (reset_entry now wall e0) = Idle"
      by (simp add: reset_entry_def Let_def)
    with assms(3,4) ResetOp run_reset[OF Some table_ok_entry[OF assms(1) Some], of now wall] show ?thesis
      by (auto simp: update_conv' split: if_splits)
  qed
qed (use assms(2) in blast)

lemma pending_ok_run:
  "table_ok t \<Longrightarrow> pending_ok h t \<Longrightarrow> list_all op_valid ops \<Longrightarrow>
     pending_ok (h @ history ops t) (snd (run_ops ops t))"
proof (induction ops arbitrary: t h)
  case (Cons op ops)
  obtain sigs t1 where one: "run_op op t = (sigs, t1)" by fastforce
  have ok1: "table_ok t1" using run_op_bracketed[OF Cons(2) _ one] Cons(4) by simp
  have "pending_ok (h @ observed op t) t1"
  proof (cases op)
    case (StepOp p s ev)
    with pending_ok_step[OF Cons(2,3), of p s ev] Cons(4) one show ?thesis by simp
  next
    case (SweepOp now wall)
    with run_op_removal[OF Cons(2), of op] Cons(3) one show ?thesis by (simp add: pending_ok_def)
  next
    case (WithdrawOp now wall w)
    with run_op_removal[OF Cons(2), of op] Cons(3) one show ?thesis by (simp add: pending_ok_def)
  next
    case (ResetOp key now wall)
    with run_op_removal[OF Cons(2), of op] Cons(3) one show ?thesis by (simp add: pending_ok_def)
  qed
  with Cons.IH[OF ok1, of "h @ observed op t"] Cons(4) one show ?case by (simp add: split_beta Let_def)
qed simp

text \<open>
  Property C32. A detection opens only on a sustained excess. Whenever a step of a history raises a
  start, its own snapshot crossed the thresholds and so did every snapshot the scope had processed
  since an instant at least the policy's trigger time earlier, all of them under the same policy
  and version.\<close>

theorem detection_needs_sustained_excess:
  assumes "list_all op_valid ops" "run_ops ops (new_state_table cfg) = (sigs, t)"
    and "0 < dp_trigger_for p" "signal_kind (fst (table_step p s ev t)) = Some Started"
  shows "is_over_threshold ev \<and>
    (\<exists>pre suf. filter (\<lambda>x. fst x = sn_key s) (history ops (new_state_table cfg)) = pre @ suf \<and> suf \<noteq> [] \<and>
       dp_trigger_for p \<le> sn_observed_at s - fst (snd (hd suf)) \<and>
       (\<forall>x \<in> set suf. snd (snd x) = (True, dp_id p, dp_version p)))"
proof -
  have "pending_ok [] (new_state_table cfg)" by (simp add: pending_ok_def new_state_table_def)
  from pending_ok_run[OF table_ok_new this assms(1)] assms(2)
  have pend: "pending_ok (history ops (new_state_table cfg)) t" by simp
  obtain o' t' where st: "table_step p s ev t = (o', t')" by fastforce
  from st assms(3) show ?thesis
  proof (cases rule: table_step_cases)
    case ignored
    with assms(4) st show ?thesis by (simp add: signal_kind_def)
  next
    case (accepted e e')
    have "signal_kind (snd (step_entry p s ev e)) = Some Started" using assms(4) st accepted(4) by simp
    from step_entry_started[OF this assms(3)] have e: "run_of p e" "st_state e = PendingTrigger" "is_over_threshold ev"
      "dp_trigger_for p \<le> sn_observed_at s - st_entered_at e" by auto
    with accepted(2) have "map_of (tb_entries t) (sn_key s) = Some e" by auto
    with pend[unfolded pending_ok_def, rule_format, of "sn_key s" e] e(1,2)
    have "sustained (sn_key s) (dp_id p) (dp_version p) (st_entered_at e) (history ops (new_state_table cfg))"
      by (simp add: run_of_def)
    with e(3,4) show ?thesis unfolding sustained_def by metis
  qed
qed


text \<open>A concrete history: three snapshots above the threshold, five seconds apart, then a sweep.\<close>

definition sample_step :: "nat \<Rightarrow> u64 \<Rightarrow> table_op" where
  "sample_step at bps = StepOp sample_policy (sample_snapshot at bps) (evaluate sample_policy (sample_snapshot at bps))"

definition sample_table :: "StateTable" where
  "sample_table = new_state_table \<lparr>sc_max_entries = 1, sc_idle_ttl = secs 300, sc_stale_after = secs 180\<rparr>"

lemma sample_policy_timers [simp]:
  "dp_trigger_for sample_policy = secs 10" "dp_window sample_policy = secs 5"
  "dp_execution_mode sample_policy = AlertOnly" "dp_version sample_policy = 1"
  "dp_cooldown sample_policy = secs 30" "dp_clear_for sample_policy = secs 10"
  "dp_hold_down sample_policy = secs 20" "dp_event_update_interval sample_policy = secs 60"
  by (simp_all add: sample_policy_def policy_of_draft_def sample_draft_def)

lemma sample_over: "1000 \<le> bps \<Longrightarrow> is_over_threshold (evaluate sample_policy (sample_snapshot at bps))"
  by (simp add: over_threshold_iff crossed_def sample_snapshot_def metric_seen_def)

lemma sample_valid: "list_all op_valid [sample_step a x, sample_step b y]"
  by (simp add: sample_step_def)

lemmas sample_eval = table_step_def evaluates_def
  step_entry_def step_state_def step_idle_def step_pending_trigger_def move_def scope_transition_def
  state_can_transition_to_def enter_state_def push_transition_def paced_update_def
  start_detection_def raise_signal_def scope_context_def opened_def record_peaks_def is_open_def time_in_state_def
  default_outcome_def outcome_signals_def signal_view_def Let_def

lemma sample_snapshot_fields [simp]:
  "sn_key (sample_snapshot at bps) = sample_key" "sn_window (sample_snapshot at bps) = secs 5"
  "sn_observed_at (sample_snapshot at bps) = at" "sn_observed_wall (sample_snapshot at bps) = int at"
  by (simp_all add: sample_snapshot_def)

lemma sample_run:
  "\<exists>t e. run_ops [sample_step 0 2000, sample_step (secs 5) 2000] sample_table = ([], t) \<and>
     tb_entries t = [(sample_key, e)] \<and> st_state e = PendingTrigger \<and> st_entered_at e = 0 \<and>
     st_policy_id e = lit ''p1'' \<and> st_policy_version e = 1 \<and> st_last_snapshot_at e = Some (secs 5) \<and>
     st_active_since e = None"
  by (simp add: sample_step_def sample_table_def new_state_table_def new_scope_state_def sample_over sample_eval)

lemma sample_third:
  assumes "tb_entries t = [(sample_key, e)]" "st_state e = PendingTrigger" "st_entered_at e = 0"
    "st_policy_id e = lit ''p1''" "st_policy_version e = 1" "st_last_snapshot_at e = Some (secs 5)" "st_active_since e = None"
  shows "signal_kind (fst (table_step sample_policy (sample_snapshot (secs 10) 2000)
    (evaluate sample_policy (sample_snapshot (secs 10) 2000)) t)) = Some Started"
  using assms by (simp add: sample_over sample_eval signal_kind_def)

theorem state_table_is_well_formed_witness:
  "length (tb_entries (snd (run_ops [sample_step 0 2000, sample_step (secs 5) 2000] sample_table))) \<le> 1"
  using state_table_is_well_formed[of "[sample_step 0 2000, sample_step (secs 5) 2000]"
      "\<lparr>sc_max_entries = 1, sc_idle_ttl = secs 300, sc_stale_after = secs 180\<rparr>"] sample_valid
  by (simp add: sample_table_def)

theorem detections_are_bracketed_witness:
  "\<exists>sigs t. run_ops [sample_step 0 2000, sample_step (secs 5) 2000, sample_step (secs 10) 2000] sample_table = (sigs, t) \<and>
     follow None (signals_for sample_key sigs) \<noteq> None"
proof -
  let ?ops = "[sample_step 0 2000, sample_step (secs 5) 2000, sample_step (secs 10) 2000]"
  obtain sigs t where run: "run_ops ?ops sample_table = (sigs, t)" by fastforce
  have "list_all op_valid ?ops" by (simp add: sample_step_def)
  from detections_are_bracketed[OF this run[unfolded sample_table_def], of sample_key] run show ?thesis by blast
qed

theorem late_snapshots_change_nothing_witness:
  "\<exists>t e t'. tb_entries t = [(sample_key, e)] \<and>
     snd (table_step sample_policy (sample_snapshot (secs 5) 9999) (evaluate sample_policy (sample_snapshot (secs 5) 9999)) t) = t' \<and>
     tb_entries t' = tb_entries t"
proof -
  obtain t :: StateTable and e where t: "tb_entries t = [(sample_key, e)]" "st_last_snapshot_at e = Some (secs 5)"
    using sample_run by blast
  let ?s = "sample_snapshot (secs 5) 9999"
  obtain o' t' where st: "table_step sample_policy ?s (evaluate sample_policy ?s) t = (o', t')" by fastforce
  have "0 < dp_trigger_for sample_policy" by simp
  from late_snapshots_change_nothing[OF this st] t have "tb_entries t' = tb_entries t" by simp
  with t st show ?thesis by force
qed

theorem detection_needs_sustained_excess_witness:
  "\<exists>pre suf. filter (\<lambda>x. fst x = sample_key)
      (history [sample_step 0 2000, sample_step (secs 5) 2000] sample_table) = pre @ suf \<and> suf \<noteq> [] \<and>
    secs 10 \<le> secs 10 - fst (snd (hd suf))"
proof -
  obtain t e where run: "run_ops [sample_step 0 2000, sample_step (secs 5) 2000] sample_table = ([], t)"
    and e: "tb_entries t = [(sample_key, e)]" "st_state e = PendingTrigger" "st_entered_at e = 0"
    "st_policy_id e = lit ''p1''" "st_policy_version e = 1" "st_last_snapshot_at e = Some (secs 5)" "st_active_since e = None"
    using sample_run by blast
  have "0 < dp_trigger_for sample_policy" by simp
  from detection_needs_sustained_excess[OF sample_valid run[unfolded sample_table_def] this sample_third[OF e]]
  show ?thesis by (auto simp: sample_table_def)
qed

end
