(* ===== verification/Detection_Event.thy ===== *)
theory Detection_Event
  imports Detection_State
begin

text \<open>
  Detection events and where they go (\<open>crates/detector/src/event.rs\<close> and \<open>sink.rs\<close>): the
  factory with its identifiers, the event built from a step and the one built from a closed entry,
  the one-line summary, and the in-memory and fan-out sinks. The standard library leaves the
  algorithm of \<open>DefaultHasher\<close> open, so the hash is an argument.
\<close>

section \<open>Events\<close>

definition EVENT_SCHEMA_VERSION :: u32 where "EVENT_SCHEMA_VERSION = 1"

datatype EventKind = EventStarted | EventUpdated | EventEnded

primrec kind_as_str :: "EventKind \<Rightarrow> string" where
  "kind_as_str EventStarted = ''started''"
| "kind_as_str EventUpdated = ''updated''"
| "kind_as_str EventEnded = ''ended''"

primrec kind_of_signal :: "Signal \<Rightarrow> EventKind" where
  "kind_of_signal Started = EventStarted"
| "kind_of_signal Updated = EventUpdated"
| "kind_of_signal Ended = EventEnded"

datatype ActionTaken = Observed | Alerted | DryRunOnly

primrec action_for_mode :: "ExecutionMode \<Rightarrow> ActionTaken option" where
  "action_for_mode Disabled = None"
| "action_for_mode Observe = Some Observed"
| "action_for_mode AlertOnly = Some Alerted"
| "action_for_mode DryRun = Some DryRunOnly"

primrec action_executed :: "ActionTaken \<Rightarrow> bool" where
  "action_executed Observed = False"
| "action_executed Alerted = False"
| "action_executed DryRunOnly = False"

record EventTarget =
  tg_tenant :: rust_str
  tg_scope_type :: ScopeType
  tg_scope_id :: ScopeId
  tg_display :: rust_str
  tg_direction :: TrafficDirection
  tg_address_family :: AddressFamily

record DetectionEvent =
  de_schema_version :: u32
  de_event_id :: rust_str
  de_detection_id :: rust_str
  de_sequence :: u64
  de_kind :: EventKind
  de_dedup_key :: rust_str
  de_policy_id :: rust_str
  de_policy_name :: rust_str
  de_policy_version :: u32
  de_severity :: Severity
  de_execution_mode :: ExecutionMode
  de_action :: ActionTaken
  de_labels :: "(rust_str \<times> rust_str) list"
  de_target :: EventTarget
  de_previous_state :: DetectionState
  de_state :: DetectionState
  de_reason :: TransitionReason
  de_detected_at_ms :: u64
  de_observed_at_ms :: u64
  de_duration_ms :: u64
  de_window_ms :: u64
  de_matched :: "MatchedReason list"
  de_peak :: "MatchedReason list"
  de_skipped :: "SkippedMetric list"
  de_rates :: MetricRates
  de_completeness :: DataCompleteness
  de_sampling :: SamplingStatus
  de_flows_observed :: u64
  de_exporters_observed :: u32
  de_snapshots_in_detection :: u64
  de_executed :: bool
  de_summary :: rust_str

definition is_publishable :: "DetectionEvent \<Rightarrow> bool" where
  "is_publishable ev = emits_events (de_execution_mode ev)"

section \<open>The factory\<close>

record EventFactory =
  ef_instance_id :: u64
  ef_origin :: nat
  ef_counter :: u64

text \<open>What the detection id hashes, in the order it is hashed; the hash of it is an argument.\<close>

type_synonym hash_input = "u64 \<times> rust_str \<times> ScopeType \<times> ScopeId \<times> TrafficDirection \<times> AddressFamily \<times> nat"
type_synonym hasher = "hash_input \<Rightarrow> u64"

definition hex16 :: "u64 \<Rightarrow> string" where
  "hex16 w = (let digits = show_radix 16 (unat w) in replicate (16 - length digits) (CHR ''0'') @ digits)"

definition detection_id :: "hasher \<Rightarrow> EventFactory \<Rightarrow> EventTarget \<Rightarrow> nat \<Rightarrow> rust_str" where
  "detection_id hash f target started_at =
     lit (hex16 (ef_instance_id f) @
       hex16 (hash (ef_instance_id f, tg_tenant target, tg_scope_type target, tg_scope_id target,
         tg_direction target, tg_address_family target, started_at - ef_origin f)))"

definition next_event_id :: "EventFactory \<Rightarrow> rust_str \<times> EventFactory" where
  "next_event_id f =
     (lit (hex16 (ef_instance_id f) @ ''-'' @ hex16 (ef_counter f)), f\<lparr>ef_counter := ef_counter f + 1\<rparr>)"

definition event_dedup_key :: "rust_str \<Rightarrow> EventKind \<Rightarrow> u64 \<Rightarrow> rust_str" where
  "event_dedup_key detection_id' kind sequence =
     detection_id' @ lit ('':'' @ kind_as_str kind @ '':'' @ show_nat (unat sequence))"

definition saturating_millis :: "nat \<Rightarrow> u64" where
  "saturating_millis nanos = of_nat (min (nanos div 1000000) (2 ^ 64 - 1))"

definition unix_millis :: "WallTime \<Rightarrow> u64" where
  "unix_millis at = (if at < 0 then 0 else saturating_millis (nat at))"

definition target_of_key :: "ScopeKey \<Rightarrow> EventTarget" where
  "target_of_key key =
     \<lparr>tg_tenant = sk_tenant key, tg_scope_type = sk_scope_type key, tg_scope_id = sk_scope_id key,
      tg_display = scope_id_display (sk_scope_id key), tg_direction = sk_direction key,
      tg_address_family = sk_address_family key\<rparr>"

text \<open>\<open>Iterator::max_by_key\<close> keeps the last of several maximal elements.\<close>

fun max_by_key :: "('a \<Rightarrow> 'b::linorder) \<Rightarrow> 'a list \<Rightarrow> 'a option" where
  "max_by_key f [] = None"
| "max_by_key f (x # xs) =
     (case max_by_key f xs of
        None \<Rightarrow> Some x
      | Some y \<Rightarrow> if f x > f y then Some x else Some y)"

definition show_word :: "'a::len word \<Rightarrow> rust_str" where
  "show_word w = lit (show_nat (unat w))"

definition summary_subject :: "EventTarget \<Rightarrow> rust_str" where
  "summary_subject target =
     lit (direction_as_str (tg_direction target) @ '' '' @ scope_as_str (tg_scope_type target) @ '' '') @ tg_display target"

definition reason_text :: "MatchedReason \<Rightarrow> rust_str" where
  "reason_text r =
     show_word (ma_observed r) @ lit '' '' @ lit (unit_as_str (metric_unit (ma_metric r))) @ lit '' ('' @
     show_word (ma_ratio_percent r) @ lit ''% of the '' @ lit (metric_as_str (ma_metric r)) @ lit '' threshold)''"

definition summarize ::
    "EventTarget \<Rightarrow> DetectionPolicy \<Rightarrow> EventKind \<Rightarrow> MatchedReason list \<Rightarrow> MatchedReason list \<Rightarrow> nat \<Rightarrow> rust_str" where
  "summarize target policy kind matched peak duration =
     (let subject = summary_subject target;
          under = lit '' under policy '' @ dp_id policy;
          seconds = lit (show_nat (duration div 1000000000) @ ''s'')
      in if kind = EventEnded then
           (case max_by_key ma_ratio_percent peak of
              Some r \<Rightarrow> lit ''ended: '' @ subject @ lit '' after '' @ seconds @ lit '', peaking at '' @ reason_text r @ under
            | None \<Rightarrow> lit ''ended: '' @ subject @ lit '' after '' @ seconds @ under)
         else
           (let head = lit (severity_as_str (dp_severity policy) @ '' '' @ kind_as_str kind @ '': '') @ subject in
            case (case max_by_key ma_ratio_percent matched of
                    None \<Rightarrow> max_by_key ma_ratio_percent peak | Some r \<Rightarrow> Some r) of
              Some r \<Rightarrow> head @ lit '' at '' @ reason_text r @ under
            | None \<Rightarrow> head @ under))"

definition build_event ::
    "hasher \<Rightarrow> EventFactory \<Rightarrow> SignalRecord \<Rightarrow> DetectionPolicy \<Rightarrow> DetectionSnapshot \<Rightarrow> MatchedReason list
     \<Rightarrow> SkippedMetric list \<Rightarrow> DetectionEvent option \<times> EventFactory" where
  "build_event hash f r policy snapshot matched skipped =
     (case action_for_mode (dp_execution_mode policy) of
        None \<Rightarrow> (None, f)
      | Some action \<Rightarrow>
          let t = sr_transition r;
              ctx = sr_detection r;
              kind = kind_of_signal (sr_signal r);
              target = target_of_key (sn_key snapshot);
              did = detection_id hash f target (dx_started_at ctx);
              duration = sn_observed_at snapshot - dx_started_at ctx;
              (eid, f) = next_event_id f
          in (Some \<lparr>de_schema_version = EVENT_SCHEMA_VERSION, de_event_id = eid, de_detection_id = did,
                de_sequence = dx_sequence ctx, de_kind = kind,
                de_dedup_key = event_dedup_key did kind (dx_sequence ctx),
                de_policy_id = tr_policy_id t, de_policy_name = dp_name policy,
                de_policy_version = tr_policy_version t, de_severity = dp_severity policy,
                de_execution_mode = dp_execution_mode policy, de_action = action,
                de_labels = dp_labels policy, de_target = target,
                de_previous_state = tr_from t, de_state = tr_to t, de_reason = tr_reason t,
                de_detected_at_ms = unix_millis (dx_started_wall ctx),
                de_observed_at_ms = unix_millis (sn_observed_wall snapshot),
                de_duration_ms = saturating_millis duration,
                de_window_ms = saturating_millis (sn_window snapshot),
                de_matched = matched, de_peak = dx_peak ctx, de_skipped = skipped,
                de_rates = sn_rates snapshot, de_completeness = sn_completeness snapshot,
                de_sampling = sn_sampling snapshot, de_flows_observed = sn_flows_observed snapshot,
                de_exporters_observed = sn_exporters_observed snapshot,
                de_snapshots_in_detection = dx_snapshots_in_detection ctx,
                de_executed = action_executed action,
                de_summary = summarize target policy kind matched (dx_peak ctx) duration\<rparr>, f))"

definition build_closing ::
    "hasher \<Rightarrow> EventFactory \<Rightarrow> SignalRecord \<Rightarrow> DetectionPolicy \<Rightarrow> WallTime \<Rightarrow> DetectionEvent option \<times> EventFactory" where
  "build_closing hash f r policy closed_wall =
     (case action_for_mode (dp_execution_mode policy) of
        None \<Rightarrow> (None, f)
      | Some action \<Rightarrow>
          let t = sr_transition r;
              ctx = sr_detection r;
              target = target_of_key (tr_key t);
              did = detection_id hash f target (dx_started_at ctx);
              duration = tr_at t - dx_started_at ctx;
              (eid, f) = next_event_id f
          in (Some \<lparr>de_schema_version = EVENT_SCHEMA_VERSION, de_event_id = eid, de_detection_id = did,
                de_sequence = dx_sequence ctx, de_kind = EventEnded,
                de_dedup_key = event_dedup_key did EventEnded (dx_sequence ctx),
                de_policy_id = tr_policy_id t, de_policy_name = dp_name policy,
                de_policy_version = tr_policy_version t, de_severity = dp_severity policy,
                de_execution_mode = dp_execution_mode policy, de_action = action,
                de_labels = dp_labels policy, de_target = target,
                de_previous_state = tr_from t, de_state = tr_to t, de_reason = tr_reason t,
                de_detected_at_ms = unix_millis (dx_started_wall ctx),
                de_observed_at_ms = unix_millis closed_wall,
                de_duration_ms = saturating_millis duration,
                de_window_ms = saturating_millis (dp_window policy),
                de_matched = [], de_peak = dx_peak ctx, de_skipped = [],
                de_rates = default_rates, de_completeness = default_completeness,
                de_sampling = default_sampling, de_flows_observed = 0, de_exporters_observed = 0,
                de_snapshots_in_detection = dx_snapshots_in_detection ctx,
                de_executed = action_executed action,
                de_summary = lit (''ended ('' @ reason_as_str (tr_reason t) @ ''): '' @
                    direction_as_str (tg_direction target) @ '' '' @ scope_as_str (tg_scope_type target) @ '' '') @
                  tg_display target @ lit ('' after '' @ show_nat (duration div 1000000000) @ ''s under policy '') @
                  dp_id policy\<rparr>, f))"

section \<open>Sinks\<close>

datatype SinkError = SinkFull string | SinkClosed string | SinkBackend string rust_str

text \<open>A sink is its state with a publish operation on it.\<close>

type_synonym 's publish = "DetectionEvent \<Rightarrow> 's \<Rightarrow> (SinkError + unit) \<times> 's"

definition null_publish :: "unit publish" where
  "null_publish event s = (Inr (), s)"

record InMemorySink =
  ms_capacity :: nat
  ms_events :: "DetectionEvent list"
  ms_dropped :: u64

definition new_memory_sink :: "nat \<Rightarrow> InMemorySink" where
  "new_memory_sink capacity = \<lparr>ms_capacity = capacity, ms_events = [], ms_dropped = 0\<rparr>"

fun drop_oldest :: "nat \<Rightarrow> DetectionEvent list \<Rightarrow> u64 \<Rightarrow> DetectionEvent list \<times> u64" where
  "drop_oldest capacity [] dropped = ([], dropped)"
| "drop_oldest capacity (e # es) dropped =
     (if length (e # es) \<ge> capacity then drop_oldest capacity es (saturating_add dropped 1) else (e # es, dropped))"

definition memory_publish :: "InMemorySink publish" where
  "memory_publish event s =
     (if ms_capacity s = 0 then (Inl (SinkFull ''memory''), s)
      else let (events, dropped) = drop_oldest (ms_capacity s) (ms_events s) (ms_dropped s)
           in (Inr (), s\<lparr>ms_events := events @ [event], ms_dropped := dropped\<rparr>))"

fun fan_out_loop :: "'s publish \<Rightarrow> DetectionEvent \<Rightarrow> 's list \<Rightarrow> SinkError option \<Rightarrow> SinkError option \<times> 's list" where
  "fan_out_loop publish event [] first_error = (first_error, [])"
| "fan_out_loop publish event (s # ss) first_error =
     (case publish event s of (res, s) \<Rightarrow>
      let first_error = (case (res, first_error) of (Inl e, None) \<Rightarrow> Some e | _ \<Rightarrow> first_error);
          (err, ss) = fan_out_loop publish event ss first_error
      in (err, s # ss))"

definition fan_out_publish :: "'s publish \<Rightarrow> 's list publish" where
  "fan_out_publish publish event ss =
     (case fan_out_loop publish event ss None of
        (Some e, ss) \<Rightarrow> (Inl e, ss)
      | (None, ss) \<Rightarrow> (Inr (), ss))"

end
