(* ===== verification/Detection_Engine.thy ===== *)
theory Detection_Engine
  imports Detection_Event
begin

text \<open>
  The detection engine (\<open>crates/detector/src/engine.rs\<close>): select a policy, evaluate, step the
  state table, build the event and hand it to the sink. The sink is an argument with its own
  state; metrics and logging are left out. The properties say that the sink only ever receives
  alerting events that claim no action on traffic, and that the events it receives about a scope bracket
  that scope's detections; a lemma shows that an end event is dropped without a trace when the policy was
  disabled in place.
\<close>

record EngineReport =
  rp_snapshots_seen :: nat
  rp_unmatched :: nat
  rp_ignored :: nat
  rp_transitions :: nat
  rp_suppressed :: nat
  rp_events_built :: nat
  rp_events_published :: nat
  rp_events_failed :: nat
  rp_detections_opened :: nat
  rp_detections_closed :: nat

definition default_report :: EngineReport where
  "default_report = \<lparr>rp_snapshots_seen = 0, rp_unmatched = 0, rp_ignored = 0, rp_transitions = 0,
     rp_suppressed = 0, rp_events_built = 0, rp_events_published = 0, rp_events_failed = 0,
     rp_detections_opened = 0, rp_detections_closed = 0\<rparr>"

definition report_merge :: "EngineReport \<Rightarrow> EngineReport \<Rightarrow> EngineReport" where
  "report_merge a b =
     \<lparr>rp_snapshots_seen = rp_snapshots_seen a + rp_snapshots_seen b,
      rp_unmatched = rp_unmatched a + rp_unmatched b,
      rp_ignored = rp_ignored a + rp_ignored b,
      rp_transitions = rp_transitions a + rp_transitions b,
      rp_suppressed = rp_suppressed a + rp_suppressed b,
      rp_events_built = rp_events_built a + rp_events_built b,
      rp_events_published = rp_events_published a + rp_events_published b,
      rp_events_failed = rp_events_failed a + rp_events_failed b,
      rp_detections_opened = rp_detections_opened a + rp_detections_opened b,
      rp_detections_closed = rp_detections_closed a + rp_detections_closed b\<rparr>"

record 's Engine =
  en_policies :: PolicySet
  en_table :: StateTable
  en_factory :: EventFactory
  en_sink :: 's

definition new_engine :: "StateTableConfig \<Rightarrow> EventFactory \<Rightarrow> 's \<Rightarrow> 's Engine" where
  "new_engine config factory sink =
     \<lparr>en_policies = [], en_table = new_state_table config, en_factory = factory, en_sink = sink\<rparr>"

definition emit :: "'s publish \<Rightarrow> DetectionEvent \<Rightarrow> 's \<times> EngineReport \<Rightarrow> 's \<times> EngineReport" where
  "emit publish event sr =
     (let (sink, report) = sr;
          report = report\<lparr>rp_events_built := rp_events_built report + 1\<rparr>;
          report = (case de_kind event of
             EventStarted \<Rightarrow> report\<lparr>rp_detections_opened := rp_detections_opened report + 1\<rparr>
           | EventEnded \<Rightarrow> report\<lparr>rp_detections_closed := rp_detections_closed report + 1\<rparr>
           | EventUpdated \<Rightarrow> report)
      in if \<not> is_publishable event then (sink, report)
         else case publish event sink of
             (Inr _, sink) \<Rightarrow> (sink, report\<lparr>rp_events_published := rp_events_published report + 1\<rparr>)
           | (Inl _, sink) \<Rightarrow> (sink, report\<lparr>rp_events_failed := rp_events_failed report + 1\<rparr>))"

definition evaluate_snapshot ::
    "hasher \<Rightarrow> 's publish \<Rightarrow> DetectionSnapshot \<Rightarrow> 's Engine \<times> EngineReport \<Rightarrow> 's Engine \<times> EngineReport" where
  "evaluate_snapshot hash publish snapshot er =
     (let (en, report) = er in
      case winner_for (en_policies en) (sn_key snapshot) of
        None \<Rightarrow> (en, report\<lparr>rp_unmatched := rp_unmatched report + 1\<rparr>)
      | Some policy \<Rightarrow>
          let ev = evaluate policy snapshot;
              (o', table) = table_step policy snapshot ev (en_table en);
              en = en\<lparr>en_table := table\<rparr>;
              report = (if so_ignored o' \<noteq> None then report\<lparr>rp_ignored := rp_ignored report + 1\<rparr> else report);
              report = (if so_suppressed o' \<noteq> None then report\<lparr>rp_suppressed := rp_suppressed report + 1\<rparr> else report);
              report = report\<lparr>rp_transitions := rp_transitions report + length (so_transitions o')\<rparr>
          in case so_signal o' of
               None \<Rightarrow> (en, report)
             | Some r \<Rightarrow>
                 case build_event hash (en_factory en) r policy snapshot (ev_matched ev) (ev_skipped ev) of
                   (None, f) \<Rightarrow> (en\<lparr>en_factory := f\<rparr>, report)
                 | (Some event, f) \<Rightarrow>
                     let (sink, report) = emit publish event (en_sink en, report)
                     in (en\<lparr>en_factory := f, en_sink := sink\<rparr>, report))"

definition engine_evaluate ::
    "hasher \<Rightarrow> 's publish \<Rightarrow> DetectionSnapshot list \<Rightarrow> 's Engine \<Rightarrow> EngineReport \<times> 's Engine" where
  "engine_evaluate hash publish snapshots en =
     (case fold (evaluate_snapshot hash publish) snapshots
        (en, default_report\<lparr>rp_snapshots_seen := length snapshots\<rparr>) of (en, report) \<Rightarrow> (report, en))"

definition close_expiry ::
    "hasher \<Rightarrow> 's publish \<Rightarrow> WallTime \<Rightarrow> (rust_str \<Rightarrow> DetectionPolicy option) \<Rightarrow> Expiry
     \<Rightarrow> 's Engine \<times> EngineReport \<Rightarrow> 's Engine \<times> EngineReport" where
  "close_expiry hash publish wall policy_for x er =
     (let (en, report) = er in
      case (xp_transition x, xp_detection x) of
        (Some t, Some detection) \<Rightarrow>
          if xp_signal x \<noteq> Some Ended then (en, report)
          else
            let report = report\<lparr>rp_transitions := rp_transitions report + 1\<rparr> in
            (case policy_for (tr_policy_id t) of
               None \<Rightarrow> (en, report\<lparr>rp_events_failed := rp_events_failed report + 1\<rparr>)
             | Some policy \<Rightarrow>
                 (case build_closing hash (en_factory en)
                     \<lparr>sr_signal = Ended, sr_transition = t, sr_detection = detection\<rparr> policy wall of
                    (None, f) \<Rightarrow> (en\<lparr>en_factory := f\<rparr>, report)
                  | (Some event, f) \<Rightarrow>
                      let (sink, report) = emit publish event (en_sink en, report)
                      in (en\<lparr>en_factory := f, en_sink := sink\<rparr>, report)))
      | _ \<Rightarrow> (en, report))"

definition close_expired ::
    "hasher \<Rightarrow> 's publish \<Rightarrow> WallTime \<Rightarrow> (rust_str \<Rightarrow> DetectionPolicy option) \<Rightarrow> Expiry list
     \<Rightarrow> 's Engine \<times> EngineReport \<Rightarrow> 's Engine \<times> EngineReport" where
  "close_expired hash publish wall policy_for xs er = fold (close_expiry hash publish wall policy_for) xs er"

definition engine_sweep :: "hasher \<Rightarrow> 's publish \<Rightarrow> nat \<Rightarrow> WallTime \<Rightarrow> 's Engine \<Rightarrow> EngineReport \<times> 's Engine" where
  "engine_sweep hash publish now wall en =
     (let (xs, table) = table_sweep now wall (en_table en);
          (en, report) = close_expired hash publish wall (map_of (en_policies en)) xs (en\<lparr>en_table := table\<rparr>, default_report)
      in (report, en))"

definition replace_policies ::
    "hasher \<Rightarrow> 's publish \<Rightarrow> nat \<Rightarrow> WallTime \<Rightarrow> PolicySet \<Rightarrow> 's Engine \<Rightarrow> EngineReport \<times> 's Engine" where
  "replace_policies hash publish now wall policies en =
     (let outgoing = en_policies en;
          winner = (\<lambda>key. map_option (\<lambda>p. (dp_id p, dp_version p)) (winner_for policies key));
          (xs, table) = withdraw_stale_selection now wall winner (en_table en);
          (en, report) = close_expired hash publish wall (map_of outgoing) xs
             (en\<lparr>en_policies := policies, en_table := table\<rparr>, default_report)
      in (report, en))"

definition engine_cycle ::
    "hasher \<Rightarrow> 's publish \<Rightarrow> DetectionSnapshot list \<Rightarrow> nat \<Rightarrow> WallTime \<Rightarrow> 's Engine \<Rightarrow> EngineReport \<times> 's Engine" where
  "engine_cycle hash publish snapshots now wall en =
     (let (r1, en) = engine_evaluate hash publish snapshots en;
          (r2, en) = engine_sweep hash publish now wall en
      in (report_merge r1 r2, en))"

section \<open>What reaches the sink\<close>

definition alert_only :: "DetectionEvent \<Rightarrow> bool" where
  "alert_only ev \<longleftrightarrow> \<not> de_executed ev \<and> (de_execution_mode ev = AlertOnly \<or> de_execution_mode ev = DryRun) \<and>
     de_action ev \<in> {Alerted, DryRunOnly}"

lemma executed_never [simp]: "\<not> action_executed a"
  by (cases a) simp_all

lemma emit_keeps:
  assumes "\<And>ev s. alert_only ev \<Longrightarrow> I s \<Longrightarrow> I (snd (publish ev s))" "I sink"
    and "\<not> de_executed event" "action_for_mode (de_execution_mode event) = Some (de_action event)"
  shows "I (fst (emit publish event (sink, report)))"
  using assms(1)[of event sink] assms(2-4)
  by (cases "de_execution_mode event")
    (auto simp: emit_def alert_only_def is_publishable_def emits_events_def Let_def split: sum.splits prod.splits)

lemma build_event_sound:
  "fst (build_event hash f r p s m k) = Some ev \<Longrightarrow> \<not> de_executed ev \<and> action_for_mode (de_execution_mode ev) = Some (de_action ev)"
  by (auto simp: build_event_def Let_def split: option.splits prod.splits)

lemma build_closing_sound:
  "fst (build_closing hash f r p w) = Some ev \<Longrightarrow> \<not> de_executed ev \<and> action_for_mode (de_execution_mode ev) = Some (de_action ev)"
  by (auto simp: build_closing_def Let_def split: option.splits prod.splits)

lemma evaluate_snapshot_keeps:
  assumes "\<And>ev s. alert_only ev \<Longrightarrow> I s \<Longrightarrow> I (snd (publish ev s))" "I (en_sink (fst er))"
  shows "I (en_sink (fst (evaluate_snapshot hash publish s er)))"
proof (cases er)
  case (Pair en report)
  note sound = build_event_sound and keeps = emit_keeps[of I publish, OF assms(1)]
  from Pair assms(2) show ?thesis
    by (auto simp: evaluate_snapshot_def Let_def split: option.splits prod.splits)
      (metis build_event_sound fst_conv keeps)+
qed

lemma close_expiry_keeps:
  assumes "\<And>ev s. alert_only ev \<Longrightarrow> I s \<Longrightarrow> I (snd (publish ev s))" "I (en_sink (fst er))"
  shows "I (en_sink (fst (close_expiry hash publish wall policy_for x er)))"
proof (cases er)
  case (Pair en report)
  note keeps = emit_keeps[of I publish, OF assms(1)]
  from Pair assms(2) show ?thesis
    by (auto simp: close_expiry_def Let_def split: option.splits prod.splits)
      (metis build_closing_sound fst_conv keeps)+
qed

text \<open>The calls a running engine receives.\<close>

datatype engine_call =
  EvaluateCall "DetectionSnapshot list"
| SweepCall nat WallTime
| ReplaceCall nat WallTime PolicySet

primrec run_call :: "hasher \<Rightarrow> 's publish \<Rightarrow> engine_call \<Rightarrow> 's Engine \<Rightarrow> EngineReport \<times> 's Engine" where
  "run_call hash publish (EvaluateCall snapshots) en = engine_evaluate hash publish snapshots en"
| "run_call hash publish (SweepCall now wall) en = engine_sweep hash publish now wall en"
| "run_call hash publish (ReplaceCall now wall policies) en = replace_policies hash publish now wall policies en"

definition run_calls :: "hasher \<Rightarrow> 's publish \<Rightarrow> engine_call list \<Rightarrow> 's Engine \<Rightarrow> 's Engine" where
  "run_calls hash publish calls en = fold (\<lambda>call en. snd (run_call hash publish call en)) calls en"

lemma fold_pair_keeps:
  assumes "\<And>x er. I (en_sink (fst er)) \<Longrightarrow> I (en_sink (fst (f x er)))" "I (en_sink (fst er))"
  shows "I (en_sink (fst (fold f xs er)))"
  using assms(2) by (induction xs arbitrary: er) (simp_all add: assms(1))

lemma run_call_keeps:
  assumes "\<And>ev s. alert_only ev \<Longrightarrow> I s \<Longrightarrow> I (snd (publish ev s))" "I (en_sink en)"
  shows "I (en_sink (snd (run_call hash publish call en)))"
proof (cases call)
  case (EvaluateCall snapshots)
  with fold_pair_keeps[of I "evaluate_snapshot hash publish", OF evaluate_snapshot_keeps[of I publish, OF assms(1)]] assms(2)
  show ?thesis by (simp add: engine_evaluate_def split_beta)
next
  case (SweepCall now wall)
  with fold_pair_keeps[of I "close_expiry hash publish wall (map_of (en_policies en))",
      OF close_expiry_keeps[of I publish, OF assms(1)]] assms(2)
  show ?thesis by (simp add: engine_sweep_def close_expired_def split_beta Let_def)
next
  case (ReplaceCall now wall policies)
  with fold_pair_keeps[of I "close_expiry hash publish wall (map_of (en_policies en))",
      OF close_expiry_keeps[of I publish, OF assms(1)]] assms(2)
  show ?thesis by (simp add: replace_policies_def close_expired_def split_beta Let_def)
qed

text \<open>
  Property C35. The engine cannot act on traffic. Whatever calls it receives and whatever the sink
  does, the sink is only handed events of an alerting or dry-run policy that say no action was
  executed: every property of the sink's state that such events preserve is preserved.\<close>

theorem sink_receives_only_alerts:
  assumes "\<And>ev s. alert_only ev \<Longrightarrow> I s \<Longrightarrow> I (snd (publish ev s))" "I (en_sink en)"
  shows "I (en_sink (run_calls hash publish calls en))"
  using assms(2)
  by (induction calls arbitrary: en) (auto simp: run_calls_def intro: run_call_keeps[of I publish, OF assms(1)])

definition recording :: "DetectionEvent list publish" where
  "recording ev s = (Inr (), s @ [ev])"

theorem sink_receives_only_alerts_witness:
  "list_all alert_only (en_sink (run_calls (\<lambda>_. 0) recording
     [ReplaceCall 0 0 [(lit ''p1'', sample_policy)], EvaluateCall [sample_snapshot 0 2000, sample_snapshot (secs 10) 2000]]
     (new_engine default_table_config \<lparr>ef_instance_id = 1, ef_origin = 0, ef_counter = 0\<rparr> [])))"
  by (rule sink_receives_only_alerts[of "list_all alert_only" recording])
    (simp_all add: recording_def new_engine_def)

text \<open>
  Disabling a policy in place loses the end of its open detections. When an entry
  expires and the policy found under its id has been switched to disabled, the engine counts one
  transition and nothing else: no event is built or published, and none is counted as failed.\<close>

lemma disabled_policy_swallows_the_end:
  assumes "policy_for (tr_policy_id t) = Some p" "dp_execution_mode p = Disabled"
    and "xp_transition x = Some t" "xp_detection x = Some d" "xp_signal x = Some Ended"
  shows "close_expired hash publish wall policy_for [x] (en, report) =
    (en, report\<lparr>rp_transitions := rp_transitions report + 1\<rparr>)"
  using assms by (simp add: close_expired_def close_expiry_def build_closing_def)

section \<open>From signals to events\<close>

type_synonym event_view = "EventTarget \<times> EventKind \<times> rust_str \<times> u64"

definition view_event :: "DetectionEvent \<Rightarrow> event_view" where
  "view_event ev = (de_target ev, de_kind ev, de_detection_id ev, de_sequence ev)"

definition view_signal :: "hasher \<Rightarrow> EventFactory \<Rightarrow> ScopeKey \<times> Signal \<times> nat \<times> u64 \<Rightarrow> event_view" where
  "view_signal hash f x = (case x of (k, sig, at, n) \<Rightarrow>
     (target_of_key k, kind_of_signal sig, detection_id hash f (target_of_key k) at, n))"

definition same_ids :: "EventFactory \<Rightarrow> EventFactory \<Rightarrow> bool" where
  "same_ids f g \<longleftrightarrow> ef_instance_id f = ef_instance_id g \<and> ef_origin f = ef_origin g"

lemma view_signal_cong: "same_ids f g \<Longrightarrow> view_signal hash f = view_signal hash g"
  by (auto simp: same_ids_def view_signal_def detection_id_def fun_eq_iff)

lemma build_event_view:
  assumes "emits_events (dp_execution_mode p)"
  shows "\<exists>ev f'. build_event hash f r p s m k = (Some ev, f') \<and> same_ids f f' \<and> is_publishable ev \<and>
    view_event ev = view_signal hash f (sn_key s, signal_view r)"
proof -
  obtain action where "action_for_mode (dp_execution_mode p) = Some action"
    using assms by (cases "dp_execution_mode p") (auto simp: emits_events_def)
  with assms show ?thesis
    by (simp add: build_event_def next_event_id_def same_ids_def is_publishable_def view_event_def
        view_signal_def signal_view_def Let_def)
qed

lemma build_closing_view:
  assumes "emits_events (dp_execution_mode p)"
  shows "\<exists>ev f'. build_closing hash f \<lparr>sr_signal = Ended, sr_transition = t, sr_detection = d\<rparr> p w = (Some ev, f') \<and>
    same_ids f f' \<and> is_publishable ev \<and> view_event ev = view_signal hash f (tr_key t, Ended, context_view d)"
proof -
  obtain action where "action_for_mode (dp_execution_mode p) = Some action"
    using assms by (cases "dp_execution_mode p") (auto simp: emits_events_def)
  with assms show ?thesis
    by (simp add: build_closing_def next_event_id_def same_ids_def is_publishable_def view_event_def
        view_signal_def context_view_def Let_def)
qed

lemma emit_recording: "is_publishable ev \<Longrightarrow> fst (emit recording ev (sink, report)) = sink @ [ev]"
  by (simp add: emit_def recording_def Let_def)

definition policies_ok :: "PolicySet \<Rightarrow> bool" where
  "policies_ok ps \<longleftrightarrow> set_ok ps \<and> (\<forall>(k, p) \<in> set ps. 0 < dp_trigger_for p \<and> emits_events (dp_execution_mode p))"

definition known :: "PolicySet \<Rightarrow> StateTable \<Rightarrow> bool" where
  "known ps t \<longleftrightarrow> (\<forall>k e. map_of (tb_entries t) k = Some e \<longrightarrow> map_of ps (st_policy_id e) \<noteq> None)"

lemma policies_ok_map_of:
  "policies_ok ps \<Longrightarrow> map_of ps i = Some p \<Longrightarrow> 0 < dp_trigger_for p \<and> emits_events (dp_execution_mode p)"
  by (auto simp: policies_ok_def dest: map_of_SomeD)

lemma winner_known:
  assumes "policies_ok ps" "winner_for ps key = Some p"
  shows "map_of ps (dp_id p) = Some p"
proof -
  have "p \<in> snd ` set ps" using winner_for_spec[of ps key] assms by (auto simp: policies_ok_def)
  then have "(dp_id p, p) \<in> set ps" using assms(1) by (auto simp: policies_ok_def set_ok_def)
  then show ?thesis using assms(1) by (intro map_of_is_SomeI) (auto simp: policies_ok_def set_ok_def intro: bt_ok_distinct)
qed

lemma move_policy [simp]:
  "(\<And>t eo. st_policy_id (fst (announce t eo)) = st_policy_id (fst eo)) \<Longrightarrow>
     st_policy_id (fst (move to reason now wall m announce eo)) = st_policy_id (fst eo)"
  by (simp add: move_def scope_transition_def split_beta)

lemma step_state_policy [simp]: "st_policy_id (fst (step_state p now wall ev eo)) = st_policy_id (fst eo)"
  by (cases "st_state (fst eo)")
    (simp_all add: step_state_def step_idle_def step_pending_trigger_def step_active_def step_pending_clear_def
      close_detection_def start_detection_def Let_def)

lemma step_entry_policy:
  assumes "0 < dp_trigger_for p"
  shows "st_policy_id (fst (step_entry p s ev e)) = dp_id p"
proof (cases "st_policy_id e = dp_id p \<and> st_policy_version e = dp_version p")
  case True
  then show ?thesis by (simp add: step_entry_same split_beta settle_frame)
next
  case False
  then have changed: "st_policy_id e \<noteq> dp_id p \<or> st_policy_version e \<noteq> dp_version p" by auto
  have "st_policy_id (fst (policy_change p (sn_observed_at s) (sn_observed_wall s) (e, default_outcome))) = dp_id p"
    by (simp add: policy_change_def Let_def split_beta)
  with step_entry_changed[OF changed assms, of s ev] show ?thesis
    by (auto simp: Let_def split_beta)
qed


definition delivers :: "hasher \<Rightarrow> DetectionEvent list Engine \<Rightarrow> DetectionEvent list Engine \<Rightarrow> signals \<Rightarrow> bool" where
  "delivers hash en en' sigs \<longleftrightarrow> same_ids (en_factory en) (en_factory en') \<and>
     (\<exists>evs. en_sink en' = en_sink en @ evs \<and> map view_event evs = map (view_signal hash (en_factory en)) sigs)"

lemma delivers_refl: "delivers hash en en []"
  by (simp add: delivers_def same_ids_def)

lemma delivers_trans:
  "delivers hash en en1 s1 \<Longrightarrow> delivers hash en1 en2 s2 \<Longrightarrow> delivers hash en en2 (s1 @ s2)"
  using view_signal_cong[of "en_factory en" "en_factory en1" hash]
  by (auto simp: delivers_def same_ids_def)

definition expiry_ok :: "(rust_str \<Rightarrow> DetectionPolicy option) \<Rightarrow> Expiry \<Rightarrow> bool" where
  "expiry_ok pf x \<longleftrightarrow> (xp_signal x = None \<and> xp_detection x = None \<or>
     (\<exists>t d p. xp_signal x = Some Ended \<and> xp_transition x = Some t \<and> xp_detection x = Some d \<and> tr_key t = xp_key x \<and>
        pf (tr_policy_id t) = Some p \<and> emits_events (dp_execution_mode p)))"

lemma close_expiry_delivers:
  assumes "expiry_ok pf x"
  shows "delivers hash en (fst (close_expiry hash recording wall pf x (en, report))) (expiry_signals x) \<and>
    en_table (fst (close_expiry hash recording wall pf x (en, report))) = en_table en \<and>
    en_policies (fst (close_expiry hash recording wall pf x (en, report))) = en_policies en"
  using assms unfolding expiry_ok_def
proof (elim disjE exE conjE)
  assume "xp_signal x = None" "xp_detection x = None"
  then show ?thesis
    by (simp add: close_expiry_def expiry_signals_def delivers_refl split: option.splits)
next
  fix t d p
  assume x: "xp_signal x = Some Ended" "xp_transition x = Some t" "xp_detection x = Some d" "tr_key t = xp_key x"
    "pf (tr_policy_id t) = Some p" "emits_events (dp_execution_mode p)"
  obtain ev f' where ev: "build_closing hash (en_factory en) \<lparr>sr_signal = Ended, sr_transition = t, sr_detection = d\<rparr> p wall = (Some ev, f')"
      "same_ids (en_factory en) f'" "is_publishable ev" "view_event ev = view_signal hash (en_factory en) (tr_key t, Ended, context_view d)"
    using build_closing_view[OF x(6)] by blast
  obtain sink rep where em: "emit recording ev (en_sink en, report\<lparr>rp_transitions := rp_transitions report + 1\<rparr>) = (sink, rep)"
    by fastforce
  with emit_recording[OF ev(3), of "en_sink en" "report\<lparr>rp_transitions := rp_transitions report + 1\<rparr>"]
  have "sink = en_sink en @ [ev]" by simp
  with x ev em show ?thesis
    by (simp add: close_expiry_def expiry_signals_def delivers_def)
qed

lemma close_expired_delivers:
  assumes "list_all (expiry_ok pf) xs"
  shows "delivers hash en (fst (close_expired hash recording wall pf xs (en, report))) (concat (map expiry_signals xs)) \<and>
    en_table (fst (close_expired hash recording wall pf xs (en, report))) = en_table en \<and>
    en_policies (fst (close_expired hash recording wall pf xs (en, report))) = en_policies en"
  using assms unfolding close_expired_def
proof (induction xs arbitrary: en report)
  case Nil
  then show ?case by (simp add: delivers_refl)
next
  case (Cons x xs)
  obtain en1 r1 where one: "close_expiry hash recording wall pf x (en, report) = (en1, r1)" by fastforce
  with close_expiry_delivers[of pf x hash en wall report] Cons(2)
  have "delivers hash en en1 (expiry_signals x)" "en_table en1 = en_table en" "en_policies en1 = en_policies en" by simp_all
  with Cons.IH[of en1 r1] Cons(2) one show ?case by (auto intro: delivers_trans)
qed

lemma retire_expiry_ok:
  assumes "entry_ok k e" "map_of ps (st_policy_id e) \<noteq> None" "policies_ok ps"
  shows "expiry_ok (map_of ps) (retire r now wall k e)"
proof (cases "is_open (st_state e)")
  case True
  then obtain at w where "opened e = Some (at, w)" "st_active_since e = Some at"
    using assms(1) by (cases "st_active_since e"; cases "st_active_since_wall e") (auto simp: entry_ok_def opened_def)
  moreover obtain p where "map_of ps (st_policy_id e) = Some p" "emits_events (dp_execution_mode p)"
    using assms(2,3) policies_ok_map_of by blast
  ultimately show ?thesis
    using True assms(1)
    by (auto simp: expiry_ok_def retire_def scope_transition_def scope_context_def state_can_transition_to_def
        entry_ok_def is_open_def Let_def)
next
  case False
  then show ?thesis by (simp add: expiry_ok_def retire_def split_beta Let_def)
qed

lemma known_drop: "known ps t \<Longrightarrow> tb_entries t' = AList.delete k (tb_entries t) \<Longrightarrow> known ps t'"
  by (auto simp: known_def delete_conv' split: if_splits)

lemma sweep_loop_expiries:
  "table_ok t \<Longrightarrow> known ps t \<Longrightarrow> policies_ok ps \<Longrightarrow> list_all (expiry_ok (map_of ps)) acc \<Longrightarrow>
     list_all (expiry_ok (map_of ps)) (fst (sweep_loop now wall doomed t acc))"
proof (induction now wall doomed t acc rule: sweep_loop.induct)
  case (2 now wall key doomed t acc)
  show ?case
  proof (cases "map_of (tb_entries t) key")
    case None
    with 2 show ?thesis by simp
  next
    case (Some e)
    let ?t0 = "t\<lparr>tb_entries := AList.delete key (tb_entries t)\<rparr>"
    have x: "expiry_ok (map_of ps) (retire Stale now wall key e)"
      using 2(4-6) Some table_ok_entry by (intro retire_expiry_ok) (auto simp: known_def)
    have "table_ok (?t0\<lparr>tb_stats := st\<rparr>)" "known ps (?t0\<lparr>tb_stats := st\<rparr>)" for st
      using table_ok_drop[OF 2(4), of "?t0\<lparr>tb_stats := st\<rparr>" key] known_drop[OF 2(5), of "?t0\<lparr>tb_stats := st\<rparr>" key]
      by simp_all
    with 2(2,3)[OF Some] 2(6,7) x Some show ?thesis
      by (auto simp: Let_def expiry_ok_def[of _ "\<lparr>xp_key = _, xp_transition = _, xp_signal = _, xp_detection = _\<rparr>"])
  qed
qed simp

lemma withdraw_loop_expiries:
  "table_ok t \<Longrightarrow> known ps t \<Longrightarrow> policies_ok ps \<Longrightarrow> list_all (expiry_ok (map_of ps)) acc \<Longrightarrow>
     list_all (expiry_ok (map_of ps)) (fst (withdraw_loop now wall doomed t acc))"
proof (induction now wall doomed t acc rule: withdraw_loop.induct)
  case (2 now wall key reason doomed t acc)
  show ?case
  proof (cases "map_of (tb_entries t) key")
    case None
    with 2 show ?thesis by simp
  next
    case (Some e)
    let ?t1 = "t\<lparr>tb_entries := AList.delete key (tb_entries t),
      tb_stats := (if reason = PolicyChanged
        then (tb_stats t)\<lparr>ts_policy_changes := ts_policy_changes (tb_stats t) + 1\<rparr> else tb_stats t)\<rparr>"
    have x: "expiry_ok (map_of ps) (retire reason now wall key e)"
      using 2(3-5) Some table_ok_entry by (intro retire_expiry_ok) (auto simp: known_def)
    have "table_ok ?t1" "known ps ?t1"
      using table_ok_drop[OF 2(3), of ?t1 key] known_drop[OF 2(4), of ?t1 key] by simp_all
    with 2(2)[OF Some] 2(5,6) x Some show ?thesis by simp
  qed
qed simp


lemma withdraw_loop_entries:
  "map_of (tb_entries (snd (withdraw_loop now wall doomed t acc))) k =
     (if k \<in> fst ` set doomed then None else map_of (tb_entries t) k)"
proof (induction now wall doomed t acc rule: withdraw_loop.induct)
  case (2 now wall key reason doomed t acc)
  show ?case
  proof (cases "map_of (tb_entries t) key")
    case None
    with 2(1)[OF None] show ?thesis by auto
  next
    case (Some e)
    with 2(2)[OF Some] show ?thesis by (auto simp: delete_conv')
  qed
qed simp

lemma sweep_loop_entries:
  "map_of (tb_entries (snd (sweep_loop now wall doomed t acc))) k = Some e \<Longrightarrow> map_of (tb_entries t) k = Some e"
proof (induction doomed arbitrary: t acc)
  case (Cons key doomed)
  show ?case
  proof (cases "map_of (tb_entries t) key")
    case None
    with Cons show ?thesis by simp
  next
    case (Some x)
    have "map_of (AList.delete key (tb_entries t)) k = Some e"
      using Cons(2) Some by (auto simp: Let_def dest: Cons.IH split: if_splits)
    then show ?thesis by (simp add: delete_conv' split: if_splits)
  qed
qed simp

definition engine_ok :: "'s Engine \<Rightarrow> bool" where
  "engine_ok en \<longleftrightarrow> policies_ok (en_policies en) \<and> table_ok (en_table en) \<and> known (en_policies en) (en_table en)"

text \<open>The engine refines the state table: what it publishes is what a run of table operations signals.\<close>

definition simulated :: "hasher \<Rightarrow> DetectionEvent list Engine \<Rightarrow> DetectionEvent list Engine \<Rightarrow> bool" where
  "simulated hash en en' \<longleftrightarrow> (\<exists>ops sigs. list_all op_valid ops \<and>
     run_ops ops (en_table en) = (sigs, en_table en') \<and> delivers hash en en' sigs)"

lemma run_ops_append:
  "run_ops ops t = (s1, t1) \<Longrightarrow> run_ops ops' t1 = (s2, t2) \<Longrightarrow> run_ops (ops @ ops') t = (s1 @ s2, t2)"
  by (induction ops arbitrary: t s1) (auto simp: Let_def split: prod.splits)

lemma simulated_refl: "simulated hash en en"
  unfolding simulated_def by (intro exI[of _ "[]"] exI[of _ "[]"]) (simp add: delivers_refl)

lemma simulated_trans: "simulated hash en en1 \<Longrightarrow> simulated hash en1 en2 \<Longrightarrow> simulated hash en en2"
  unfolding simulated_def
proof (elim exE conjE)
  fix ops sigs ops' sigs'
  assume "list_all op_valid ops" "run_ops ops (en_table en) = (sigs, en_table en1)" "delivers hash en en1 sigs"
    "list_all op_valid ops'" "run_ops ops' (en_table en1) = (sigs', en_table en2)" "delivers hash en1 en2 sigs'"
  then show "\<exists>ops sigs. list_all op_valid ops \<and> run_ops ops (en_table en) = (sigs, en_table en2) \<and> delivers hash en en2 sigs"
    by (intro exI[of _ "ops @ ops'"] exI[of _ "sigs @ sigs'"]) (simp add: run_ops_append delivers_trans)
qed

lemma simulated_one:
  "op_valid op \<Longrightarrow> run_op op (en_table en) = (sigs, en_table en') \<Longrightarrow> delivers hash en en' sigs \<Longrightarrow> simulated hash en en'"
  unfolding simulated_def by (intro exI[of _ "[op]"] exI[of _ sigs]) simp

lemma table_step_known:
  assumes "known ps t" "0 < dp_trigger_for p" "map_of ps (dp_id p) = Some p" "table_step p s ev t = (o', t')"
  shows "known ps t'"
  using assms(4,2)
proof (cases rule: table_step_cases)
  case ignored
  with assms(1) show ?thesis by (simp add: known_def)
next
  case (accepted e e')
  have "st_policy_id e' = dp_id p" using step_entry_policy[OF assms(2), of s ev e] accepted(4) by simp
  with assms(1,3) accepted(6) show ?thesis by (auto simp: known_def update_conv' split: if_splits)
qed

lemma evaluate_snapshot_simulated:
  assumes ok: "engine_ok en" and ev: "evaluate_snapshot hash recording s (en, report) = (en', report')"
  shows "simulated hash en en' \<and> engine_ok en'"
proof (cases "winner_for (en_policies en) (sn_key s)")
  case None
  with ev ok show ?thesis by (auto simp: evaluate_snapshot_def simulated_refl)
next
  case (Some p)
  have p: "map_of (en_policies en) (dp_id p) = Some p" "0 < dp_trigger_for p" "emits_events (dp_execution_mode p)"
    using winner_known[OF _ Some] policies_ok_map_of ok by (auto simp: engine_ok_def)
  obtain o' t' where st: "table_step p s (evaluate p s) (en_table en) = (o', t')" by fastforce
  have table: "en_table en' = t'" "en_policies en' = en_policies en"
    using ev Some st by (auto simp: evaluate_snapshot_def Let_def split: option.splits prod.splits)
  have "delivers hash en en' (map (Pair (sn_key s)) (outcome_signals o'))"
  proof (cases "so_signal o'")
    case None
    with ev Some st show ?thesis
      by (auto simp: evaluate_snapshot_def outcome_signals_def delivers_def same_ids_def Let_def)
  next
    case (Some r)
    let ?e = "evaluate p s"
    obtain event f' where b: "build_event hash (en_factory en) r p s (ev_matched ?e) (ev_skipped ?e) = (Some event, f')"
        "same_ids (en_factory en) f'" "is_publishable event"
        "view_event event = view_signal hash (en_factory en) (sn_key s, signal_view r)"
      using build_event_view[OF p(3)] by blast
    have "en_sink en' = en_sink en @ [event]" "en_factory en' = f'"
      using ev \<open>winner_for (en_policies en) (sn_key s) = Some p\<close> st Some b(1) emit_recording[OF b(3), of "en_sink en"]
      by (simp_all add: evaluate_snapshot_def Let_def split_beta split: prod.splits) auto
    with Some b show ?thesis by (simp add: delivers_def outcome_signals_def)
  qed
  then have "simulated hash en en'"
    using p st table by (intro simulated_one[of "StepOp p s (evaluate p s)"]) simp_all
  moreover have "engine_ok en'"
    using ok table step_bracketed[OF _ p(2) st] table_step_known[OF _ p(2,1) st] by (simp add: engine_ok_def)
  ultimately show ?thesis ..
qed

lemma evaluate_simulated:
  "engine_ok en \<Longrightarrow> fold (evaluate_snapshot hash recording) ss (en, report) = (en', report') \<Longrightarrow>
     simulated hash en en' \<and> engine_ok en'"
proof (induction ss arbitrary: en report)
  case (Cons s ss)
  obtain en1 r1 where one: "evaluate_snapshot hash recording s (en, report) = (en1, r1)" by fastforce
  with Cons(3) have "fold (evaluate_snapshot hash recording) ss (en1, r1) = (en', report')" by simp
  with Cons.IH[of en1 r1] evaluate_snapshot_simulated[OF Cons(2) one] simulated_trans show ?case by blast
qed (simp add: simulated_refl)

lemma closing_simulated:
  assumes op: "op_valid op" "run_op op (en_table en) = (concat (map expiry_signals xs), t)"
    and xs: "list_all (expiry_ok pf) xs"
    and en': "fst (close_expired hash recording wall pf xs (en\<lparr>en_policies := ps, en_table := t\<rparr>, report)) = en'"
  shows "simulated hash en en' \<and> en_table en' = t \<and> en_policies en' = ps"
proof -
  let ?en = "en\<lparr>en_policies := ps, en_table := t\<rparr>"
  have "delivers hash ?en en' (concat (map expiry_signals xs))" and t: "en_table en' = t" and "en_policies en' = ps"
    using close_expired_delivers[OF xs, of hash ?en wall report] en' by simp_all
  then have "delivers hash en en' (concat (map expiry_signals xs))" by (simp add: delivers_def)
  with op t \<open>en_policies en' = ps\<close> show ?thesis by (auto intro: simulated_one)
qed


lemma sweep_simulated:
  assumes ok: "engine_ok en"
  shows "simulated hash en (snd (engine_sweep hash recording now wall en)) \<and> engine_ok (snd (engine_sweep hash recording now wall en))"
proof -
  obtain xs t where sw: "table_sweep now wall (en_table en) = (xs, t)" by fastforce
  let ?en' = "fst (close_expired hash recording wall (map_of (en_policies en)) xs
    (en\<lparr>en_policies := en_policies en, en_table := t\<rparr>, default_report))"
  have xs: "list_all (expiry_ok (map_of (en_policies en))) xs"
    using sweep_loop_expiries[of "en_table en" "en_policies en" "[]"] ok sw
    by (metis table_sweep_def engine_ok_def fst_conv list.pred_inject(1))
  have op: "run_op (SweepOp now wall) (en_table en) = (concat (map expiry_signals xs), t)" by (simp add: sw)
  have "simulated hash en ?en' \<and> en_table ?en' = t \<and> en_policies ?en' = en_policies en"
    by (rule closing_simulated[OF _ op xs refl]) simp
  moreover have "table_ok t" using run_op_bracketed[OF _ _ op] ok by (simp add: engine_ok_def)
  moreover have "known (en_policies en) t"
    using sweep_loop_entries sw ok unfolding known_def engine_ok_def table_sweep_def by (metis snd_conv)
  ultimately show ?thesis using ok by (simp add: engine_sweep_def sw split_beta engine_ok_def)
qed

lemma replace_simulated:
  assumes ok: "engine_ok en" and ps: "policies_ok ps"
  shows "simulated hash en (snd (replace_policies hash recording now wall ps en)) \<and>
    engine_ok (snd (replace_policies hash recording now wall ps en))"
proof -
  let ?w = "\<lambda>key. map_option (\<lambda>p. (dp_id p, dp_version p)) (winner_for ps key)"
  let ?doomed = "concat (map (\<lambda>(key, e). case stale_selection ?w key e of
              None \<Rightarrow> [] | Some reason \<Rightarrow> [(key, reason)]) (tb_entries (en_table en)))"
  obtain ys t where wl: "withdraw_loop now wall ?doomed (en_table en) [] = (ys, t)" by fastforce
  have wd: "withdraw_stale_selection now wall ?w (en_table en) = (sort_key xp_key ys, t)"
    by (simp add: withdraw_stale_selection_def wl)
  let ?xs = "sort_key xp_key ys"
  let ?en' = "fst (close_expired hash recording wall (map_of (en_policies en)) ?xs
    (en\<lparr>en_policies := ps, en_table := t\<rparr>, default_report))"
  have "list_all (expiry_ok (map_of (en_policies en))) ys"
    using withdraw_loop_expiries[of "en_table en" "en_policies en" "[]" now wall ?doomed] ok wl by (simp add: engine_ok_def)
  then have xs: "list_all (expiry_ok (map_of (en_policies en))) ?xs" by (simp add: list_all_iff)
  have op: "run_op (WithdrawOp now wall ?w) (en_table en) = (concat (map expiry_signals ?xs), t)" by (simp add: wd)
  have "simulated hash en ?en' \<and> en_table ?en' = t \<and> en_policies ?en' = ps"
    using closing_simulated[OF _ op xs refl] by simp
  moreover have "table_ok t" using run_op_bracketed[OF _ _ op] ok by (simp add: engine_ok_def)
  moreover have "known ps t" unfolding known_def
  proof (intro allI impI)
    fix k e assume "map_of (tb_entries t) k = Some e"
    with withdraw_loop_entries[of now wall ?doomed "en_table en" "[]" k] wl
    have k: "k \<notin> fst ` set ?doomed" "map_of (tb_entries (en_table en)) k = Some e" by (auto split: if_splits)
    have "stale_selection ?w k e = None"
    proof (rule ccontr)
      assume "stale_selection ?w k e \<noteq> None"
      then obtain r where "stale_selection ?w k e = Some r" by blast
      with map_of_SomeD[OF k(2)] have "(k, r) \<in> set ?doomed" by force
      with k(1) show False by force
    qed
    then obtain p where "winner_for ps k = Some p" "dp_id p = st_policy_id e"
      by (auto simp: stale_selection_def split: option.splits if_splits)
    with winner_known[OF ps] show "map_of ps (st_policy_id e) \<noteq> None" by force
  qed
  ultimately show ?thesis using ps by (simp add: replace_policies_def wd split_beta engine_ok_def Let_def)
qed

primrec call_ok :: "engine_call \<Rightarrow> bool" where
  "call_ok (EvaluateCall _) = True"
| "call_ok (SweepCall _ _) = True"
| "call_ok (ReplaceCall _ _ ps) = policies_ok ps"

lemma run_call_simulated:
  assumes "engine_ok en" "call_ok call"
  shows "simulated hash en (snd (run_call hash recording call en)) \<and> engine_ok (snd (run_call hash recording call en))"
proof (cases call)
  case (EvaluateCall ss)
  obtain en' r' where run: "fold (evaluate_snapshot hash recording) ss
      (en, default_report\<lparr>rp_snapshots_seen := length ss\<rparr>) = (en', r')" by fastforce
  from evaluate_simulated[OF assms(1) run] run EvaluateCall show ?thesis by (simp add: engine_evaluate_def)
qed (use assms sweep_simulated replace_simulated in simp_all)

lemma run_calls_simulated:
  "engine_ok en \<Longrightarrow> list_all call_ok calls \<Longrightarrow> simulated hash en (run_calls hash recording calls en)"
proof (induction calls arbitrary: en)
  case (Cons call calls)
  let ?en1 = "snd (run_call hash recording call en)"
  have "simulated hash en ?en1" "engine_ok ?en1" using run_call_simulated Cons(2,3) by auto
  with Cons.IH[of ?en1] Cons(3) show ?case by (auto simp: run_calls_def intro: simulated_trans)
qed (simp add: run_calls_def simulated_refl)

lemma target_of_key_inj: "target_of_key k = target_of_key k' \<longleftrightarrow> k = k'"
  by (cases k; cases k') (auto simp: target_of_key_def)

lemma events_of_scope:
  "map view_event evs = map (view_signal hash f) sigs \<Longrightarrow>
     map view_event (filter (\<lambda>ev. de_target ev = target_of_key k) evs) =
     map (\<lambda>(sig, at, n). (target_of_key k, kind_of_signal sig, detection_id hash f (target_of_key k) at, n)) (signals_for k sigs)"
proof (induction evs arbitrary: sigs)
  case (Cons ev evs)
  then obtain k' sig at n sigs' where s: "sigs = (k', sig, at, n) # sigs'" "map view_event evs = map (view_signal hash f) sigs'"
      "view_event ev = view_signal hash f (k', sig, at, n)" by (cases sigs) auto
  then have "de_target ev = target_of_key k'" by (simp add: view_event_def view_signal_def)
  with s Cons.IH[OF s(2)] show ?case
    by (auto simp: signals_for_def view_signal_def target_of_key_inj)
qed (simp add: signals_for_def)

text \<open>
  Property C34. Every detection is announced and closed, end to end. Take an engine started empty and
  fed any calls (snapshots, sweeps, policy swaps) whose policies are validated and emit events. Then
  the events a sink receives about one scope are, in order, the signals of that scope's detections:
  a start numbered 0, updates and one end per detection, numbered consecutively, each under the
  identifier derived from the start of its detection; what remains open is exactly the scope's
  open entry in the table.\<close>

theorem published_events_bracket_detections:
  assumes "list_all call_ok calls" "run_calls hash recording calls (new_engine config factory []) = en"
  shows "\<exists>xs. follow None xs = Some (phase_in (en_table en) k) \<and>
    map view_event (filter (\<lambda>ev. de_target ev = target_of_key k) (en_sink en)) =
    map (\<lambda>(sig, at, n). (target_of_key k, kind_of_signal sig, detection_id hash factory (target_of_key k) at, n)) xs"
proof -
  let ?en0 = "new_engine config factory [] :: DetectionEvent list Engine"
  have "engine_ok ?en0"
    using table_ok_new by (simp add: engine_ok_def new_engine_def policies_ok_def set_ok_def bt_ok_def known_def new_state_table_def)
  from run_calls_simulated[OF this assms(1), of hash] assms(2) obtain ops sigs where
    "list_all op_valid ops" and run: "run_ops ops (new_state_table config) = (sigs, en_table en)" and d: "delivers hash ?en0 en sigs"
    by (auto simp: simulated_def new_engine_def)
  from run_ops_bracketed[OF table_ok_new this(1) run, of k]
  have "follow None (signals_for k sigs) = Some (phase_in (en_table en) k)"
    by (simp add: phase_in_def new_state_table_def)
  moreover have "map view_event (en_sink en) = map (view_signal hash factory) sigs"
    using d by (auto simp: delivers_def new_engine_def)
  ultimately show ?thesis using events_of_scope by blast
qed

theorem published_events_bracket_detections_witness:
  "let calls = [ReplaceCall 0 0 [(lit ''p1'', sample_policy)], EvaluateCall [sample_snapshot 0 2000, sample_snapshot (secs 10) 2000]];
       factory = \<lparr>ef_instance_id = 1, ef_origin = 0, ef_counter = 0\<rparr>
   in list_all call_ok calls \<and> (\<exists>xs. follow None xs \<noteq> None \<and>
     map view_event (filter (\<lambda>ev. de_target ev = target_of_key sample_key)
        (en_sink (run_calls (\<lambda>_. 0) recording calls (new_engine default_table_config factory [])))) =
     map (\<lambda>(sig, at, n). (target_of_key sample_key, kind_of_signal sig, detection_id (\<lambda>_. 0) factory (target_of_key sample_key) at, n)) xs)"
proof -
  have ok: "list_all call_ok [ReplaceCall 0 0 [(lit ''p1'', sample_policy)], EvaluateCall [sample_snapshot 0 2000, sample_snapshot (secs 10) 2000]]"
    by (simp add: policies_ok_def set_ok_def bt_ok_def sample_policy_def policy_of_draft_def sample_draft_def emits_events_def)
  show ?thesis
    using published_events_bracket_detections[OF ok refl, of "\<lambda>_. 0" default_table_config
        "\<lparr>ef_instance_id = 1, ef_origin = 0, ef_counter = 0\<rparr>" sample_key] ok
    unfolding Let_def by force
qed

end
