(* ===== verification/Detection_Window.thy ===== *)
theory Detection_Window
  imports Aggregator Detection_Policy
begin

text \<open>
  The detector's windows (\<open>crates/detector/src/window.rs\<close>): each classified flow is counted against
  the scopes of its local sides in four bounded maps; when the window is due, a tick turns every
  counter into a snapshot, in key order, and starts afresh. The hash of an address is a parameter:
  the standard hasher does not promise a particular function. The properties relate the snapshots
  to the flows of the window, and to the evaluation of policies.
\<close>

section \<open>Accumulators\<close>

definition UNATTRIBUTED_TENANT :: rust_str where "UNATTRIBUTED_TENANT = lit ''unattributed''"

record WindowConfig =
  wcf_window :: nat
  wcf_max_hosts :: nat
  wcf_max_networks :: nat
  wcf_max_slash24 :: nat
  wcf_max_hostgroups :: nat

definition default_window_config :: WindowConfig where
  "default_window_config = \<lparr>wcf_window = secs 5, wcf_max_hosts = 100000, wcf_max_networks = 20000,
     wcf_max_slash24 = 20000, wcf_max_hostgroups = 1000\<rparr>"

record WindowStats =
  wst_flows_ingested :: u64
  wst_flows_unscoped :: u64
  wst_snapshots_emitted :: u64
  wst_evicted :: u64
  wst_rejected :: u64
  wst_skewed_ticks :: u64

definition default_window_stats :: WindowStats where
  "default_window_stats = \<lparr>wst_flows_ingested = 0, wst_flows_unscoped = 0, wst_snapshots_emitted = 0,
     wst_evicted = 0, wst_rejected = 0, wst_skewed_ticks = 0\<rparr>"

definition sketch_observe :: "(IpAddr \<Rightarrow> u64) \<Rightarrow> IpAddr \<Rightarrow> u64 \<Rightarrow> u64" where
  "sketch_observe hash exporter sketch = sketch OR push_bit (unat (hash exporter) mod 64) 1"

definition sketch_count :: "u64 \<Rightarrow> u32" where
  "sketch_count sketch = of_nat (length (filter (bit sketch) [0..<64]))"

record Accumulator =
  acm_counters :: TrafficCounters
  acm_completeness :: DataCompleteness
  acm_sampling :: SamplingStatus
  acm_exporters :: u64

definition default_accumulator :: Accumulator where
  "default_accumulator = \<lparr>acm_counters = default_counters, acm_completeness = default_completeness,
     acm_sampling = default_sampling, acm_exporters = 0\<rparr>"

definition accumulator_add :: "(IpAddr \<Rightarrow> u64) \<Rightarrow> NormalizedFlow \<Rightarrow> Accumulator \<Rightarrow> Accumulator" where
  "accumulator_add hash flow a = a\<lparr>
     acm_counters := counters_add flow (acm_counters a),
     acm_completeness := completeness_merge (acm_completeness a)
       \<lparr>dc_protocol_seen = (nf_protocol flow \<noteq> None), dc_tcp_flags_seen = (nf_tcp_flags flow \<noteq> None),
        dc_fragmentation_seen = nf_fragmented flow,
        dc_forwarding_status_seen = nf_forwarding_status_known flow\<rparr>,
     acm_sampling := sampling_merge (acm_sampling a)
       \<lparr>ss_corrected = (rate_get (nf_sampling_rate flow) > 1),
        ss_used_global_default = (nf_sampling_source flow = GlobalDefault),
        ss_max_rate = rate_get (nf_sampling_rate flow)\<rparr>,
     acm_exporters := sketch_observe hash (nf_exporter flow) (acm_exporters a)\<rparr>"

section \<open>Counting\<close>

type_synonym scope_map = "(ScopeKey, Accumulator) BoundedMap"

record DetectionWindows =
  dw_config :: WindowConfig
  dw_window_start :: nat
  dw_hosts :: scope_map
  dw_networks :: scope_map
  dw_slash24 :: scope_map
  dw_hostgroups :: scope_map
  dw_stats :: WindowStats

definition map_config :: "nat \<Rightarrow> nat \<Rightarrow> BoundedMapConfig" where
  "map_config max_entries window = \<lparr>bc_max_entries = max_entries, bc_inactivity_ttl = window\<rparr>"

definition new_windows :: "WindowConfig \<Rightarrow> nat \<Rightarrow> DetectionWindows" where
  "new_windows config now =
     (let window = wcf_window config in
     \<lparr>dw_config = config, dw_window_start = now,
      dw_hosts = new_map (map_config (wcf_max_hosts config) window),
      dw_networks = new_map (map_config (wcf_max_networks config) window),
      dw_slash24 = new_map (map_config (wcf_max_slash24 config) window),
      dw_hostgroups = new_map (map_config (wcf_max_hostgroups config) window),
      dw_stats = default_window_stats\<rparr>)"

definition windows_tracked :: "DetectionWindows \<Rightarrow> nat" where
  "windows_tracked w = map_len (dw_hosts w) + map_len (dw_networks w) + map_len (dw_slash24 w) + map_len (dw_hostgroups w)"

definition is_due :: "DetectionWindows \<Rightarrow> nat \<Rightarrow> bool" where
  "is_due w now = (now - dw_window_start w \<ge> wcf_window (dw_config w))"

text \<open>Host bits below the prefix length are cleared; a length past the width is cut to it.\<close>

definition scope_mask :: "IpAddr \<Rightarrow> u8 \<Rightarrow> IpAddr" where
  "scope_mask addr prefix_len =
     (case addr of
        V4 bits \<Rightarrow>
          (let len = min prefix_len 32 in
           V4 (if len = 0 then 0 else bits AND push_bit (unat (32 - len)) (- 1)))
      | V6 bits \<Rightarrow>
          (let len = min prefix_len 128 in
           V6 (if len = 0 then 0 else bits AND push_bit (unat (128 - len)) (- 1))))"

type_synonym flow_side = "IpAddr \<times> TrafficDirection \<times> rust_str option \<times> rust_str option"

definition sides :: "NormalizedFlow \<Rightarrow> ClassificationResult \<Rightarrow> flow_side list" where
  "sides flow c =
     (let inbound = (nf_destination_addr flow, TrafficIncoming, cr_destination_matched_tenant c,
            cr_destination_matched_hostgroup c);
          outbound = (nf_source_addr flow, TrafficOutgoing, cr_source_matched_tenant c,
            cr_source_matched_hostgroup c)
      in case cr_direction c of
           Incoming \<Rightarrow> [inbound]
         | Outgoing \<Rightarrow> [outbound]
         | Internal \<Rightarrow> [inbound, outbound]
         | OtherDirection \<Rightarrow> []
         | UnknownDirection \<Rightarrow> [])"

definition accumulate ::
    "(IpAddr \<Rightarrow> u64) \<Rightarrow> scope_map \<Rightarrow> ScopeKey \<Rightarrow> NormalizedFlow \<Rightarrow> nat \<Rightarrow> WindowStats \<Rightarrow> scope_map \<times> WindowStats" where
  "accumulate hash m key flow now stats =
     (case upsert m key now default_accumulator (accumulator_add hash flow) of
        (outcome, m) \<Rightarrow> (m, case outcome of
            InsertedByEviction \<Rightarrow> stats\<lparr>wst_evicted := saturating_add (wst_evicted stats) 1\<rparr>
          | Rejected \<Rightarrow> stats\<lparr>wst_rejected := saturating_add (wst_rejected stats) 1\<rparr>
          | Inserted \<Rightarrow> stats
          | Updated \<Rightarrow> stats))"

definition window_count ::
    "(IpAddr \<Rightarrow> u64) \<Rightarrow> PrefixRegistry \<Rightarrow> NormalizedFlow \<Rightarrow> flow_side \<Rightarrow> nat \<Rightarrow> DetectionWindows \<Rightarrow> DetectionWindows" where
  "window_count hash registry flow side now w =
     (case side of (addr, direction, tenant, hostgroup) \<Rightarrow>
      let tenant = (case tenant of None \<Rightarrow> UNATTRIBUTED_TENANT | Some t \<Rightarrow> t);
          key = (\<lambda>scope_type scope_id. ScopeKey tenant scope_type scope_id direction (family_of addr));
          (hosts, stats) = accumulate hash (dw_hosts w) (key HostScope (HostId addr)) flow now (dw_stats w);
          w = w\<lparr>dw_hosts := hosts, dw_stats := stats\<rparr>;
          w = (case registry_lookup registry addr of
             None \<Rightarrow> w
           | Some matched \<Rightarrow>
               let prefix_len = pm_matched_prefix_len matched;
                   (networks, stats) = accumulate hash (dw_networks w)
                     (key PrefixScope (NetworkId (scope_mask addr prefix_len) prefix_len)) flow now (dw_stats w)
               in w\<lparr>dw_networks := networks, dw_stats := stats\<rparr>);
          w = (if is_ipv4 addr then
                 let (slash24, stats) = accumulate hash (dw_slash24 w)
                       (key Slash24 (NetworkId (scope_mask addr 24) 24)) flow now (dw_stats w)
                 in w\<lparr>dw_slash24 := slash24, dw_stats := stats\<rparr>
               else w)
      in case hostgroup of
           None \<Rightarrow> w
         | Some name \<Rightarrow>
             let (hostgroups, stats) = accumulate hash (dw_hostgroups w)
                   (key HostgroupTotal (HostgroupId name)) flow now (dw_stats w)
             in w\<lparr>dw_hostgroups := hostgroups, dw_stats := stats\<rparr>)"

definition window_ingest ::
    "(IpAddr \<Rightarrow> u64) \<Rightarrow> PrefixRegistry \<Rightarrow> NormalizedFlow \<Rightarrow> ClassificationResult \<Rightarrow> nat \<Rightarrow> DetectionWindows \<Rightarrow> DetectionWindows" where
  "window_ingest hash registry flow classification now w =
     (let stats = dw_stats w;
          w = w\<lparr>dw_stats := stats\<lparr>wst_flows_ingested := saturating_add (wst_flows_ingested stats) 1\<rparr>\<rparr>;
          locals = sides flow classification;
          w = fold (\<lambda>side. window_count hash registry flow side now) locals w;
          stats = dw_stats w
      in if locals = []
         then w\<lparr>dw_stats := stats\<lparr>wst_flows_unscoped := saturating_add (wst_flows_unscoped stats) 1\<rparr>\<rparr>
         else w)"

section \<open>Snapshots\<close>

definition saturating_mul :: "'a::len word \<Rightarrow> 'a word \<Rightarrow> 'a word" where
  "saturating_mul a b = (if unat a * unat b < 2 ^ LENGTH('a) then a * b else - 1)"

text \<open>The scaled value is computed in 128 bits, where a \<open>u64\<close> times a billion fits.\<close>

definition per_second :: "u64 \<Rightarrow> nat \<Rightarrow> u64" where
  "per_second v elapsed =
     (if elapsed = 0 then 0
      else of_nat (min (unat v * 1000000000 div elapsed) (2 ^ 64 - 1)))"

definition bits_per_second :: "u64 \<Rightarrow> nat \<Rightarrow> u64" where
  "bits_per_second bytes elapsed = per_second (saturating_mul bytes 8) elapsed"

definition snapshot :: "ScopeKey \<Rightarrow> Accumulator \<Rightarrow> nat \<Rightarrow> nat \<Rightarrow> nat \<Rightarrow> WallTime \<Rightarrow> DetectionSnapshot" where
  "snapshot key a window elapsed now wall =
     (let c = acm_counters a in
     \<lparr>sn_key = key, sn_window = window, sn_observed_at = now, sn_observed_wall = wall,
      sn_rates = \<lparr>mt_bps = bits_per_second (tf_bytes c) elapsed, mt_pps = per_second (tf_packets c) elapsed,
        mt_fps = per_second (tf_flows c) elapsed,
        mt_tcp_bps = bits_per_second (tf_tcp_bytes c) elapsed, mt_tcp_pps = per_second (tf_tcp_packets c) elapsed,
        mt_udp_bps = bits_per_second (tf_udp_bytes c) elapsed, mt_udp_pps = per_second (tf_udp_packets c) elapsed,
        mt_icmp_bps = bits_per_second (tf_icmp_bytes c) elapsed, mt_icmp_pps = per_second (tf_icmp_packets c) elapsed,
        mt_tcp_syn_bps = 0, mt_tcp_syn_pps = per_second (tf_tcp_syn_packets c) elapsed,
        mt_fragmented_bps = 0, mt_fragmented_pps = per_second (tf_fragmented_packets c) elapsed,
        mt_dropped_bps = 0, mt_dropped_pps = per_second (tf_dropped_packets c) elapsed\<rparr>,
      sn_completeness = acm_completeness a, sn_sampling = acm_sampling a,
      sn_flows_observed = tf_flows c, sn_exporters_observed = sketch_count (acm_exporters a)\<rparr>)"

definition skewed :: "nat \<Rightarrow> nat \<Rightarrow> bool" where
  "skewed elapsed window =
     (let tolerance = window div 10 in elapsed > window + tolerance \<or> elapsed + tolerance < window)"

text \<open>The maps are taken in turn and replaced by empty ones; the snapshots are sorted by key.\<close>

definition tick :: "nat \<Rightarrow> WallTime \<Rightarrow> DetectionWindows \<Rightarrow> DetectionSnapshot list \<times> DetectionWindows" where
  "tick now wall w =
     (let config = dw_config w; window = wcf_window config; elapsed = now - dw_window_start w in
      if elapsed < window then ([], w)
      else
        let stats = dw_stats w;
            stats = (if skewed elapsed window
                     then stats\<lparr>wst_skewed_ticks := saturating_add (wst_skewed_ticks stats) 1\<rparr> else stats);
            emitted = concat (map (\<lambda>m. map (\<lambda>(key, a). snapshot key a window elapsed now wall) (map_iter m))
              [dw_hosts w, dw_networks w, dw_slash24 w, dw_hostgroups w]);
            emptied = (\<lambda>cap. new_map (map_config cap window));
            snapshots = sort_key sn_key emitted
        in (snapshots, w\<lparr>
             dw_hosts := emptied (wcf_max_hosts config), dw_networks := emptied (wcf_max_networks config),
             dw_slash24 := emptied (wcf_max_slash24 config), dw_hostgroups := emptied (wcf_max_hostgroups config),
             dw_stats := stats\<lparr>wst_snapshots_emitted :=
               saturating_add (wst_snapshots_emitted stats) (of_nat (length snapshots))\<rparr>,
             dw_window_start := now\<rparr>))"

section \<open>The scopes of a flow\<close>

text \<open>Counting one side files the flow under a list of keys, each in the map of its scope type.\<close>

primrec map_for :: "ScopeType \<Rightarrow> DetectionWindows \<Rightarrow> scope_map" where
  "map_for HostScope w = dw_hosts w"
| "map_for PrefixScope w = dw_networks w"
| "map_for Slash24 w = dw_slash24 w"
| "map_for HostgroupTotal w = dw_hostgroups w"

primrec set_map :: "ScopeType \<Rightarrow> scope_map \<Rightarrow> DetectionWindows \<Rightarrow> DetectionWindows" where
  "set_map HostScope m w = w\<lparr>dw_hosts := m\<rparr>"
| "set_map PrefixScope m w = w\<lparr>dw_networks := m\<rparr>"
| "set_map Slash24 m w = w\<lparr>dw_slash24 := m\<rparr>"
| "set_map HostgroupTotal m w = w\<lparr>dw_hostgroups := m\<rparr>"

definition side_scopes :: "PrefixRegistry \<Rightarrow> flow_side \<Rightarrow> ScopeKey list" where
  "side_scopes registry side =
     (case side of (addr, direction, tenant, hostgroup) \<Rightarrow>
      let key = (\<lambda>scope_type scope_id. ScopeKey (case tenant of None \<Rightarrow> UNATTRIBUTED_TENANT | Some t \<Rightarrow> t)
            scope_type scope_id direction (family_of addr))
      in key HostScope (HostId addr)
         # (case registry_lookup registry addr of None \<Rightarrow> []
            | Some m \<Rightarrow> [key PrefixScope (NetworkId (scope_mask addr (pm_matched_prefix_len m)) (pm_matched_prefix_len m))])
         @ (if is_ipv4 addr then [key Slash24 (NetworkId (scope_mask addr 24) 24)] else [])
         @ (case hostgroup of None \<Rightarrow> [] | Some name \<Rightarrow> [key HostgroupTotal (HostgroupId name)]))"

definition flow_scopes :: "PrefixRegistry \<Rightarrow> NormalizedFlow \<Rightarrow> ScopeKey list" where
  "flow_scopes registry flow = concat (map (side_scopes registry) (sides flow (classify registry flow)))"

definition file_under :: "(IpAddr \<Rightarrow> u64) \<Rightarrow> NormalizedFlow \<Rightarrow> nat \<Rightarrow> ScopeKey \<Rightarrow> DetectionWindows \<Rightarrow> DetectionWindows" where
  "file_under hash flow now key w =
     (case accumulate hash (map_for (sk_scope_type key) w) key flow now (dw_stats w) of
        (m, stats) \<Rightarrow> (set_map (sk_scope_type key) m w)\<lparr>dw_stats := stats\<rparr>)"

lemma window_count_files:
  "window_count hash registry flow side now w = fold (file_under hash flow now) (side_scopes registry side) w"
proof -
  obtain addr direction tenant hostgroup where "side = (addr, direction, tenant, hostgroup)" by (cases side)
  then show ?thesis
    by (cases "registry_lookup registry addr"; cases hostgroup)
      (simp_all add: window_count_def side_scopes_def file_under_def Let_def split_beta)
qed

lemma map_for_set_map [simp]:
  "map_for s (set_map s' m w) = (if s = s' then m else map_for s w)"
  "dw_stats (set_map s m w) = dw_stats w" "dw_config (set_map s m w) = dw_config w"
  "dw_window_start (set_map s m w) = dw_window_start w"
  by (cases s; cases s'; simp)+

lemma map_for_stats [simp]: "map_for s (w\<lparr>dw_stats := st\<rparr>) = map_for s w"
  by (cases s) simp_all

definition scope_value :: "DetectionWindows \<Rightarrow> ScopeKey \<Rightarrow> Accumulator option" where
  "scope_value w key = map_get (map_for (sk_scope_type key) w) key"

text \<open>Every map is well formed, of its configured capacity, and holds keys of its own scope type.\<close>

primrec cap_for :: "ScopeType \<Rightarrow> WindowConfig \<Rightarrow> nat" where
  "cap_for HostScope c = wcf_max_hosts c"
| "cap_for PrefixScope c = wcf_max_networks c"
| "cap_for Slash24 c = wcf_max_slash24 c"
| "cap_for HostgroupTotal c = wcf_max_hostgroups c"

definition of_scope :: "ScopeType \<Rightarrow> scope_map \<Rightarrow> bool" where
  "of_scope s m = list_all (\<lambda>e. sk_scope_type (fst e) = s) (bm_entries m)"

definition windows_ok :: "DetectionWindows \<Rightarrow> bool" where
  "windows_ok w \<longleftrightarrow> (\<forall>s. map_ok (map_for s w) \<and> bc_max_entries (bm_config (map_for s w)) = cap_for s (dw_config w) \<and>
     of_scope s (map_for s w))"

text \<open>How many scopes were displaced or refused.\<close>

abbreviation losses :: "DetectionWindows \<Rightarrow> u64 \<times> u64" where
  "losses w \<equiv> (wst_evicted (dw_stats w), wst_rejected (dw_stats w))"

definition fewer :: "u64 \<times> u64 \<Rightarrow> u64 \<times> u64 \<Rightarrow> bool" where
  "fewer a b \<longleftrightarrow> fst a \<le> fst b \<and> snd a \<le> snd b"

lemma fewer_trans: "fewer a b \<Longrightarrow> fewer b c \<Longrightarrow> fewer a c"
  by (auto simp: fewer_def)

lemma fewer_antisym: "fewer a b \<Longrightarrow> fewer b a \<Longrightarrow> a = b"
  by (auto simp: fewer_def prod_eq_iff)

lemma saturating_add_le: "a \<le> saturating_add a b"
  using saturating_add_ge[of a b] by (simp add: word_le_nat_alt)

lemma saturating_add_one_neq: "a \<noteq> - 1 \<Longrightarrow> saturating_add a 1 \<noteq> (a :: u64)"
  by (auto simp: saturating_add_def)

lemma upsert_keys:
  "fst ` set (bm_entries (snd (upsert m key now d f))) \<subseteq> insert key (fst ` set (bm_entries m))"
proof -
  have "fst ` set (AList.update key v (AList.delete x es)) \<subseteq> insert key (fst ` set es)" for v x and es :: "('a \<times> 'b Slot) list"
    using dom_delete_subset[of x es] by (auto simp: dom_update)
  then show ?thesis by (simp add: upsert_def Let_def dom_update subset_insertI split: option.split)
qed

lemma accumulate_fst: "fst (accumulate hash m key flow now st) = snd (upsert m key now default_accumulator (accumulator_add hash flow))"
  by (simp add: accumulate_def split_beta)

lemma of_scope_accumulate:
  assumes "of_scope (sk_scope_type key) m"
  shows "of_scope (sk_scope_type key) (fst (accumulate hash m key flow now st))"
  using assms upsert_keys[of m key now default_accumulator "accumulator_add hash flow"]
  unfolding accumulate_fst of_scope_def list_all_iff by force

lemma windows_ok_file:
  assumes "windows_ok w"
  shows "windows_ok (file_under hash flow now key w) \<and> dw_config (file_under hash flow now key w) = dw_config w \<and>
    dw_window_start (file_under hash flow now key w) = dw_window_start w"
proof -
  define s where "s = sk_scope_type key"
  define m where "m = fst (accumulate hash (map_for s w) key flow now (dw_stats w))"
  have old: "map_ok (map_for s w)" "bc_max_entries (bm_config (map_for s w)) = cap_for s (dw_config w)"
      "of_scope s (map_for s w)"
    using assms by (simp_all add: windows_ok_def)
  have "map_ok m" "bc_max_entries (bm_config m) = cap_for s (dw_config w)" "of_scope s m"
    using bounded.up_ok[OF old(1), of key now default_accumulator "accumulator_add hash flow"] old(2)
      of_scope_accumulate[OF old(3)[unfolded s_def], folded s_def]
    by (simp_all add: m_def accumulate_fst)
  then have "windows_ok (set_map s m w)" using assms unfolding windows_ok_def by simp
  then show ?thesis by (simp add: file_under_def split_beta windows_ok_def m_def s_def)
qed

lemma fewer_file: "fewer (losses w) (losses (file_under hash flow now key w))"
  by (simp add: file_under_def accumulate_def fewer_def saturating_add_le split: prod.split UpsertOutcome.split)

lemma file_value:
  assumes "windows_ok w" "losses (file_under hash flow now key w) = losses w" "fst (losses w) \<noteq> - 1" "snd (losses w) \<noteq> - 1"
  shows "scope_value (file_under hash flow now key w) k =
    (if k = key then Some (accumulator_add hash flow (case scope_value w key of None \<Rightarrow> default_accumulator | Some a \<Rightarrow> a))
     else scope_value w k)"
proof -
  let ?m = "map_for (sk_scope_type key) w"
  let ?up = "upsert ?m key now default_accumulator (accumulator_add hash flow)"
  have ok: "map_ok ?m" using assms(1) by (simp add: windows_ok_def)
  have kept: "fst ?up \<noteq> InsertedByEviction" "fst ?up \<noteq> Rejected"
    using assms(2-4) saturating_add_one_neq[of "wst_evicted (dw_stats w)"] saturating_add_one_neq[of "wst_rejected (dw_stats w)"]
    by (auto simp: file_under_def accumulate_def split_beta)
  then have "0 < bc_max_entries (bm_config ?m)" using bounded.up_zero[of ?m key] by (cases "bc_max_entries (bm_config ?m)") auto
  note get = bounded.up_get[OF ok this, of key now default_accumulator "accumulator_add hash flow"]
  have other: "map_get (snd ?up) k' = map_get ?m k'" if "k' \<noteq> key" for k'
    using bounded.up_other[OF ok that, of now default_accumulator "accumulator_add hash flow"] kept by simp
  show ?thesis
  proof (cases "sk_scope_type k = sk_scope_type key")
    case True
    then show ?thesis using get other[of k]
      by (simp add: scope_value_def file_under_def accumulate_def split_beta)
  next
    case False
    then show ?thesis by (auto simp: scope_value_def file_under_def split_beta)
  qed
qed

lemma files_ok:
  "windows_ok w \<Longrightarrow> windows_ok (fold (file_under hash flow now) ks w) \<and>
     dw_config (fold (file_under hash flow now) ks w) = dw_config w \<and>
     dw_window_start (fold (file_under hash flow now) ks w) = dw_window_start w"
  by (induction ks arbitrary: w) (simp_all add: windows_ok_file)

lemma fewer_files: "fewer (losses w) (losses (fold (file_under hash flow now) ks w))"
proof (induction ks arbitrary: w)
  case Nil
  show ?case by (simp add: fewer_def)
next
  case (Cons k ks)
  show ?case using fewer_trans[OF fewer_file[of w hash flow now k] Cons] by simp
qed

abbreviation tallying :: "DetectionWindows \<Rightarrow> bool" where
  "tallying w \<equiv> fst (losses w) \<noteq> - 1 \<and> snd (losses w) \<noteq> - 1"

definition added :: "(IpAddr \<Rightarrow> u64) \<Rightarrow> NormalizedFlow list \<Rightarrow> Accumulator option \<Rightarrow> Accumulator option" where
  "added hash flows v = (if flows = [] then v
     else Some (fold (accumulator_add hash) flows (case v of None \<Rightarrow> default_accumulator | Some a \<Rightarrow> a)))"

lemma added_simps [simp]:
  "added hash [] v = v" "added hash fs (added hash [f] v) = added hash (f # fs) v"
  by (simp_all add: added_def)

lemma files_value:
  assumes "windows_ok w" "losses (fold (file_under hash flow now) ks w) = losses w" "tallying w" "distinct ks"
  shows "scope_value (fold (file_under hash flow now) ks w) k = added hash (if k \<in> set ks then [flow] else []) (scope_value w k)"
  using assms
proof (induction ks arbitrary: w)
  case (Cons key ks)
  let ?w = "file_under hash flow now key w"
  have same: "losses ?w = losses w"
    using fewer_file[of w hash flow now key] fewer_files[of ?w hash flow now ks] Cons.prems(2)
    by (intro fewer_antisym) simp_all
  have ok: "windows_ok ?w" using windows_ok_file[OF Cons.prems(1)] by simp
  have "scope_value (fold (file_under hash flow now) ks ?w) k = added hash (if k \<in> set ks then [flow] else []) (scope_value ?w k)"
    by (rule Cons.IH[OF ok]) (use same Cons.prems in simp_all)
  moreover have "scope_value ?w k = added hash (if k = key then [flow] else []) (scope_value w k)"
    using file_value[OF Cons.prems(1) same] Cons.prems(3) by (simp add: added_def)
  ultimately show ?case using Cons.prems(4) by auto
qed simp

lemma side_scopes_distinct: "distinct (side_scopes registry side)"
  by (cases side) (auto simp: side_scopes_def Let_def split: option.split)

lemma side_scopes_direction: "k \<in> set (side_scopes registry side) \<Longrightarrow> sk_direction k = fst (snd side)"
  by (cases side) (auto simp: side_scopes_def Let_def split: option.splits if_splits)

lemma flow_scopes_distinct: "distinct (flow_scopes registry flow)"
  by (auto simp: flow_scopes_def sides_def Let_def side_scopes_distinct dest!: side_scopes_direction split: Direction.split)

abbreviation counted :: "DetectionWindows \<Rightarrow> DetectionWindows" where
  "counted w \<equiv> w\<lparr>dw_stats := (dw_stats w)\<lparr>wst_flows_ingested := saturating_add (wst_flows_ingested (dw_stats w)) 1\<rparr>\<rparr>"

lemma fold_concat_map: "fold f (concat (map g xs)) w = fold (\<lambda>x. fold f (g x)) xs w"
  by (induction xs arbitrary: w) simp_all

lemma window_ingest_files:
  "window_ingest hash registry flow (classify registry flow) now w =
     (let w = fold (file_under hash flow now) (flow_scopes registry flow) (counted w); st = dw_stats w
      in if sides flow (classify registry flow) = []
         then w\<lparr>dw_stats := st\<lparr>wst_flows_unscoped := saturating_add (wst_flows_unscoped st) 1\<rparr>\<rparr> else w)"
  by (simp add: window_ingest_def flow_scopes_def fold_concat_map window_count_files[abs_def] Let_def)

lemma scope_value_stats [simp]: "scope_value (w\<lparr>dw_stats := st\<rparr>) k = scope_value w k"
  by (simp add: scope_value_def)

lemma windows_ok_stats [simp]: "windows_ok (w\<lparr>dw_stats := st\<rparr>) = windows_ok w"
  by (simp add: windows_ok_def)

abbreviation ingest_flow :: "(IpAddr \<Rightarrow> u64) \<Rightarrow> PrefixRegistry \<Rightarrow> NormalizedFlow \<times> nat \<Rightarrow> DetectionWindows \<Rightarrow> DetectionWindows" where
  "ingest_flow hash registry \<equiv> \<lambda>(flow, now). window_ingest hash registry flow (classify registry flow) now"

lemma window_ingest_ok:
  assumes "windows_ok w"
  shows "windows_ok (ingest_flow hash registry x w) \<and> dw_config (ingest_flow hash registry x w) = dw_config w \<and>
    dw_window_start (ingest_flow hash registry x w) = dw_window_start w"
  using files_ok[of "counted w" hash "fst x" "snd x" "flow_scopes registry (fst x)"] assms
  by (simp add: split_beta window_ingest_files Let_def)

lemma fewer_ingest: "fewer (losses w) (losses (ingest_flow hash registry x w))"
  using fewer_files[of "counted w" hash "fst x" "snd x" "flow_scopes registry (fst x)"]
  by (simp add: split_beta window_ingest_files Let_def)

lemma ingest_value:
  assumes "windows_ok w" "losses (ingest_flow hash registry x w) = losses w" "tallying w"
  shows "scope_value (ingest_flow hash registry x w) k =
    added hash (if k \<in> set (flow_scopes registry (fst x)) then [fst x] else []) (scope_value w k)"
  using files_value[of "counted w" hash "fst x" "snd x" "flow_scopes registry (fst x)" k] assms
  by (simp add: split_beta window_ingest_files Let_def flow_scopes_distinct split: if_splits)

lemma ingests_ok:
  "windows_ok w \<Longrightarrow> windows_ok (fold (ingest_flow hash registry) xs w) \<and>
     dw_config (fold (ingest_flow hash registry) xs w) = dw_config w \<and>
     dw_window_start (fold (ingest_flow hash registry) xs w) = dw_window_start w"
  by (induction xs arbitrary: w) (simp_all add: window_ingest_ok)

lemma fewer_ingests: "fewer (losses w) (losses (fold (ingest_flow hash registry) xs w))"
proof (induction xs arbitrary: w)
  case Nil
  show ?case by (simp add: fewer_def)
next
  case (Cons x xs)
  show ?case using fewer_trans[OF fewer_ingest[of w hash registry x] Cons] by simp
qed

lemma ingests_value:
  assumes "windows_ok w" "losses (fold (ingest_flow hash registry) xs w) = losses w" "tallying w"
  shows "scope_value (fold (ingest_flow hash registry) xs w) k =
    added hash (filter (\<lambda>flow. k \<in> set (flow_scopes registry flow)) (map fst xs)) (scope_value w k)"
  using assms
proof (induction xs arbitrary: w)
  case (Cons x xs)
  let ?w = "ingest_flow hash registry x w"
  have same: "losses ?w = losses w"
    using fewer_ingest[of w hash registry x] fewer_ingests[of ?w hash registry xs] Cons.prems(2)
    by (intro fewer_antisym) simp_all
  have ok: "windows_ok ?w" using window_ingest_ok[OF Cons.prems(1)] by simp
  have "scope_value (fold (ingest_flow hash registry) xs ?w) k =
      added hash (filter (\<lambda>flow. k \<in> set (flow_scopes registry flow)) (map fst xs)) (scope_value ?w k)"
    by (rule Cons.IH[OF ok]) (use same Cons.prems in simp_all)
  then show ?case using ingest_value[OF Cons.prems(1) same Cons.prems(3), of k] by auto
qed simp

section \<open>What a tick emits\<close>

definition emitted :: "nat \<Rightarrow> WallTime \<Rightarrow> DetectionWindows \<Rightarrow> DetectionSnapshot list" where
  "emitted now wall w = concat (map (\<lambda>m. map (\<lambda>(key, a).
       snapshot key a (wcf_window (dw_config w)) (now - dw_window_start w) now wall) (map_iter m))
     [dw_hosts w, dw_networks w, dw_slash24 w, dw_hostgroups w])"

lemma tick_due: "is_due w now \<Longrightarrow> fst (tick now wall w) = sort_key sn_key (emitted now wall w)"
  by (simp add: tick_def is_due_def emitted_def Let_def)

lemma sn_key_snapshot [simp]: "sn_key (snapshot key a window elapsed now wall) = key"
  by (simp add: snapshot_def Let_def)

lemma all_scopes: "{HostScope, PrefixScope, Slash24, HostgroupTotal} = UNIV"
  by (auto intro: ScopeType.exhaust)

lemma map_iter_get: "map_ok m \<Longrightarrow> (key, a) \<in> set (map_iter m) \<longleftrightarrow> map_get m key = Some a"
  by (force simp: map_iter_def map_get_def map_ok_def)

lemma in_emitted:
  assumes "windows_ok w"
  shows "s \<in> set (emitted now wall w) \<longleftrightarrow>
    (\<exists>key a. scope_value w key = Some a \<and> s = snapshot key a (wcf_window (dw_config w)) (now - dw_window_start w) now wall)"
proof -
  have "s \<in> set (emitted now wall w) \<longleftrightarrow> (\<exists>sc \<in> {HostScope, PrefixScope, Slash24, HostgroupTotal}. \<exists>(key, a) \<in> set (map_iter (map_for sc w)).
      s = snapshot key a (wcf_window (dw_config w)) (now - dw_window_start w) now wall)"
    by (auto simp: emitted_def)
  also have "\<dots> \<longleftrightarrow> (\<exists>sc key a. map_get (map_for sc w) key = Some a \<and>
      s = snapshot key a (wcf_window (dw_config w)) (now - dw_window_start w) now wall)"
    using assms map_iter_get unfolding all_scopes windows_ok_def by fastforce
  also have "\<dots> \<longleftrightarrow> (\<exists>key a. scope_value w key = Some a \<and>
      s = snapshot key a (wcf_window (dw_config w)) (now - dw_window_start w) now wall)"
  proof -
    have "sk_scope_type key = sc" if "map_get (map_for sc w) key = Some a" for sc key a
    proof -
      have "list_all (\<lambda>e. sk_scope_type (fst e) = sc) (bm_entries (map_for sc w))"
        using assms unfolding windows_ok_def of_scope_def by blast
      with that show ?thesis by (auto simp: map_get_def dest: hm_list_all_map_of)
    qed
    then show ?thesis unfolding scope_value_def by blast
  qed
  finally show ?thesis .
qed

lemma keys_emitted: "map sn_key (emitted now wall w) =
    concat (map (map fst \<circ> bm_entries) [dw_hosts w, dw_networks w, dw_slash24 w, dw_hostgroups w])"
  by (simp add: emitted_def map_iter_def comp_def split_beta)

lemma distinct_emitted:
  assumes "windows_ok w"
  shows "distinct (map sn_key (emitted now wall w))"
proof -
  have keys: "k \<in> fst ` set (bm_entries (map_for sc w)) \<Longrightarrow> sk_scope_type k = sc"
    and dist: "distinct (map fst (bm_entries (map_for sc w)))" for k sc
    using assms by (auto simp: windows_ok_def of_scope_def list_all_iff map_ok_def)
  have apart: "fst ` set (bm_entries (map_for sc w)) \<inter> fst ` set (bm_entries (map_for sc' w)) = {}" if "sc \<noteq> sc'" for sc sc'
    using keys[of _ sc] keys[of _ sc'] that by blast
  show ?thesis
    using apart[of HostScope PrefixScope] apart[of HostScope Slash24] apart[of HostScope HostgroupTotal]
      apart[of PrefixScope Slash24] apart[of PrefixScope HostgroupTotal] apart[of Slash24 HostgroupTotal]
      dist[of HostScope] dist[of PrefixScope] dist[of Slash24] dist[of HostgroupTotal]
    unfolding keys_emitted by (simp add: Int_Un_distrib)
qed

lemma sorted_snapshots:
  assumes "windows_ok w"
  shows "sorted_wrt (<) (map sn_key (sort_key sn_key (emitted now wall w)))"
  using distinct_emitted[OF assms, of now wall] by (simp add: strict_sorted_iff distinct_map distinct_sort)

lemma new_windows_ok: "windows_ok ((new_windows config start)\<lparr>dw_stats := st\<rparr>)"
  unfolding windows_ok_def
proof
  fix s
  show "map_ok (map_for s ((new_windows config start)\<lparr>dw_stats := st\<rparr>)) \<and>
      bc_max_entries (bm_config (map_for s ((new_windows config start)\<lparr>dw_stats := st\<rparr>))) =
        cap_for s (dw_config ((new_windows config start)\<lparr>dw_stats := st\<rparr>)) \<and>
      of_scope s (map_for s ((new_windows config start)\<lparr>dw_stats := st\<rparr>))"
    by (cases s) (simp_all add: new_windows_def Let_def new_map_ok of_scope_def new_map_def map_config_def map_ok_def)
qed

lemma new_windows_value: "scope_value ((new_windows config start)\<lparr>dw_stats := st\<rparr>) key = None"
  by (cases "sk_scope_type key") (simp_all add: scope_value_def new_windows_def Let_def new_map_def map_get_def)

lemma window_value:
  assumes "w = fold (ingest_flow hash registry) flows ((new_windows config start)\<lparr>dw_stats := st\<rparr>)"
    and "wst_evicted (dw_stats w) = wst_evicted st" "wst_rejected (dw_stats w) = wst_rejected st"
      "wst_evicted st \<noteq> - 1" "wst_rejected st \<noteq> - 1"
  shows "scope_value w key = Some a \<longleftrightarrow> filter (\<lambda>flow. key \<in> set (flow_scopes registry flow)) (map fst flows) \<noteq> [] \<and>
    a = fold (accumulator_add hash) (filter (\<lambda>flow. key \<in> set (flow_scopes registry flow)) (map fst flows)) default_accumulator"
proof -
  have "scope_value w key = added hash (filter (\<lambda>flow. key \<in> set (flow_scopes registry flow)) (map fst flows)) None"
    using ingests_value[OF new_windows_ok, of hash registry flows st config start key] assms new_windows_value by simp
  then show ?thesis by (auto simp: added_def)
qed

text \<open>
  Property C25. A window reports exactly its flows. When a window that started empty has displaced and
  refused no scope, the tick that closes it emits, in strictly increasing key order, one snapshot for
  every scope that some flow of the window belongs to and no other, made from the fold of exactly the
  flows that belong to it over the time that elapsed; and the tick leaves empty windows that start at
  its own time.\<close>

theorem window_reports_exactly_its_flows:
  assumes w: "w = fold (\<lambda>(flow, now). window_ingest hash registry flow (classify registry flow) now) flows
      ((new_windows config start)\<lparr>dw_stats := st\<rparr>)"
    and lost: "wst_evicted (dw_stats w) = wst_evicted st" "wst_rejected (dw_stats w) = wst_rejected st"
      "wst_evicted st \<noteq> - 1" "wst_rejected st \<noteq> - 1"
    and due: "start + wcf_window config \<le> now"
    and hits: "hits = (\<lambda>key. filter (\<lambda>flow. key \<in> set (flow_scopes registry flow)) (map fst flows))"
  shows "sorted_wrt (<) (map sn_key (fst (tick now wall w))) \<and>
    set (fst (tick now wall w)) =
      {snapshot key (fold (accumulator_add hash) (hits key) default_accumulator) (wcf_window config) (now - start) now wall
        | key. hits key \<noteq> []} \<and>
    (\<exists>st'. snd (tick now wall w) = (new_windows config now)\<lparr>dw_stats := st'\<rparr>)"
proof -
  let ?w0 = "(new_windows config start)\<lparr>dw_stats := st\<rparr>"
  note ok0 = new_windows_ok[where config = config and start = start and st = st]
  have ok: "windows_ok w" "dw_config w = config" "dw_window_start w = start"
    using ingests_ok[OF ok0, of hash registry flows] w by (simp_all add: new_windows_def Let_def)
  have due_now: "is_due w now" using due ok by (simp add: is_due_def)
  have got: "scope_value w key = Some a \<longleftrightarrow> hits key \<noteq> [] \<and> a = fold (accumulator_add hash) (hits key) default_accumulator" for key a
    using window_value[OF w lost] hits by simp
  have "set (fst (tick now wall w)) =
      {snapshot key (fold (accumulator_add hash) (hits key) default_accumulator) (wcf_window config) (now - start) now wall
        | key. hits key \<noteq> []}"
    unfolding tick_due[OF due_now] set_sort by (auto simp: in_emitted[OF ok(1)] got ok(2,3))
  moreover have "sorted_wrt (<) (map sn_key (fst (tick now wall w)))"
    unfolding tick_due[OF due_now] by (rule sorted_snapshots[OF ok(1)])
  moreover have "\<exists>st'. snd (tick now wall w) = (new_windows config now)\<lparr>dw_stats := st'\<rparr>"
    by (rule exI[of _ "dw_stats (snd (tick now wall w))"], rule DetectionWindows.equality)
      (use due_now ok(2,3) in \<open>simp_all add: tick_def is_due_def new_windows_def Let_def\<close>)
  ultimately show ?thesis by blast
qed


lemma snapshots_of_tick:
  "s \<in> set (fst (tick now wall w)) \<Longrightarrow>
     \<exists>key a. s = snapshot key a (wcf_window (dw_config w)) (now - dw_window_start w) now wall"
  by (auto simp: tick_def Let_def split: if_splits)

text \<open>
  Property C40. Byte rates that nobody measures never alert. Of every snapshot a tick emits, the byte
  rates of SYN, fragmented and dropped traffic cross no threshold of a validated policy, and when the
  source field was seen they are not reported as skipped either; a policy with only such thresholds
  never finds a snapshot over threshold, whatever the traffic.\<close>

theorem unmeasured_byte_rates_never_alert:
  assumes "validate draft owned = Inr p" "s \<in> set (fst (tick now wall w))"
  shows "(\<forall>m \<in> {TcpSynBps, FragmentedBps, DroppedBps}. m \<notin> ma_metric ` set (ev_matched (evaluate p s)) \<and>
      (metric_seen s m \<longrightarrow> m \<notin> sm_metric ` set (ev_skipped (evaluate p s)))) \<and>
    (fst ` set (dp_thresholds p) \<subseteq> {TcpSynBps, FragmentedBps, DroppedBps} \<longrightarrow> \<not> is_over_threshold (evaluate p s))"
proof -
  have rate: "rate_of m (sn_rates s) = 0" if "m \<in> {TcpSynBps, FragmentedBps, DroppedBps}" for m
    using snapshots_of_tick[OF assms(2)] that by (auto simp: snapshot_def Let_def)
  have pos: "t \<noteq> 0" if "(m, t) \<in> set (dp_thresholds p)" for m t
    using validate_policy_ok[OF assms(1)] that by (auto simp: policy_ok_def)
  have never: "\<not> crossed s (m, t)" if "(m, t) \<in> set (dp_thresholds p)" "m \<in> {TcpSynBps, FragmentedBps, DroppedBps}" for m t
    using pos[OF that(1)] rate[OF that(2)] by (auto simp: crossed_def)
  have "m \<notin> ma_metric ` set (ev_matched (evaluate p s))" if "m \<in> {TcpSynBps, FragmentedBps, DroppedBps}" for m
    using never that by (auto simp: evaluate_simps new_matched_def)
  moreover have "m \<notin> sm_metric ` set (ev_skipped (evaluate p s))" if "metric_seen s m" for m
    using that by (auto simp: evaluate_simps)
  moreover have "\<not> is_over_threshold (evaluate p s)"
    if "fst ` set (dp_thresholds p) \<subseteq> {TcpSynBps, FragmentedBps, DroppedBps}"
    using never that unfolding over_threshold_iff by fastforce
  ultimately show ?thesis by blast
qed

lemma sketch_bits: "bit (fold (sketch_observe hash) es sk) n \<longleftrightarrow> bit sk n \<or> n < 64 \<and> (\<exists>e \<in> set es. unat (hash e) mod 64 = n)"
proof (induction es arbitrary: sk)
  case (Cons e es)
  have "bit (sketch_observe hash e sk) n \<longleftrightarrow> bit sk n \<or> n < 64 \<and> unat (hash e) mod 64 = n"
    by (auto simp: sketch_observe_def bit_or_iff bit_exp_iff)
  with Cons show ?case by auto
qed simp

lemma sketch_of_flows: "acm_exporters (fold (accumulator_add hash) flows a) = fold (sketch_observe hash) (map nf_exporter flows) (acm_exporters a)"
  by (induction flows arbitrary: a) (simp_all add: accumulator_add_def)

text \<open>Bits are clipped to 64 bits before they are divided by the time, so that a large byte counter gives
  the same rate as the largest one.\<close>

lemma bit_rate_is_clipped_first:
  "2 ^ 61 \<le> unat bytes \<Longrightarrow> bits_per_second bytes elapsed = per_second (- 1) elapsed"
  by (simp add: bits_per_second_def saturating_mul_def)

text \<open>
  The exporter sketch undercounts and never overcounts: a snapshot made from some flows
  reports at least one exporter and at most as many as reported those flows.\<close>

theorem exporters_are_never_overcounted:
  assumes "flows \<noteq> []"
  shows "0 < unat (sn_exporters_observed (snapshot key (fold (accumulator_add hash) flows default_accumulator) window elapsed now wall)) \<and>
    unat (sn_exporters_observed (snapshot key (fold (accumulator_add hash) flows default_accumulator) window elapsed now wall))
      \<le> card (nf_exporter ` set flows)"
proof -
  let ?sk = "fold (sketch_observe hash) (map nf_exporter flows) 0"
  have bits: "bit ?sk n \<longleftrightarrow> n \<in> (\<lambda>e. unat (hash e) mod 64) ` nf_exporter ` set flows" for n
    by (auto simp: sketch_bits)
  have n: "length (filter (bit ?sk) [0..<64]) = card ((\<lambda>e. unat (hash e) mod 64) ` nf_exporter ` set flows)"
  proof -
    have "set (filter (bit ?sk) [0..<64]) = (\<lambda>e. unat (hash e) mod 64) ` nf_exporter ` set flows"
      by (auto simp: bits)
    then show ?thesis by (metis distinct_card distinct_filter distinct_upt)
  qed
  have le: "card ((\<lambda>e. unat (hash e) mod 64) ` nf_exporter ` set flows) \<le> card (nf_exporter ` set flows)"
    by (intro card_image_le) simp
  have small: "length (filter (bit ?sk) [0..<64]) \<le> 64" using length_filter_le[of "bit ?sk" "[0..<64]"] by simp
  have pos: "0 < card ((\<lambda>e. unat (hash e) mod 64) ` nf_exporter ` set flows)" using assms by (simp add: card_gt_0_iff)
  have "sn_exporters_observed (snapshot key (fold (accumulator_add hash) flows default_accumulator) window elapsed now wall) =
      of_nat (length (filter (bit ?sk) [0..<64]))"
    by (simp add: snapshot_def Let_def sketch_of_flows sketch_count_def default_accumulator_def)
  moreover have "unat (of_nat (length (filter (bit ?sk) [0..<64])) :: u32) = length (filter (bit ?sk) [0..<64])"
    using small by (simp add: unsigned_of_nat take_bit_nat_eq_self)
  ultimately show ?thesis using n le pos by simp
qed


section \<open>Witnesses\<close>

text \<open>A window with room for every scope of its flows displaces and refuses none.\<close>

lemma file_with_room:
  assumes "map_len (map_for (sk_scope_type key) w) < cap_for (sk_scope_type key) (dw_config w)" "windows_ok w"
  shows "losses (file_under hash flow now key w) = losses w \<and>
    map_len (map_for s (file_under hash flow now key w)) \<le> Suc (map_len (map_for s w))"
proof -
  have "bc_max_entries (bm_config (map_for (sk_scope_type key) w)) = cap_for (sk_scope_type key) (dw_config w)"
    using assms(2) by (simp add: windows_ok_def)
  with assms(1) show ?thesis
    by (auto simp: file_under_def accumulate_def upsert_def map_len_def hm_length_update Let_def split_beta split: option.split)
qed

lemma files_with_room:
  assumes "\<And>s. map_len (map_for s w) + length ks \<le> cap_for s (dw_config w)" "windows_ok w"
  shows "losses (fold (file_under hash flow now) ks w) = losses w"
  using assms
proof (induction ks arbitrary: w)
  case (Cons key ks)
  let ?w = "file_under hash flow now key w"
  have "map_len (map_for (sk_scope_type key) w) < cap_for (sk_scope_type key) (dw_config w)"
    using Cons.prems(1)[of "sk_scope_type key"] by simp
  note room = file_with_room[OF this Cons.prems(2), of hash flow now]
  have "map_len (map_for s ?w) + length ks \<le> cap_for s (dw_config ?w)" for s
    using room[of s] Cons.prems(1)[of s] windows_ok_file[OF Cons.prems(2), of hash flow now key] by simp
  from Cons.IH[OF this] windows_ok_file[OF Cons.prems(2), of hash flow now key] room show ?case by simp
qed simp

lemma length_flow_scopes: "length (flow_scopes registry flow) \<le> 8"
proof -
  have "length (side_scopes registry side) \<le> 4" for side
    by (cases side) (simp add: side_scopes_def Let_def split: option.split)
  from this[of "(nf_destination_addr flow, TrafficIncoming, cr_destination_matched_tenant (classify registry flow), cr_destination_matched_hostgroup (classify registry flow))"]
    this[of "(nf_source_addr flow, TrafficOutgoing, cr_source_matched_tenant (classify registry flow), cr_source_matched_hostgroup (classify registry flow))"]
  show ?thesis by (simp add: flow_scopes_def sides_def Let_def split: Direction.split)
qed

definition small_windows :: WindowConfig where
  "small_windows = \<lparr>wcf_window = secs 5, wcf_max_hosts = 8, wcf_max_networks = 8, wcf_max_slash24 = 8, wcf_max_hostgroups = 8\<rparr>"

definition small_registry :: PrefixRegistry where
  "small_registry = (case build_registry sample_config of Inr rep \<Rightarrow> vr_registry rep | Inl _ \<Rightarrow> new_prefix_registry)"

definition small_run :: DetectionWindows where
  "small_run = window_ingest (\<lambda>_. 0) small_registry sample_flow (classify small_registry sample_flow) 1
     ((new_windows small_windows 0)\<lparr>dw_stats := default_window_stats\<rparr>)"

lemma small_run_keeps: "wst_evicted (dw_stats small_run) = 0" "wst_rejected (dw_stats small_run) = 0"
proof -
  let ?w = "counted ((new_windows small_windows 0)\<lparr>dw_stats := default_window_stats\<rparr>)"
  have room: "map_len (map_for s ?w) + length (flow_scopes small_registry sample_flow) \<le> cap_for s (dw_config ?w)" for s
    using length_flow_scopes[of small_registry sample_flow]
    by (cases s) (simp_all add: new_windows_def Let_def new_map_def map_len_def small_windows_def)
  have "windows_ok ?w" using new_windows_ok[of _ small_windows 0] by simp
  from files_with_room[OF room this, of "\<lambda>_. 0" sample_flow 1]
  show "wst_evicted (dw_stats small_run) = 0" "wst_rejected (dw_stats small_run) = 0"
    by (simp_all add: small_run_def window_ingest_files Let_def default_window_stats_def)
qed

lemma small_scope:
  "ScopeKey (lit ''narrow'') HostScope (HostId (V4 0xC0000205)) TrafficIncoming Ipv4 \<in> set (flow_scopes small_registry sample_flow)"
proof -
  have "registry_lookup small_registry (V4 0x0A000001) = None \<and> \<not> registry_is_empty small_registry \<and>
      map_option (pe_tenant \<circ> pm_entry) (registry_lookup small_registry (V4 0xC0000205)) = Some (lit ''narrow'')"
    by code_simp
  then show ?thesis
    by (auto simp: flow_scopes_def sides_def classify_def sample_flow_def side_scopes_def Let_def)
qed

lemma small_run_fold:
  "small_run = fold (ingest_flow (\<lambda>_. 0) small_registry) [(sample_flow, 1)] ((new_windows small_windows 0)\<lparr>dw_stats := default_window_stats\<rparr>)"
  by (simp add: small_run_def)

lemma small_reported: "fst (tick (secs 6) 0 small_run) \<noteq> []"
proof -
  have ok: "windows_ok small_run" "dw_config small_run = small_windows" "dw_window_start small_run = 0"
    using ingests_ok[OF new_windows_ok, of "\<lambda>_. 0" small_registry "[(sample_flow, 1)]" default_window_stats small_windows 0]
    unfolding small_run_fold by (simp_all add: new_windows_def Let_def)
  have "scope_value small_run (ScopeKey (lit ''narrow'') HostScope (HostId (V4 0xC0000205)) TrafficIncoming Ipv4) \<noteq> None"
    using window_value[OF small_run_fold] small_run_keeps small_scope by (force simp: default_window_stats_def)
  then obtain key a where "scope_value small_run key = Some a" by blast
  then have "snapshot key a (wcf_window (dw_config small_run)) (secs 6 - dw_window_start small_run) (secs 6) 0
      \<in> set (emitted (secs 6) 0 small_run)"
    unfolding in_emitted[OF ok(1)] by blast
  then have "set (emitted (secs 6) 0 small_run) \<noteq> {}" by (rule ex_in_conv[THEN iffD1, OF exI])
  moreover have "is_due small_run (secs 6)" using ok by (simp add: is_due_def small_windows_def)
  ultimately show ?thesis using tick_due[of small_run "secs 6" 0] by (metis set_empty set_sort)
qed

theorem window_reports_exactly_its_flows_witness:
  "sorted_wrt (<) (map sn_key (fst (tick (secs 6) 0 small_run))) \<and>
   snapshot (ScopeKey (lit ''narrow'') HostScope (HostId (V4 0xC0000205)) TrafficIncoming Ipv4)
     (accumulator_add (\<lambda>_. 0) sample_flow default_accumulator) (secs 5) (secs 6) (secs 6) 0 \<in> set (fst (tick (secs 6) 0 small_run))"
proof -
  have "wst_evicted default_window_stats = 0" "wst_rejected default_window_stats = 0" by (simp_all add: default_window_stats_def)
  with small_run_keeps window_reports_exactly_its_flows[OF small_run_fold, of "secs 6" _ 0] small_scope
  show ?thesis by (force simp: small_windows_def)
qed

definition syn_draft :: PolicyDraft where
  "syn_draft = sample_draft\<lparr>pd_thresholds := [(TcpSynBps, 1)]\<rparr>"

lemma syn_validates: "validate syn_draft sample_prefixes = Inr (policy_of_draft syn_draft (ClearPercent 100))"
  by (simp add: validate_def syn_draft_def sample_draft_def sample_prefixes_def Let_def
      validate_id_def MAX_POLICY_ID_LEN_def lit_def is_id_char_def trim_def is_whitespace_def
      ensure_def MAX_POLICY_NAME_LEN_def MAX_LABELS_def MAX_WINDOW_def MAX_TIMER_def
      new_clear_percent_def validate_selector_def validate_direction_def validate_prefix_ownership_def
      WILDCARD_TENANT_def tenant_covers_def network_contains_iff)

theorem unmeasured_byte_rates_never_alert_witness:
  "fst (tick (secs 6) 0 small_run) \<noteq> [] \<and>
   \<not> is_over_threshold (evaluate (policy_of_draft syn_draft (ClearPercent 100)) (hd (fst (tick (secs 6) 0 small_run))))"
proof
  show some: "fst (tick (secs 6) 0 small_run) \<noteq> []"
    by (rule small_reported)
  have "fst ` set (dp_thresholds (policy_of_draft syn_draft (ClearPercent 100))) \<subseteq> {TcpSynBps, FragmentedBps, DroppedBps}"
    by (simp add: policy_of_draft_def syn_draft_def)
  with unmeasured_byte_rates_never_alert[OF syn_validates hd_in_set[OF some]]
  show "\<not> is_over_threshold (evaluate (policy_of_draft syn_draft (ClearPercent 100)) (hd (fst (tick (secs 6) 0 small_run))))"
    by blast
qed

theorem exporters_are_never_overcounted_witness:
  "unat (sn_exporters_observed (snapshot sample_key
     (fold (accumulator_add (\<lambda>_. 0)) [sample_flow, sample_flow] default_accumulator) 5 5 5 5)) = 1"
  using exporters_are_never_overcounted[of "[sample_flow, sample_flow]" sample_key "\<lambda>_. 0" 5 5 5 5] by simp

end
