(* ===== verification/Detection_Config.thy ===== *)
theory Detection_Config
  imports Detection_Policy
begin

text \<open>
  Reading detection policies from a document (\<open>crates/detector/src/config.rs\<close>): durations and
  magnitudes with units, networks in CIDR form with the standard library's address parser, the
  compilation of a document into the policy set the engine runs on, and the rendering of loaded
  policies back into a document. The JSON reader is a parameter. The details of errors are
  constructors instead of texts.
\<close>

section \<open>Addresses\<close>

text \<open>The parser of \<open>std::net\<close>, on the text not read yet: a reader returns what it read and the rest,
  or nothing, and then nothing was read.\<close>

type_synonym 'a reader = "rust_str \<Rightarrow> ('a \<times> rust_str) option"

definition digit_value :: "nat \<Rightarrow> nat \<Rightarrow> nat option" where
  "digit_value radix c =
     (let d = (if 48 \<le> c \<and> c \<le> 57 then c - 48
               else if 97 \<le> c \<and> c \<le> 122 then c - 87
               else if 65 \<le> c \<and> c \<le> 90 then c - 55 else radix)
      in if d < radix then Some d else None)"

definition is_digit_of :: "nat \<Rightarrow> nat \<Rightarrow> bool" where
  "is_digit_of radix c = (digit_value radix c \<noteq> None)"

definition number_value :: "nat \<Rightarrow> rust_str \<Rightarrow> nat" where
  "number_value radix ds = foldl (\<lambda>n c. n * radix + (case digit_value radix c of None \<Rightarrow> 0 | Some d \<Rightarrow> d)) 0 ds"

definition read_number :: "nat \<Rightarrow> nat \<Rightarrow> bool \<Rightarrow> nat \<Rightarrow> nat reader" where
  "read_number radix max_digits allow_zero_prefix bound text =
     (let ds = takeWhile (is_digit_of radix) text in
      if length ds > max_digits then None
      else if ds = [] then None
      else if \<not> allow_zero_prefix \<and> hd ds = 48 \<and> length ds > 1 then None
      else if number_value radix ds < bound then Some (number_value radix ds, dropWhile (is_digit_of radix) text) else None)"

definition read_separator :: "nat \<Rightarrow> nat \<Rightarrow> 'a reader \<Rightarrow> 'a reader" where
  "read_separator sep index inner text =
     (if index = 0 then inner text
      else case text of [] \<Rightarrow> None | c # rest \<Rightarrow> if c = sep then inner rest else None)"

fun read_octets :: "nat \<Rightarrow> nat \<Rightarrow> nat list reader" where
  "read_octets index 0 text = Some ([], text)"
| "read_octets index (Suc n) text =
     (case read_separator 46 index (read_number 10 3 False 256) text of
        None \<Rightarrow> None
      | Some (octet, rest) \<Rightarrow> map_option (apfst (Cons octet)) (read_octets (Suc index) n rest))"

definition read_ipv4 :: "nat list reader" where
  "read_ipv4 text = read_octets 0 4 text"

text \<open>\<open>read_groups\<close>: the groups read, whether an embedded IPv4 address ended them, and the rest.\<close>

fun read_groups :: "nat \<Rightarrow> nat \<Rightarrow> rust_str \<Rightarrow> nat list \<times> bool \<times> rust_str" where
  "read_groups index 0 text = ([], False, text)"
| "read_groups index (Suc n) text =
     (case (if 0 < n then read_separator 58 index read_ipv4 text else None) of
        Some (octets, rest) \<Rightarrow>
          ([octets ! 0 * 256 + octets ! 1, octets ! 2 * 256 + octets ! 3], True, rest)
      | None \<Rightarrow>
          (case read_separator 58 index (read_number 16 4 True 65536) text of
             None \<Rightarrow> ([], False, text)
           | Some (g, rest) \<Rightarrow>
               (case read_groups (Suc index) n rest of (gs, v4, rest) \<Rightarrow> (g # gs, v4, rest))))"

definition read_ipv6 :: "nat list reader" where
  "read_ipv6 text =
     (case read_groups 0 8 text of
        (head, head_v4, rest) \<Rightarrow>
          if length head = 8 then Some (head, rest)
          else if head_v4 then None
          else if take 2 rest \<noteq> [58, 58] then None
          else case read_groups 0 (8 - (length head + 1)) (drop 2 rest) of
                 (tail, _, rest) \<Rightarrow> Some (head @ replicate (8 - length head - length tail) 0 @ tail, rest))"

definition be_value :: "nat \<Rightarrow> nat list \<Rightarrow> nat" where
  "be_value base parts = foldl (\<lambda>n p. n * base + p) 0 parts"

definition parse_ip :: "rust_str \<Rightarrow> IpAddr option" where
  "parse_ip text =
     (let whole = (\<lambda>r. case r of Some (a, rest) \<Rightarrow> if rest = [] then Some a else None | None \<Rightarrow> None) in
      case read_ipv4 text of
        Some (octets, rest) \<Rightarrow> whole (Some (V4 (of_nat (be_value 256 octets)), rest))
      | None \<Rightarrow> whole (map_option (apfst (\<lambda>gs. V6 (of_nat (be_value 65536 gs)))) (read_ipv6 text)))"

section \<open>Numbers with units\<close>

datatype TextError =
  TextEmpty | NoUnit rust_str | NoLeadingNumber rust_str | NotAWholeNumber rust_str | UnknownUnit rust_str
| TextOverflows rust_str | NoAddressLength | NotAnAddress rust_str | NotALength rust_str | LengthExceeds u8 u8

definition ascii_digit :: "nat \<Rightarrow> bool" where
  "ascii_digit c = (48 \<le> c \<and> c \<le> 57)"

text \<open>\<open>str::parse\<close> on a nonempty text of digits.\<close>

definition parse_u64 :: "rust_str \<Rightarrow> u64 option" where
  "parse_u64 ds = (let v = number_value 10 ds in if v < 2 ^ 64 then Some (of_nat v) else None)"

definition unit_millis :: "rust_str \<Rightarrow> u64 option" where
  "unit_millis suffix =
     (if suffix = lit ''ms'' then Some 1
      else if suffix = lit ''s'' then Some 1000
      else if suffix = lit ''m'' then Some 60000
      else if suffix = lit ''h'' then Some 3600000
      else if suffix = lit ''d'' then Some 86400000
      else None)"

definition parse_duration :: "rust_str \<Rightarrow> TextError + nat" where
  "parse_duration text =
     (let trimmed = trim text; digits = takeWhile ascii_digit trimmed; suffix = dropWhile ascii_digit trimmed in
      if trimmed = [] then Inl TextEmpty
      else if suffix = [] then Inl (NoUnit trimmed)
      else if digits = [] then Inl (NoLeadingNumber trimmed)
      else bind_res (ok_or (parse_u64 digits) (NotAWholeNumber digits)) (\<lambda>v.
           bind_res (ok_or (unit_millis suffix) (UnknownUnit suffix)) (\<lambda>millis.
           map_sum id (\<lambda>ms. unat ms * 1000000) (ok_or (checked_mul v millis) (TextOverflows trimmed)))))"

definition unit_multiplier :: "rust_str \<Rightarrow> u64 option" where
  "unit_multiplier suffix =
     (if suffix = [] then Some 1
      else if suffix = lit ''k'' \<or> suffix = lit ''K'' then Some 1000
      else if suffix = lit ''M'' then Some 1000000
      else if suffix = lit ''G'' then Some 1000000000
      else if suffix = lit ''T'' then Some 1000000000000
      else None)"

definition parse_magnitude :: "rust_str \<Rightarrow> TextError + u64" where
  "parse_magnitude text =
     (let trimmed = trim text; digits = takeWhile ascii_digit trimmed; suffix = dropWhile ascii_digit trimmed in
      if trimmed = [] then Inl TextEmpty
      else if digits = [] then Inl (NoLeadingNumber trimmed)
      else bind_res (ok_or (parse_u64 digits) (NotAWholeNumber digits)) (\<lambda>v.
           bind_res (ok_or (unit_multiplier suffix) (UnknownUnit suffix)) (\<lambda>multiplier.
           ok_or (checked_mul v multiplier) (TextOverflows trimmed))))"

text \<open>\<open>str::parse::<u8>\<close>: an optional plus sign, then digits.\<close>

definition parse_u8 :: "rust_str \<Rightarrow> u8 option" where
  "parse_u8 text =
     (let ds = (case text of c # rest \<Rightarrow> if c = 43 then rest else text | [] \<Rightarrow> []) in
      if ds \<noteq> [] \<and> list_all ascii_digit ds \<and> number_value 10 ds < 256 then Some (of_nat (number_value 10 ds)) else None)"

definition parse_cidr :: "rust_str \<Rightarrow> TextError + IpAddr \<times> u8" where
  "parse_cidr text =
     (if 47 \<notin> set text then Inl NoAddressLength
      else
        let addr_text = takeWhile (\<lambda>c. c \<noteq> 47) text; len_text = tl (dropWhile (\<lambda>c. c \<noteq> 47) text) in
        bind_res (ok_or (parse_ip (trim addr_text)) (NotAnAddress addr_text)) (\<lambda>addr.
        bind_res (ok_or (parse_u8 (trim len_text)) (NotALength len_text)) (\<lambda>len.
        let max_len = (if is_ipv4 addr then 32 else 128) in
        if len > max_len then Inl (LengthExceeds len max_len) else Inr (addr, len))))"

definition render_duration :: "nat \<Rightarrow> rust_str" where
  "render_duration duration =
     (let millis = duration div 1000000 in
      case List.find (\<lambda>(_, unit_size). millis \<noteq> 0 \<and> millis mod unit_size = 0)
          [(''d'', 86400000), (''h'', 3600000), (''m'', 60000), (''s'', 1000)] of
        Some (suffix, unit_size) \<Rightarrow> lit (show_nat (millis div unit_size) @ suffix)
      | None \<Rightarrow> lit (show_nat millis @ ''ms''))"

section \<open>Documents\<close>

definition POLICY_SCHEMA_VERSION :: u32 where "POLICY_SCHEMA_VERSION = 1"
definition MAX_DOCUMENT_BYTES :: nat where "MAX_DOCUMENT_BYTES = 4 * 1024 * 1024"
definition MAX_POLICIES :: nat where "MAX_POLICIES = 10000"
definition MAX_TENANT_PREFIXES :: nat where "MAX_TENANT_PREFIXES = 100000"

datatype ConfigError =
  TooLarge nat | Malformed rust_str | UnsupportedSchema u32 | TooManyPolicies nat | TooManyPrefixes nat
| InvalidPolicy rust_str PolicyError | FieldError rust_str string TextError
| ThresholdError rust_str MetricKind TextError | PrefixError rust_str rust_str TextError | DuplicatePolicyId rust_str

record PolicyDefaults =
  pdf_clear_percent :: u8
  pdf_cooldown :: "rust_str option"
  pdf_hold_down :: "rust_str option"
  pdf_event_update_interval :: "rust_str option"
  pdf_severity :: "Severity option"
  pdf_execution_mode :: "ExecutionMode option"

definition default_policy_defaults :: PolicyDefaults where
  "default_policy_defaults = \<lparr>pdf_clear_percent = DEFAULT_CLEAR_PERCENT, pdf_cooldown = None,
     pdf_hold_down = None, pdf_event_update_interval = None, pdf_severity = None, pdf_execution_mode = None\<rparr>"

record TenantEntry =
  te_tenant :: rust_str
  te_prefixes :: "rust_str list"

datatype Magnitude = MagnitudeNumber u64 | MagnitudeText rust_str

primrec magnitude_resolve :: "Magnitude \<Rightarrow> TextError + u64" where
  "magnitude_resolve (MagnitudeNumber v) = Inr v"
| "magnitude_resolve (MagnitudeText text) = parse_magnitude text"

record PolicyEntry =
  py_id :: rust_str
  py_name :: rust_str
  py_description :: "rust_str option"
  py_enabled :: bool
  py_tenant :: rust_str
  py_scope_type :: ScopeType
  py_selector :: PolicySelector
  py_address_family :: "AddressFamily option"
  py_direction :: TrafficDirection
  py_window :: rust_str
  py_thresholds :: "(MetricKind \<times> Magnitude) list"
  py_clear_percent :: "u8 option"
  py_trigger_for :: rust_str
  py_clear_for :: rust_str
  py_cooldown :: "rust_str option"
  py_hold_down :: "rust_str option"
  py_event_update_interval :: "rust_str option"
  py_severity :: "Severity option"
  py_execution_mode :: "ExecutionMode option"
  py_priority :: int
  py_labels :: "(rust_str \<times> rust_str) list"
  py_version :: u32

record PolicyDocument =
  pdoc_schema_version :: u32
  pdoc_defaults :: PolicyDefaults
  pdoc_tenants :: "TenantEntry list"
  pdoc_policies :: "PolicyEntry list"

record CompiledPolicies =
  cpl_policies :: PolicySet
  cpl_tenant_prefixes :: TenantPrefixes

definition from_json :: "(rust_str \<Rightarrow> rust_str + PolicyDocument) \<Rightarrow> rust_str \<Rightarrow> ConfigError + PolicyDocument" where
  "from_json read_json text =
     (if length (utf8 text) > MAX_DOCUMENT_BYTES then Inl (TooLarge (length (utf8 text)))
      else bind_res (map_err Malformed (read_json text)) (\<lambda>document.
        if pdoc_schema_version document \<noteq> POLICY_SCHEMA_VERSION
        then Inl (UnsupportedSchema (pdoc_schema_version document))
        else if length (pdoc_policies document) > MAX_POLICIES
        then Inl (TooManyPolicies (length (pdoc_policies document)))
        else Inr document))"

definition or_else :: "'a option \<Rightarrow> 'a option \<Rightarrow> 'a option" where
  "or_else a b = (case a of None \<Rightarrow> b | Some _ \<Rightarrow> a)"

definition unwrap_or :: "'a option \<Rightarrow> 'a \<Rightarrow> 'a" where
  "unwrap_or a d = (case a of None \<Rightarrow> d | Some x \<Rightarrow> x)"

fun resolve_thresholds :: "rust_str \<Rightarrow> Thresholds \<Rightarrow> (MetricKind \<times> Magnitude) list \<Rightarrow> ConfigError + Thresholds" where
  "resolve_thresholds pid acc [] = Inr acc"
| "resolve_thresholds pid acc ((metric, magnitude) # rest) =
     bind_res (map_err (ThresholdError pid metric) (magnitude_resolve magnitude)) (\<lambda>v.
     resolve_thresholds pid (bt_insert metric v acc) rest)"

definition to_draft :: "PolicyDefaults \<Rightarrow> PolicyEntry \<Rightarrow> ConfigError + PolicyDraft" where
  "to_draft defaults e =
     (let duration = (\<lambda>field text. map_err (FieldError (py_id e) field) (parse_duration text));
          optional = (\<lambda>field own fallback d. case or_else own fallback of
             Some text \<Rightarrow> duration field text | None \<Rightarrow> Inr d) in
      bind_res (resolve_thresholds (py_id e) [] (py_thresholds e)) (\<lambda>thresholds.
      bind_res (duration ''window'' (py_window e)) (\<lambda>window.
      bind_res (duration ''triggerFor'' (py_trigger_for e)) (\<lambda>trigger_for.
      bind_res (duration ''clearFor'' (py_clear_for e)) (\<lambda>clear_for.
      bind_res (optional ''cooldown'' (py_cooldown e) (pdf_cooldown defaults) 0) (\<lambda>cooldown.
      bind_res (optional ''holdDown'' (py_hold_down e) (pdf_hold_down defaults) 0) (\<lambda>hold_down.
      bind_res (optional ''eventUpdateInterval'' (py_event_update_interval e)
                  (pdf_event_update_interval defaults) (secs 60)) (\<lambda>event_update_interval.
      Inr \<lparr>pd_id = py_id e, pd_name = py_name e, pd_description = py_description e,
        pd_enabled = py_enabled e, pd_tenant = py_tenant e, pd_scope_type = py_scope_type e,
        pd_selector = py_selector e, pd_address_family = py_address_family e,
        pd_direction = py_direction e, pd_window = window, pd_thresholds = thresholds,
        pd_clear_percent = unwrap_or (py_clear_percent e) (pdf_clear_percent defaults),
        pd_trigger_for = trigger_for, pd_clear_for = clear_for, pd_cooldown = cooldown,
        pd_hold_down = hold_down, pd_event_update_interval = event_update_interval,
        pd_severity = unwrap_or (or_else (py_severity e) (pdf_severity defaults)) Major,
        pd_execution_mode = unwrap_or (or_else (py_execution_mode e) (pdf_execution_mode defaults)) AlertOnly,
        pd_priority = py_priority e, pd_labels = py_labels e, pd_version = py_version e\<rparr>))))))))"

fun insert_prefixes :: "rust_str \<Rightarrow> rust_str list \<Rightarrow> TenantPrefixes \<Rightarrow> ConfigError + TenantPrefixes" where
  "insert_prefixes tenant [] tp = Inr tp"
| "insert_prefixes tenant (raw # raws) tp =
     bind_res (map_err (PrefixError tenant raw) (parse_cidr raw)) (\<lambda>(addr, len).
     insert_prefixes tenant raws (tenant_prefixes_insert tenant addr len tp))"

fun insert_tenants :: "TenantEntry list \<Rightarrow> TenantPrefixes \<Rightarrow> ConfigError + TenantPrefixes" where
  "insert_tenants [] tp = Inr tp"
| "insert_tenants (t # ts) tp =
     bind_res (insert_prefixes (te_tenant t) (te_prefixes t) tp) (\<lambda>tp. insert_tenants ts tp)"

definition document_prefixes :: "PolicyDocument \<Rightarrow> ConfigError + TenantPrefixes" where
  "document_prefixes document =
     (let total = sum_list (map (length \<circ> te_prefixes) (pdoc_tenants document)) in
      if total > MAX_TENANT_PREFIXES then Inl (TooManyPrefixes total)
      else insert_tenants (pdoc_tenants document) [])"

fun compile_entries ::
    "PolicyDefaults \<Rightarrow> TenantPrefixes \<Rightarrow> rust_str list \<Rightarrow> PolicyEntry list \<Rightarrow> ConfigError + DetectionPolicy list" where
  "compile_entries defaults tp seen [] = Inr []"
| "compile_entries defaults tp seen (e # es) =
     (if py_id e \<in> set seen then Inl (DuplicatePolicyId (py_id e))
      else bind_res (to_draft defaults e) (\<lambda>draft.
           bind_res (map_err (InvalidPolicy (py_id e)) (validate draft tp)) (\<lambda>policy.
           map_sum id (Cons policy) (compile_entries defaults tp (py_id e # seen) es))))"

definition from_set_error :: "PolicyError \<Rightarrow> ConfigError" where
  "from_set_error e = (case e of DuplicateId pid \<Rightarrow> DuplicatePolicyId pid | _ \<Rightarrow> InvalidPolicy [] e)"

definition compile :: "PolicyDocument \<Rightarrow> ConfigError + CompiledPolicies" where
  "compile document =
     bind_res (document_prefixes document) (\<lambda>tp.
     bind_res (compile_entries (pdoc_defaults document) tp [] (pdoc_policies document)) (\<lambda>policies.
     bind_res (map_err from_set_error (from_policies policies)) (\<lambda>policies.
     Inr \<lparr>cpl_policies = policies, cpl_tenant_prefixes = tp\<rparr>)))"

definition load_policies :: "(rust_str \<Rightarrow> rust_str + PolicyDocument) \<Rightarrow> rust_str \<Rightarrow> ConfigError + CompiledPolicies" where
  "load_policies read_json text = bind_res (from_json read_json text) compile"

definition entry_of_policy :: "DetectionPolicy \<Rightarrow> PolicyEntry" where
  "entry_of_policy p =
     \<lparr>py_id = dp_id p, py_name = dp_name p, py_description = dp_description p, py_enabled = dp_enabled p,
      py_tenant = dp_tenant p, py_scope_type = dp_scope_type p, py_selector = dp_selector p,
      py_address_family = dp_address_family p, py_direction = dp_direction p,
      py_window = render_duration (dp_window p),
      py_thresholds = map (\<lambda>(metric, v). (metric, MagnitudeNumber v)) (dp_thresholds p),
      py_clear_percent = Some (clear_percent_get (dp_clear_percent p)),
      py_trigger_for = render_duration (dp_trigger_for p), py_clear_for = render_duration (dp_clear_for p),
      py_cooldown = Some (render_duration (dp_cooldown p)), py_hold_down = Some (render_duration (dp_hold_down p)),
      py_event_update_interval = Some (render_duration (dp_event_update_interval p)),
      py_severity = Some (dp_severity p), py_execution_mode = Some (dp_execution_mode p),
      py_priority = dp_priority p, py_labels = dp_labels p, py_version = dp_version p\<rparr>"

definition to_document :: "DetectionPolicy list \<Rightarrow> PolicyDocument" where
  "to_document policies =
     \<lparr>pdoc_schema_version = POLICY_SCHEMA_VERSION, pdoc_defaults = default_policy_defaults, pdoc_tenants = [],
      pdoc_policies = map entry_of_policy policies\<rparr>"

section \<open>Durations round trip\<close>

lemma of_char_digit: "d < 10 \<Longrightarrow> of_char (digit_char d) = 48 + d"
  by (simp add: digit_char_def)

lemma show_nat_digits: "list_all ascii_digit (lit (show_nat n)) \<and> lit (show_nat n) \<noteq> []"
proof (induction "10 :: nat" n rule: show_radix.induct)
  case (1 n)
  then show ?case
    by (subst (1 2) show_radix.simps) (auto simp: lit_def of_char_digit ascii_digit_def)
qed

lemma number_value_snoc: "number_value 10 (ds @ [48 + d]) = number_value 10 ds * 10 + d" if "d < 10"
  using that by (simp add: number_value_def digit_value_def)

lemma number_value_show: "number_value 10 (lit (show_nat n)) = n"
proof (induction "10 :: nat" n rule: show_radix.induct)
  case (1 n)
  show ?case
  proof (cases "n < 10")
    case True
    then show ?thesis
      by (subst show_radix.simps) (simp add: lit_def of_char_digit number_value_snoc[of _ "[]", simplified] number_value_def digit_value_def)
  next
    case False
    then have "number_value 10 (lit (show_nat (n div 10))) = n div 10" using 1 by simp
    moreover have "lit (show_nat n) = lit (show_nat (n div 10)) @ [48 + n mod 10]"
      using False by (subst show_radix.simps) (simp add: lit_def of_char_digit)
    ultimately show ?thesis by (simp add: number_value_snoc)
  qed
qed

lemma digits_then_suffix:
  assumes "list_all ascii_digit ds" "suffix = [] \<or> \<not> ascii_digit (hd suffix)"
  shows "takeWhile ascii_digit (ds @ suffix) = ds" "dropWhile ascii_digit (ds @ suffix) = suffix"
  using assms by (induction ds; cases suffix; simp)+

lemma digit_not_space: "ascii_digit c \<Longrightarrow> \<not> is_whitespace c"
  by (auto simp: ascii_digit_def is_whitespace_def)

lemma trim_bounded: "xs \<noteq> [] \<Longrightarrow> \<not> is_whitespace (hd xs) \<Longrightarrow> \<not> is_whitespace (last xs) \<Longrightarrow> trim xs = xs"
  using dropWhile_eq_self_iff[of is_whitespace xs] dropWhile_eq_self_iff[of is_whitespace "rev xs"]
  by (simp add: trim_def hd_rev)

lemma parse_rendered:
  assumes "n < 2 ^ 64" "unit_millis (lit suffix) = Some k" "n * unat k < 2 ^ 64"
  shows "parse_duration (lit (show_nat n @ suffix)) = Inr (n * unat k * 1000000)"
proof -
  have suffix: "lit suffix \<noteq> []" "\<not> ascii_digit (hd (lit suffix))" "\<not> is_whitespace (last (lit suffix))"
    using assms(2) by (auto simp: unit_millis_def lit_def ascii_digit_def is_whitespace_def split: if_splits)
  note ds = show_nat_digits[of n]
  have parts: "lit (show_nat n @ suffix) = lit (show_nat n) @ lit suffix" by (simp add: lit_def)
  have "\<not> is_whitespace (hd (lit (show_nat n)))"
    using ds by (cases "lit (show_nat n)") (auto simp: digit_not_space)
  then have trimmed: "trim (lit (show_nat n) @ lit suffix) = lit (show_nat n) @ lit suffix"
    using ds suffix by (intro trim_bounded) auto
  have mul: "checked_mul (of_nat n) k = Some (of_nat n * k)" "unat (of_nat n * k :: u64) = n * unat k"
    using assms by (simp_all add: checked_mul_def unsigned_of_nat take_bit_nat_eq_self unat_word_ariths)
  show ?thesis
    unfolding parse_duration_def parts trimmed Let_def digits_then_suffix[OF conjunct1[OF ds] disjI2[OF suffix(2)]]
    using ds suffix(1) assms(1,2) mul by (simp add: parse_u64_def number_value_show ok_or_def)
qed

definition representable :: "nat \<Rightarrow> bool" where
  "representable d \<longleftrightarrow> d mod 1000000 = 0 \<and> d div 1000000 < 2 ^ 64"

lemma duration_round_trips:
  assumes "representable d"
  shows "parse_duration (render_duration d) = Inr d"
proof -
  define ms where "ms = d div 1000000"
  have d: "d = ms * 1000000" "ms < 2 ^ 64" using assms by (auto simp: representable_def ms_def)
  have whole: "parse_duration (lit (show_nat (ms div k) @ suffix)) = Inr d"
    if "unit_millis (lit suffix) = Some w" "unat w = k" "ms mod k = 0" for suffix w k
  proof -
    have "ms div k * k = ms" using that(3) by auto
    then show ?thesis using parse_rendered[OF _ that(1), of "ms div k"] that(2) d
        order.strict_trans1[OF div_le_dividend[of ms k] d(2)] by simp
  qed
  show ?thesis
    unfolding render_duration_def ms_def[symmetric] Let_def
    using whole[of "''d''" 86400000 86400000] whole[of "''h''" 3600000 3600000] whole[of "''m''" 60000 60000]
      whole[of "''s''" 1000 1000] whole[of "''ms''" 1 1]
    by (auto simp: unit_millis_def lit_def)
qed

lemma parsed_is_representable: "parse_duration text = Inr d \<Longrightarrow> representable d"
proof -
  assume "parse_duration text = Inr d"
  then obtain ms :: u64 where "d = unat ms * 1000000"
    by (auto simp: parse_duration_def Let_def bind_res_eq_Inr ok_or_def split: if_splits option.splits)
  then show ?thesis using unsigned_less[of ms] by (simp add: representable_def)
qed

section \<open>Documents round trip\<close>

definition draft_of_policy :: "DetectionPolicy \<Rightarrow> PolicyDraft" where
  "draft_of_policy p =
     \<lparr>pd_id = dp_id p, pd_name = dp_name p, pd_description = dp_description p, pd_enabled = dp_enabled p,
      pd_tenant = dp_tenant p, pd_scope_type = dp_scope_type p, pd_selector = dp_selector p,
      pd_address_family = dp_address_family p, pd_direction = dp_direction p, pd_window = dp_window p,
      pd_thresholds = dp_thresholds p, pd_clear_percent = clear_percent_get (dp_clear_percent p),
      pd_trigger_for = dp_trigger_for p, pd_clear_for = dp_clear_for p, pd_cooldown = dp_cooldown p,
      pd_hold_down = dp_hold_down p, pd_event_update_interval = dp_event_update_interval p,
      pd_severity = dp_severity p, pd_execution_mode = dp_execution_mode p, pd_priority = dp_priority p,
      pd_labels = dp_labels p, pd_version = dp_version p\<rparr>"

definition draft_writable :: "PolicyDraft \<Rightarrow> bool" where
  "draft_writable d \<longleftrightarrow> bt_ok (pd_thresholds d) \<and> list_all representable [pd_window d, pd_trigger_for d,
     pd_clear_for d, pd_cooldown d, pd_hold_down d, pd_event_update_interval d]"

lemma draft_of_policy_of_draft: "draft_of_policy (policy_of_draft d (ClearPercent (pd_clear_percent d))) = d"
  by (simp add: draft_of_policy_def policy_of_draft_def)

lemma bt_insert_sorted:
  "bt_ok (acc @ m) \<Longrightarrow> fold (\<lambda>(k, v). bt_insert k v) m acc = acc @ m"
proof (induction m arbitrary: acc)
  case (Cons kv m)
  obtain k v where [simp]: "kv = (k, v)" by (cases kv)
  have "\<forall>k' \<in> fst ` set acc. k' < k" using Cons.prems by (auto simp: bt_ok_def sorted_wrt_append)
  then have "bt_insert k v acc = acc @ [(k, v)]" by (rule bt_insert_last)
  with Cons.IH[of "acc @ [(k, v)]"] Cons.prems show ?case by simp
qed simp

lemma resolve_numbers:
  "resolve_thresholds pid acc (map (\<lambda>(metric, v). (metric, MagnitudeNumber v)) ts) = Inr (fold (\<lambda>(k, v). bt_insert k v) ts acc)"
  by (induction ts arbitrary: acc) (auto simp: map_err_def bind_res_def)

lemma resolve_thresholds_ok: "resolve_thresholds pid acc ms = Inr ts \<Longrightarrow> bt_ok acc \<Longrightarrow> bt_ok ts"
  by (induction pid acc ms rule: resolve_thresholds.induct) (auto simp: bind_res_eq_Inr)

lemma to_draft_of_entry:
  assumes "draft_writable (draft_of_policy p)"
  shows "to_draft defaults (entry_of_policy p) = Inr (draft_of_policy p)"
proof -
  have "parse_duration (render_duration d) = Inr d"
    if "d \<in> {dp_window p, dp_trigger_for p, dp_clear_for p, dp_cooldown p, dp_hold_down p, dp_event_update_interval p}" for d
    using assms that by (intro duration_round_trips) (auto simp: draft_writable_def draft_of_policy_def)
  moreover have "bt_ok (dp_thresholds p)" using assms by (simp add: draft_writable_def draft_of_policy_def)
  ultimately show ?thesis
    by (simp add: to_draft_def entry_of_policy_def draft_of_policy_def resolve_numbers bt_insert_sorted map_err_def
        or_else_def unwrap_or_def Let_def)
qed

lemma representable_constants: "representable 0" "representable (secs 60)"
  by (simp_all add: representable_def)

lemma to_draft_writable: "to_draft defaults e = Inr d \<Longrightarrow> draft_writable d \<and> pd_id d = py_id e"
  using representable_constants
  by (auto simp: to_draft_def Let_def bind_res_eq_Inr draft_writable_def map_err_eq_Inr
      dest!: parsed_is_representable resolve_thresholds_ok split: option.splits)

text \<open>A policy that some document gave is written in a way that gives it again, without tenants.\<close>

lemma validated_reloads:
  assumes "to_draft defaults e = Inr d" "validate d tp = Inr p"
  shows "to_draft defaults' (entry_of_policy p) = Inr d \<and> validate d [] = Inr p \<and> dp_id p = py_id e"
proof -
  have w: "draft_writable d" "pd_id d = py_id e" using to_draft_writable[OF assms(1)] by simp_all
  have p: "p = policy_of_draft d (ClearPercent (pd_clear_percent d))" using validate_eq_Inr[OF assms(2)] by blast
  then have "draft_of_policy p = d" using draft_of_policy_of_draft by simp
  moreover from this have "to_draft defaults' (entry_of_policy p) = Inr (draft_of_policy p)"
    using w(1) by (intro to_draft_of_entry) simp
  moreover have "validate d [] = Inr p"
    using assms(2) unfolding validate_def Let_def
    by (auto simp: bind_res_eq_Inr validate_prefix_ownership_def)
  ultimately show ?thesis using p w(2) by (simp add: policy_of_draft_def)
qed

lemma map_sum_eq_Inr: "map_sum f g x = Inr y \<longleftrightarrow> (\<exists>z. x = Inr z \<and> y = g z)"
  by (cases x) auto

lemma list_all2_partner: "list_all2 P xs ys \<Longrightarrow> y \<in> set ys \<Longrightarrow> \<exists>x \<in> set xs. P x y"
  by (induction rule: list_all2_induct) auto

lemma list_all2_partner': "list_all2 P xs ys \<Longrightarrow> x \<in> set xs \<Longrightarrow> \<exists>y \<in> set ys. P x y"
  by (induction rule: list_all2_induct) auto

lemma compile_entries_gives:
  "compile_entries defaults tp seen es = Inr ps \<Longrightarrow>
     list_all2 (\<lambda>e p. \<exists>d. to_draft defaults e = Inr d \<and> validate d tp = Inr p) es ps \<and>
     distinct (map py_id es) \<and> set seen \<inter> set (map py_id es) = {}"
proof (induction es arbitrary: seen ps)
  case (Cons e es)
  then obtain d p ps' where step: "py_id e \<notin> set seen" "to_draft defaults e = Inr d" "validate d tp = Inr p"
      "compile_entries defaults tp (py_id e # seen) es = Inr ps'" "ps = p # ps'"
    by (auto simp: bind_res_eq_Inr map_sum_eq_Inr split: if_splits)
  with Cons.IH[OF step(4)] show ?case by auto
qed simp

lemma compile_entries_again:
  assumes "list_all (\<lambda>p. \<exists>d. to_draft defaults (entry_of_policy p) = Inr d \<and> validate d [] = Inr p) ps"
    "distinct (map dp_id ps)" "set seen \<inter> dp_id ` set ps = {}"
  shows "compile_entries defaults [] seen (map entry_of_policy ps) = Inr ps"
  using assms
proof (induction ps arbitrary: seen)
  case (Cons p ps)
  have "py_id (entry_of_policy p) = dp_id p" by (simp add: entry_of_policy_def)
  with Cons.IH[of "dp_id p # seen"] Cons.prems show ?case by auto
qed simp

lemma from_policies_again: "set_ok (acc @ m) \<Longrightarrow> from_policies_loop acc (map snd m) = Inr (acc @ m)"
proof (induction m arbitrary: acc)
  case (Cons kp m)
  obtain k p where [simp]: "kp = (k, p)" by (cases kp)
  have k: "k = dp_id p" "\<forall>k' \<in> fst ` set acc. k' < k"
    using Cons.prems by (auto simp: set_ok_def bt_ok_def sorted_wrt_append)
  then have "bt_insert k p acc = acc @ [(k, p)]" "map_of acc k = None"
    by (auto intro!: bt_insert_last simp: map_of_eq_None_iff)
  with Cons.IH[of "acc @ [(k, p)]"] Cons.prems k(1) show ?case by simp
qed simp

lemma set_ok_ids: "set_ok m \<Longrightarrow> map dp_id (map snd m) = map fst m"
  by (auto simp: set_ok_def)

lemma set_ok_keys: "set_ok m \<Longrightarrow> fst ` set m = dp_id ` snd ` set m"
  by (drule set_ok_ids, drule arg_cong[of _ _ set]) (simp add: image_image)

lemma set_ok_entry:
  assumes "set_ok m" "p \<in> snd ` set m"
  shows "map_of m (dp_id p) = Some p"
proof -
  obtain k where k: "(k, p) \<in> set m" using assms(2) by auto
  then have "k = dp_id p" using assms(1) by (auto simp: set_ok_def dest: bspec)
  moreover have "distinct (map fst m)" using assms(1) by (intro bt_ok_distinct) (simp add: set_ok_def)
  ultimately show ?thesis using k by simp
qed

lemma compile_gives:
  assumes "compile document = Inr c"
  obtains ps where "compile_entries (pdoc_defaults document) (cpl_tenant_prefixes c) [] (pdoc_policies document) = Inr ps"
    "from_policies ps = Inr (cpl_policies c)" "set_ok (cpl_policies c)" "snd ` set (cpl_policies c) = set ps"
  using assms from_policies_ok by (auto simp: compile_def bind_res_eq_Inr)

text \<open>
  Property C26. What is loaded can be written out and loaded again. When a document compiles, the document
  rendered from the loaded policies compiles too, to exactly the same policies: durations keep
  their value through the spelling with the largest unit, thresholds and defaults are spelled out,
  and identifiers stay unique.\<close>

theorem loaded_policies_round_trip:
  assumes "compile document = Inr c"
  shows "compile (to_document (map snd (cpl_policies c))) =
    Inr \<lparr>cpl_policies = cpl_policies c, cpl_tenant_prefixes = []\<rparr>"
proof -
  obtain ps where ps: "compile_entries (pdoc_defaults document) (cpl_tenant_prefixes c) [] (pdoc_policies document) = Inr ps"
      "from_policies ps = Inr (cpl_policies c)" "set_ok (cpl_policies c)" "snd ` set (cpl_policies c) = set ps"
    by (rule compile_gives[OF assms])
  let ?qs = "map snd (cpl_policies c)"
  have "\<exists>d. to_draft default_policy_defaults (entry_of_policy p) = Inr d \<and> validate d [] = Inr p" if p: "p \<in> set ps" for p
  proof -
    obtain e d where "to_draft (pdoc_defaults document) e = Inr d" "validate d (cpl_tenant_prefixes c) = Inr p"
      using list_all2_partner[OF conjunct1[OF compile_entries_gives[OF ps(1)]] p] by blast
    from validated_reloads[OF this] show ?thesis by blast
  qed
  then have all: "list_all (\<lambda>p. \<exists>d. to_draft default_policy_defaults (entry_of_policy p) = Inr d \<and> validate d [] = Inr p) ?qs"
    using ps(4) by (auto simp: list_all_iff)
  have dist: "distinct (map dp_id ?qs)" unfolding set_ok_ids[OF ps(3)] using bt_ok_distinct[of "cpl_policies c"] ps(3) by (simp add: set_ok_def)
  have "compile_entries default_policy_defaults [] [] (map entry_of_policy ?qs) = Inr ?qs"
    by (rule compile_entries_again[OF all dist]) simp
  moreover have "from_policies ?qs = Inr (cpl_policies c)"
    using from_policies_again[of "[]" "cpl_policies c"] ps(3) by (simp add: from_policies_def)
  ultimately show ?thesis
    by (simp add: compile_def to_document_def document_prefixes_def)
qed

text \<open>
  Property C39. A document is loaded whole or not at all. When a document compiles, its identifiers are
  distinct and the policy set holds exactly one policy per entry, filed under the entry's identifier
  and validated against the tenants' prefixes of the same document.\<close>

theorem documents_load_whole:
  assumes "compile document = Inr c"
  shows "distinct (map py_id (pdoc_policies document)) \<and>
    map fst (cpl_policies c) = sort (map py_id (pdoc_policies document)) \<and>
    list_all (\<lambda>e. \<exists>d p. to_draft (pdoc_defaults document) e = Inr d \<and> validate d (cpl_tenant_prefixes c) = Inr p \<and>
      map_of (cpl_policies c) (py_id e) = Some p) (pdoc_policies document)"
proof -
  obtain ps where ps: "compile_entries (pdoc_defaults document) (cpl_tenant_prefixes c) [] (pdoc_policies document) = Inr ps"
      "from_policies ps = Inr (cpl_policies c)" "set_ok (cpl_policies c)" "snd ` set (cpl_policies c) = set ps"
    by (rule compile_gives[OF assms])
  note gives = compile_entries_gives[OF ps(1)]
  have pid: "dp_id p = py_id e" if "to_draft (pdoc_defaults document) e = Inr d" "validate d (cpl_tenant_prefixes c) = Inr p" for e d p
    using validated_reloads[OF that] by blast
  have ids: "map dp_id ps = map py_id (pdoc_policies document)"
    using conjunct1[OF gives] by (induction rule: list_all2_induct) (auto dest: pid)
  have keys: "fst ` set (cpl_policies c) = dp_id ` set ps"
    unfolding set_ok_keys[OF ps(3)] ps(4) ..
  have "sorted_wrt (<) (map fst (cpl_policies c))" using ps(3) by (simp add: set_ok_def bt_ok_def)
  moreover have "set (map fst (cpl_policies c)) = set (map py_id (pdoc_policies document))"
    using keys ids by (metis set_map)
  ultimately have sorted: "map fst (cpl_policies c) = sort (map py_id (pdoc_policies document))"
    using gives by (intro sorted_distinct_set_unique) (simp_all add: strict_sorted_iff)
  have "\<exists>d p. to_draft (pdoc_defaults document) e = Inr d \<and> validate d (cpl_tenant_prefixes c) = Inr p \<and>
      map_of (cpl_policies c) (py_id e) = Some p" if e: "e \<in> set (pdoc_policies document)" for e
  proof -
    obtain d p where dp: "to_draft (pdoc_defaults document) e = Inr d" "validate d (cpl_tenant_prefixes c) = Inr p" "p \<in> set ps"
      using list_all2_partner'[OF conjunct1[OF gives] e] by blast
    have "map_of (cpl_policies c) (py_id e) = Some p"
      using set_ok_entry[OF ps(3), of p] dp(3) pid[OF dp(1,2)] ps(4) by simp
    with dp show ?thesis by blast
  qed
  with sorted gives show ?thesis by (simp add: list_all_iff)
qed

section \<open>Witnesses\<close>

definition sample_entry :: PolicyEntry where
  "sample_entry = \<lparr>py_id = lit ''p1'', py_name = lit ''host flood'', py_description = None, py_enabled = True,
     py_tenant = lit ''acme'', py_scope_type = HostScope, py_selector = SelHost (V4 0xCB007107),
     py_address_family = None, py_direction = TrafficIncoming, py_window = lit ''5s'',
     py_thresholds = [(Bps, MagnitudeText (lit ''1k'')), (TcpSynPps, MagnitudeNumber 50)], py_clear_percent = Some 100,
     py_trigger_for = lit ''10s'', py_clear_for = lit ''10s'', py_cooldown = None, py_hold_down = Some (lit ''20s''),
     py_event_update_interval = None, py_severity = None, py_execution_mode = None,
     py_priority = 0, py_labels = [], py_version = 1\<rparr>"

definition sample_document :: PolicyDocument where
  "sample_document = \<lparr>pdoc_schema_version = 1, pdoc_defaults = default_policy_defaults\<lparr>pdf_cooldown := Some (lit ''30s'')\<rparr>,
     pdoc_tenants = [\<lparr>te_tenant = lit ''acme'', te_prefixes = [lit ''203.0.113.0/24'']\<rparr>], pdoc_policies = [sample_entry]\<rparr>"

lemma sample_durations:
  "parse_duration (lit ''5s'') = Inr (secs 5)" "parse_duration (lit ''10s'') = Inr (secs 10)"
  "parse_duration (lit ''20s'') = Inr (secs 20)" "parse_duration (lit ''30s'') = Inr (secs 30)"
  using parse_rendered[of 5 "''s''" 1000] parse_rendered[of 10 "''s''" 1000] parse_rendered[of 20 "''s''" 1000]
    parse_rendered[of 30 "''s''" 1000]
  by (simp_all add: unit_millis_def lit_def show_radix.simps digit_char_def)

lemma sample_magnitude: "parse_magnitude (lit ''1k'') = Inr 1000"
  by (simp add: parse_magnitude_def Let_def trim_def is_whitespace_def lit_def ascii_digit_def parse_u64_def
      number_value_def digit_value_def unit_multiplier_def ok_or_def checked_mul_def)

lemma sample_address: "read_ipv4 (lit ''203.0.113.0'') = Some ([203, 0, 113, 0], [])"
  by code_simp

lemma sample_cidr: "parse_cidr (lit ''203.0.113.0/24'') = Inr (V4 0xCB007100, 24)"
proof -
  have parts: "takeWhile (\<lambda>c. c \<noteq> 47) (lit ''203.0.113.0/24'') = lit ''203.0.113.0''"
      "tl (dropWhile (\<lambda>c. c \<noteq> 47) (lit ''203.0.113.0/24'')) = lit ''24''" "47 \<in> set (lit ''203.0.113.0/24'')"
      "trim (lit ''203.0.113.0'') = lit ''203.0.113.0''" "trim (lit ''24'') = lit ''24''"
    by (simp_all add: lit_def trim_def is_whitespace_def)
  have "parse_ip (lit ''203.0.113.0'') = Some (V4 0xCB007100)"
    by (simp add: parse_ip_def sample_address be_value_def)
  moreover have "parse_u8 (lit ''24'') = Some 24"
    by (simp add: parse_u8_def lit_def ascii_digit_def number_value_def digit_value_def)
  ultimately show ?thesis unfolding parse_cidr_def Let_def parts by (simp add: parts ok_or_def)
qed

lemma sample_compiles: "compile sample_document = Inr \<lparr>cpl_policies = [(lit ''p1'', sample_policy)], cpl_tenant_prefixes = sample_prefixes\<rparr>"
proof -
  have "document_prefixes sample_document = Inr sample_prefixes"
    by (simp add: document_prefixes_def sample_document_def sample_prefixes_def MAX_TENANT_PREFIXES_def sample_cidr
        tenant_prefixes_insert_def)
  moreover have "to_draft (default_policy_defaults\<lparr>pdf_cooldown := Some (lit ''30s'')\<rparr>) sample_entry = Inr sample_draft"
    by (simp add: to_draft_def sample_entry_def sample_draft_def default_policy_defaults_def Let_def or_else_def unwrap_or_def
        sample_durations sample_magnitude less_MetricKind_def)
  moreover have "dp_id sample_policy = lit ''p1''" by simp
  ultimately show ?thesis
    by (simp add: compile_def sample_document_def sample_validates from_policies_def)
qed

theorem loaded_policies_round_trip_witness:
  "compile sample_document = Inr \<lparr>cpl_policies = [(lit ''p1'', sample_policy)], cpl_tenant_prefixes = sample_prefixes\<rparr> \<and>
   compile (to_document [sample_policy]) = Inr \<lparr>cpl_policies = [(lit ''p1'', sample_policy)], cpl_tenant_prefixes = []\<rparr>"
  using loaded_policies_round_trip[OF sample_compiles] sample_compiles by simp

theorem documents_load_whole_witness:
  "\<exists>d p. to_draft (pdoc_defaults sample_document) sample_entry = Inr d \<and> validate d sample_prefixes = Inr p \<and>
     map_of [(lit ''p1'', sample_policy)] (py_id sample_entry) = Some p"
proof -
  have "pdoc_policies sample_document = [sample_entry]" by (simp add: sample_document_def)
  with documents_load_whole[OF sample_compiles] show ?thesis by auto
qed

end
