(* ===== verification/Incident_Domain.thy ===== *)
theory Incident_Domain
  imports Authorization Detection_Event "HOL-Library.Option_ord"
begin

text \<open>
  The incident domain (\<open>src/crates/incident/src\<close>): the state machine with its two sets of legal edges
  (\<open>state.rs\<close>), timestamps (\<open>durable_time.rs\<close>), the closure and reopen policies, suppression, evidence,
  categories, numbers, manual requests, commands, the incident record itself and the decisions of
  \<open>transition.rs\<close>. A timestamp is its microseconds as an integer, with the bounds of \<open>i64\<close> checked
  where the code checks them; a \<open>Duration\<close> is its nanoseconds; a wall-clock reading is its nanoseconds
  relative to the epoch and may be negative. Sets of metrics are sorted lists.
\<close>

section \<open>States\<close>

datatype IncidentState = Open | Acknowledged | Investigating | Monitoring | Recovering | Resolved | Closed

fun can_automatic_transition_to :: "IncidentState \<Rightarrow> IncidentState \<Rightarrow> bool" where
  "can_automatic_transition_to Open Recovering = True"
| "can_automatic_transition_to Acknowledged Recovering = True"
| "can_automatic_transition_to Investigating Recovering = True"
| "can_automatic_transition_to Monitoring Recovering = True"
| "can_automatic_transition_to Recovering Resolved = True"
| "can_automatic_transition_to Recovering Open = True"
| "can_automatic_transition_to Recovering Acknowledged = True"
| "can_automatic_transition_to Recovering Investigating = True"
| "can_automatic_transition_to Recovering Monitoring = True"
| "can_automatic_transition_to Resolved Closed = True"
| "can_automatic_transition_to Resolved Open = True"
| "can_automatic_transition_to Closed Open = True"
| "can_automatic_transition_to _ _ = False"

fun can_operator_transition_to :: "IncidentState \<Rightarrow> IncidentState \<Rightarrow> bool" where
  "can_operator_transition_to Open Acknowledged = True"
| "can_operator_transition_to Open Investigating = True"
| "can_operator_transition_to Acknowledged Investigating = True"
| "can_operator_transition_to Monitoring Investigating = True"
| "can_operator_transition_to Acknowledged Monitoring = True"
| "can_operator_transition_to Investigating Monitoring = True"
| "can_operator_transition_to Open Resolved = True"
| "can_operator_transition_to Acknowledged Resolved = True"
| "can_operator_transition_to Investigating Resolved = True"
| "can_operator_transition_to Monitoring Resolved = True"
| "can_operator_transition_to Recovering Resolved = True"
| "can_operator_transition_to Resolved Closed = True"
| "can_operator_transition_to Resolved Open = True"
| "can_operator_transition_to Closed Open = True"
| "can_operator_transition_to _ _ = False"

section \<open>Errors\<close>

datatype CorrelationConflict = OpenIncidentAlreadyExists IncidentId | ReopenTargetChanged

datatype IncidentError =
  NotFound
| InvalidTransition IncidentState IncidentState
| VersionConflict u64 u64 IncidentState
| IdempotencyConflict
| TenantMismatch
| Unauthorized
| ValidationError rust_str
| CapacityExceeded string
| DuplicateActiveIncident IncidentId
| InvalidReopen rust_str
| ManualClosureRequired
| SuppressedOperation
| EvidenceUnavailable
| InternalInvariantViolation string
| StateUnchanged IncidentState
| CorruptSnapshot string string
| ClockSkew int int
| Correlation CorrelationConflict

section \<open>Timestamps\<close>

type_synonym DurableTimestamp = int

definition i64_max :: int where
  "i64_max = 2 ^ 63 - 1"

definition out_of_range :: IncidentError where
  "out_of_range = ValidationError (lit ''timestamp is out of range'')"

definition from_system_time :: "int \<Rightarrow> IncidentError + DurableTimestamp" where
  "from_system_time wall =
     (if wall \<ge> 0 then
        (let micros = wall div 1000 in if micros \<le> i64_max then Inr micros else Inl out_of_range)
      else
        (let magnitude = - wall; whole = magnitude div 1000 in
         if whole > i64_max then Inl out_of_range
         else let down = whole + (if magnitude mod 1000 \<noteq> 0 then 1 else 0) in
              if down > i64_max then Inl out_of_range else Inr (- down)))"

definition checked_plus :: "DurableTimestamp \<Rightarrow> nat \<Rightarrow> DurableTimestamp option" where
  "checked_plus t duration =
     (let added = int (duration div 1000) in
      if added > i64_max then None
      else if t + added > i64_max then None else Some (t + added))"

text \<open>The subtraction of two \<open>i64\<close> wraps in a release build; the result is then negative and
  \<open>micros_to_duration\<close> reads it as zero.\<close>

definition checked_elapsed_since :: "DurableTimestamp \<Rightarrow> DurableTimestamp \<Rightarrow> IncidentError + nat" where
  "checked_elapsed_since now earlier =
     (if now < earlier then Inl (ClockSkew earlier now)
      else let d = now - earlier; d = (if d > i64_max then d - 2 ^ 64 else d)
           in Inr (nat (max d 0) * 1000))"

section \<open>Policies\<close>

datatype Priority = P1 | P2 | P3 | P4

primrec default_for :: "Severity \<Rightarrow> Priority" where
  "default_for Critical = P1"
| "default_for Major = P2"
| "default_for Minor = P3"
| "default_for Info = P4"

primrec priority_as_str :: "Priority \<Rightarrow> string" where
  "priority_as_str P1 = ''P1''"
| "priority_as_str P2 = ''P2''"
| "priority_as_str P3 = ''P3''"
| "priority_as_str P4 = ''P4''"

datatype SeveritySource = FromDetection | FromOperator

primrec severity_rank :: "Severity \<Rightarrow> nat" where
  "severity_rank Info = 0"
| "severity_rank Minor = 1"
| "severity_rank Major = 2"
| "severity_rank Critical = 3"

record ClosurePolicy =
  cp_critical_manual_closure_required :: bool
  cp_automatic_closure_enabled :: bool
  cp_automatic_closure_delay :: nat

definition default_closure_policy :: ClosurePolicy where
  "default_closure_policy = \<lparr>cp_critical_manual_closure_required = True,
     cp_automatic_closure_enabled = True, cp_automatic_closure_delay = 30 * 60 * 1000000000\<rparr>"

definition allows_automatic_closure :: "ClosurePolicy \<Rightarrow> Severity \<Rightarrow> bool" where
  "allows_automatic_closure p severity =
     (if \<not> cp_automatic_closure_enabled p then False
      else if severity = Critical \<and> cp_critical_manual_closure_required p then False
      else True)"

datatype ClosureReason =
  ReasonResolved | FalsePositive | ReasonDuplicate | ExpectedTraffic | NoActionRequired | ReasonOther

record ReopenPolicy =
  ro_window :: nat

definition new_reopen_policy :: "nat \<Rightarrow> nat + ReopenPolicy" where
  "new_reopen_policy window =
     (if window > 24 * 60 * 60 * 1000000000 then Inl window else Inr \<lparr>ro_window = window\<rparr>)"

definition default_reopen_policy :: ReopenPolicy where
  "default_reopen_policy = \<lparr>ro_window = 15 * 60 * 1000000000\<rparr>"

definition reopens :: "ReopenPolicy \<Rightarrow> DurableTimestamp \<Rightarrow> DurableTimestamp \<Rightarrow> IncidentError + bool" where
  "reopens p closed_or_resolved_at now =
     (if ro_window p = 0 then Inr False
      else bind_res (checked_elapsed_since now closed_or_resolved_at) (\<lambda>elapsed. Inr (elapsed \<le> ro_window p)))"

record Suppression =
  su_deadline :: DurableTimestamp
  su_reason :: rust_str
  su_by :: Actor

definition SUPPRESSION_REASON_MAX_LEN :: nat where
  "SUPPRESSION_REASON_MAX_LEN = 500"

definition validate_suppression_reason :: "rust_str \<Rightarrow> IncidentError + unit" where
  "validate_suppression_reason reason =
     (if length reason > SUPPRESSION_REASON_MAX_LEN
      then Inl (ValidationError (lit ''suppression reason exceeds 500 characters'')) else Inr ())"

section \<open>Categories, evidence and numbers\<close>

datatype IncidentCategory =
  TcpSynFlood | FragmentationFlood | IcmpFlood | UdpFlood | TcpFlood | PacketRate | Bandwidth
| DropPressure | MultiVector | Unclassified

definition derive_category :: "MetricKind list \<Rightarrow> IncidentCategory" where
  "derive_category matched =
     (let has_tcp_syn = (TcpSynBps \<in> set matched \<or> TcpSynPps \<in> set matched);
          has_fragmentation = (FragmentedBps \<in> set matched \<or> FragmentedPps \<in> set matched);
          has_icmp = (IcmpBps \<in> set matched \<or> IcmpPps \<in> set matched);
          has_udp = (UdpBps \<in> set matched \<or> UdpPps \<in> set matched);
          has_tcp = (TcpBps \<in> set matched \<or> TcpPps \<in> set matched \<or> has_tcp_syn);
          has_drop = (DroppedBps \<in> set matched \<or> DroppedPps \<in> set matched);
          has_generic_rate = (Pps \<in> set matched \<or> Fps \<in> set matched);
          has_bandwidth = (Bps \<in> set matched);
          families_crossed = length (filter id [has_tcp, has_udp, has_icmp])
      in if families_crossed \<ge> 2 then MultiVector
         else if has_tcp_syn then TcpSynFlood
         else if has_fragmentation then FragmentationFlood
         else if has_icmp then IcmpFlood
         else if has_udp then UdpFlood
         else if has_tcp then TcpFlood
         else if has_generic_rate then PacketRate
         else if has_bandwidth then Bandwidth
         else if has_drop then DropPressure
         else Unclassified)"

datatype EvidenceLinkType = LinkOpening | LinkUpdate | LinkClosing | LinkLate

record EvidenceReference =
  vd_detection_event_id :: rust_str
  vd_dedup_key :: rust_str
  vd_detection_id :: rust_str
  vd_link_type :: EvidenceLinkType
  vd_matched_metrics :: "MetricKind list"

record EvidenceLedger =
  lg_retained :: "EvidenceReference list"
  lg_observed_total :: u64

definition EVIDENCE_RETAINED_LIMIT :: nat where
  "EVIDENCE_RETAINED_LIMIT = 10000"

definition new_ledger :: EvidenceLedger where
  "new_ledger = \<lparr>lg_retained = [], lg_observed_total = 0\<rparr>"

definition record_evidence :: "EvidenceReference \<Rightarrow> EvidenceLedger \<Rightarrow> EvidenceLedger" where
  "record_evidence reference l =
     (let l = l\<lparr>lg_observed_total := saturating_add (lg_observed_total l) 1\<rparr>
      in if length (lg_retained l) < EVIDENCE_RETAINED_LIMIT
         then l\<lparr>lg_retained := lg_retained l @ [reference]\<rparr> else l)"

type_synonym IncidentNumber = rust_str

definition pad6 :: "string \<Rightarrow> string" where
  "pad6 s = replicate (6 - length s) (CHR ''0'') @ s"

definition from_sequence :: "u32 \<Rightarrow> u64 \<Rightarrow> IncidentNumber" where
  "from_sequence allocation_year sequence =
     (if sequence \<le> 999999
      then lit (''WNM-'' @ show_nat (unat allocation_year) @ ''-'' @ pad6 (show_nat (unat sequence)))
      else lit (''WNM-'' @ show_nat (unat allocation_year) @ ''-'' @ show_nat (unat sequence)))"

definition allocate_number ::
    "rust_str \<Rightarrow> u32 \<Rightarrow> (rust_str \<times> u64) list \<Rightarrow> (IncidentError + IncidentNumber) \<times> (rust_str \<times> u64) list" where
  "allocate_number tenant allocation_year counters =
     (let current = (case map_of counters tenant of None \<Rightarrow> 0 | Some n \<Rightarrow> n);
          counters = AList.update tenant current counters
      in if current = - 1 then (Inl (CapacityExceeded ''incident number counter exhausted''), counters)
         else (Inr (from_sequence allocation_year (current + 1)), AList.update tenant (current + 1) counters))"

section \<open>The incident\<close>

datatype Assignee = AssignedUser rust_str | AssignedTeam rust_str

record CorrelationKey =
  ck_tenant :: TenantId
  ck_target_type :: ScopeType
  ck_target_identity :: ScopeId
  ck_direction :: TrafficDirection
  ck_address_family :: AddressFamily

datatype NoteVisibility = Internal | CustomerVisible

record NoteRedaction =
  nr_by :: Actor
  nr_reason :: rust_str

record Note =
  nt_index :: u32
  nt_body :: rust_str
  nt_visibility :: NoteVisibility
  nt_created_by :: Actor
  nt_supersedes :: "u32 option"
  nt_redaction :: "NoteRedaction option"

definition new_note :: "u32 \<Rightarrow> rust_str \<Rightarrow> NoteVisibility \<Rightarrow> Actor \<Rightarrow> Note" where
  "new_note index body visibility created_by =
     \<lparr>nt_index = index, nt_body = body, nt_visibility = visibility, nt_created_by = created_by,
      nt_supersedes = None, nt_redaction = None\<rparr>"

record PolicyRef =
  pf_policy_id :: rust_str
  pf_policy_version :: u32
  pf_first_seen_sequence :: u64
  pf_last_seen_sequence :: u64

record Incident =
  ic_incident_id :: IncidentId
  ic_incident_number :: IncidentNumber
  ic_schema_version :: u32
  ic_tenant_id :: TenantId
  ic_correlation_key :: CorrelationKey
  ic_address_family :: AddressFamily
  ic_direction :: TrafficDirection
  ic_target_type :: ScopeType
  ic_target_identity :: ScopeId
  ic_created_by :: Actor
  ic_title :: rust_str
  ic_description :: "rust_str option"
  ic_state :: IncidentState
  ic_severity :: Severity
  ic_severity_source :: SeveritySource
  ic_ever_critical :: bool
  ic_maximum_detected_severity :: Severity
  ic_priority :: Priority
  ic_closure_reason :: "ClosureReason option"
  ic_state_before_recovering :: "IncidentState option"
  ic_suppression :: "Suppression option"
  ic_version :: u64
  ic_category :: IncidentCategory
  ic_matched_metrics :: "MetricKind list"
  ic_first_detected_at :: DurableTimestamp
  ic_opened_at :: DurableTimestamp
  ic_last_detected_at :: DurableTimestamp
  ic_last_updated_at :: DurableTimestamp
  ic_acknowledged_at :: "DurableTimestamp option"
  ic_recovering_since :: "DurableTimestamp option"
  ic_resolved_at :: "DurableTimestamp option"
  ic_closed_at :: "DurableTimestamp option"
  ic_reopened_at :: "DurableTimestamp option"
  ic_reopen_count :: u32
  ic_assignment :: "Assignee option"
  ic_updated_by :: Actor
  ic_evidence :: EvidenceLedger
  ic_notes :: "Note list"
  ic_tags :: "(rust_str \<times> rust_str) list"
  ic_policy_refs :: "PolicyRef list"
  ic_policy_refs_omitted :: u64

definition is_reopen_candidate :: "Incident \<Rightarrow> bool" where
  "is_reopen_candidate i = (ic_state i = Resolved \<or> ic_state i = Closed)"

definition reopen_reference_timestamp :: "Incident \<Rightarrow> DurableTimestamp option" where
  "reopen_reference_timestamp i =
     (case ic_state i of Resolved \<Rightarrow> ic_resolved_at i | Closed \<Rightarrow> ic_closed_at i | _ \<Rightarrow> None)"

definition NOTES_PER_INCIDENT_MAX :: nat where "NOTES_PER_INCIDENT_MAX = 500"
definition NOTE_BODY_MAX_LEN :: nat where "NOTE_BODY_MAX_LEN = 16000"
definition NOTE_REDACTION_REASON_MAX_LEN :: nat where "NOTE_REDACTION_REASON_MAX_LEN = 500"
definition TAGS_PER_INCIDENT_MAX :: nat where "TAGS_PER_INCIDENT_MAX = 32"
definition TAG_KEY_MAX_LEN :: nat where "TAG_KEY_MAX_LEN = 64"
definition TAG_VALUE_MAX_LEN :: nat where "TAG_VALUE_MAX_LEN = 256"
definition POLICY_REFS_MAX :: nat where "POLICY_REFS_MAX = 64"
definition TITLE_MAX_LEN :: nat where "TITLE_MAX_LEN = 200"
definition DESCRIPTION_MAX_LEN :: nat where "DESCRIPTION_MAX_LEN = 8000"

definition note_superseded_by :: "Incident \<Rightarrow> u32 \<Rightarrow> u32 option" where
  "note_superseded_by i index = map_option nt_index (find (\<lambda>n. nt_supersedes n = Some index) (ic_notes i))"

definition validate_note_body :: "rust_str \<Rightarrow> IncidentError + unit" where
  "validate_note_body body =
     (if length body > NOTE_BODY_MAX_LEN
      then Inl (ValidationError (lit ''note body exceeds 16000 characters'')) else Inr ())"

definition validate_redaction_reason :: "rust_str \<Rightarrow> IncidentError + unit" where
  "validate_redaction_reason reason =
     (if trim reason = [] then Inl (ValidationError (lit ''a redaction needs a reason''))
      else if length reason > NOTE_REDACTION_REASON_MAX_LEN
      then Inl (ValidationError (lit ''redaction reason exceeds 500 characters'')) else Inr ())"

section \<open>Manual requests\<close>

record ManualIncident =
  mi_title :: rust_str
  mi_description :: "rust_str option"
  mi_severity :: Severity
  mi_priority :: "Priority option"
  mi_target_type :: ScopeType
  mi_target_identity :: ScopeId
  mi_direction :: TrafficDirection
  mi_address_family :: AddressFamily

primrec max_prefix :: "AddressFamily \<Rightarrow> u8" where
  "max_prefix Ipv4 = 32"
| "max_prefix Ipv6 = 128"

primrec is_network_address :: "IpAddr \<Rightarrow> u8 \<Rightarrow> bool" where
  "is_network_address (V4 bits) prefix_len =
     (prefix_len \<ge> 32 \<or> and bits (drop_bit (unat prefix_len) (- 1)) = 0)"
| "is_network_address (V6 bits) prefix_len =
     (prefix_len \<ge> 128 \<or> and bits (drop_bit (unat prefix_len) (- 1)) = 0)"

definition manual_target_ok :: "ManualIncident \<Rightarrow> bool" where
  "manual_target_ok r =
     (case (mi_target_type r, mi_target_identity r) of
        (HostScope, HostId addr) \<Rightarrow> family_of addr = mi_address_family r
      | (PrefixScope, NetworkId addr prefix_len) \<Rightarrow>
          family_of addr = mi_address_family r \<and> prefix_len \<le> max_prefix (mi_address_family r)
      | (Slash24, NetworkId addr prefix_len) \<Rightarrow>
          prefix_len = 24 \<and> (case addr of V4 _ \<Rightarrow> True | V6 _ \<Rightarrow> False) \<and>
          mi_address_family r = Ipv4 \<and> is_network_address addr 24
      | (HostgroupTotal, HostgroupId name) \<Rightarrow> trim name \<noteq> [] \<and> length name \<le> 128
      | _ \<Rightarrow> False)"

definition validate_manual :: "ManualIncident \<Rightarrow> IncidentError + unit" where
  "validate_manual r =
     (let invalid = (\<lambda>detail. Inl (ValidationError (lit detail))) in
      if trim (mi_title r) = [] then invalid ''the title is required''
      else if length (mi_title r) > TITLE_MAX_LEN then invalid ''the title is longer than 200 characters''
      else if (case mi_description r of None \<Rightarrow> False | Some d \<Rightarrow> length d > DESCRIPTION_MAX_LEN)
      then invalid ''the description is longer than 8000 characters''
      else if mi_direction r = TrafficOther \<or> mi_direction r = TrafficUnknown
      then invalid ''the direction must be incoming, outgoing or internal''
      else if manual_target_ok r then Inr ()
      else invalid ''the target type, target and address family do not agree'')"

definition manual_correlation_key :: "ManualIncident \<Rightarrow> TenantId \<Rightarrow> CorrelationKey" where
  "manual_correlation_key r tenant =
     \<lparr>ck_tenant = tenant, ck_target_type = mi_target_type r, ck_target_identity = mi_target_identity r,
      ck_direction = mi_direction r, ck_address_family = mi_address_family r\<rparr>"

section \<open>Causes, timeline, audit and outbox\<close>

datatype AutomaticCause =
  AutoTrafficCleared | AutoDetectorStale | AutoDetectorSilent | AutoPolicyWithdrawn | AutoDetectorReset
| RecoveryConfirmed | RecoveryAborted | AutomaticClosure | ReopenedByRecurrence

datatype DetectionEndReason =
  EndTrafficCleared | EndDetectorStale | EndDetectorSilent | EndPolicyWithdrawn | EndDetectorReset

primrec cause_of_end :: "DetectionEndReason \<Rightarrow> AutomaticCause" where
  "cause_of_end EndTrafficCleared = AutoTrafficCleared"
| "cause_of_end EndDetectorStale = AutoDetectorStale"
| "cause_of_end EndDetectorSilent = AutoDetectorSilent"
| "cause_of_end EndPolicyWithdrawn = AutoPolicyWithdrawn"
| "cause_of_end EndDetectorReset = AutoDetectorReset"

datatype OperatorCommandKind =
  KindAcknowledge | KindBeginInvestigation | KindMarkMonitoring | KindResolve | KindClose | KindReopen
| KindSuppress | KindUnsuppress | KindAssign | KindUnassign | KindClaim | KindRelease | KindAddNote
| KindEditNote | KindRedactNote | KindChangeSeverity | KindChangePriority | KindAddTag | KindRemoveTag
| KindUpdateDetails

datatype TransitionCause = Automatic AutomaticCause | ByOperator OperatorCommandKind

datatype NotificationOutcome = Delivered | DeliveryFailed | Refused

datatype TimelinePayload =
  Opened
| EventLinked EvidenceReference
| LateEventLinked EvidenceReference
| DuplicateIgnored rust_str
| StateChanged IncidentState IncidentState TransitionCause
| CategoryChanged IncidentCategory IncidentCategory
| SeverityChanged Severity Severity "rust_str option"
| PriorityChanged Priority Priority
| AssignmentChanged "Assignee option" "Assignee option"
| NoteAdded u32
| NoteSuperseded u32 u32
| NoteRedacted u32
| Suppressed rust_str
| Unsuppressed
| Reopened u32 "IncidentId option" "rust_str option"
| LimitReached rust_str
| TagAdded rust_str rust_str
| TagRemoved rust_str
| NotificationResult rust_str rust_str NotificationOutcome

record TimelineEntry =
  tl_schema_version :: u32
  tl_sequence :: u64
  tl_incident_id :: IncidentId
  tl_actor :: Actor
  tl_payload :: TimelinePayload

datatype AttemptedResource = IncidentResource IncidentId | Unresolved rust_str

datatype AuditOutcome = AuditAllowed | AuditDenied

record FieldChange =
  fc_field :: rust_str
  fc_before :: rust_str
  fc_after :: rust_str

record AuditEntry =
  au_schema_version :: u32
  au_sequence :: u64
  au_tenant :: TenantId
  au_actor :: Actor
  au_permission :: Permission
  au_resource :: AttemptedResource
  au_outcome :: AuditOutcome
  au_reason :: "rust_str option"
  au_change :: "FieldChange option"

definition audit_allowed :: "u64 \<Rightarrow> TenantId \<Rightarrow> Actor \<Rightarrow> Permission \<Rightarrow> IncidentId \<Rightarrow> AuditEntry" where
  "audit_allowed sequence tenant actor permission resource =
     \<lparr>au_schema_version = 1, au_sequence = sequence, au_tenant = tenant, au_actor = actor,
      au_permission = permission, au_resource = IncidentResource resource, au_outcome = AuditAllowed,
      au_reason = None, au_change = None\<rparr>"

definition audit_denied ::
    "u64 \<Rightarrow> TenantId \<Rightarrow> Actor \<Rightarrow> Permission \<Rightarrow> AttemptedResource \<Rightarrow> string \<Rightarrow> AuditEntry" where
  "audit_denied sequence tenant actor permission resource reason =
     \<lparr>au_schema_version = 1, au_sequence = sequence, au_tenant = tenant, au_actor = actor,
      au_permission = permission, au_resource = resource, au_outcome = AuditDenied,
      au_reason = Some (lit reason), au_change = None\<rparr>"

definition with_change :: "string \<Rightarrow> string \<Rightarrow> string \<Rightarrow> rust_str option \<Rightarrow> AuditEntry \<Rightarrow> AuditEntry" where
  "with_change field before after reason entry =
     entry\<lparr>au_change := Some \<lparr>fc_field = lit field, fc_before = lit before, fc_after = lit after\<rparr>,
       au_reason := reason\<rparr>"

datatype OutboxEvent =
  IncidentOpened | IncidentUpdated | IncidentAcknowledged | IncidentStateChanged IncidentState IncidentState
| IncidentRecovering | IncidentResolved | IncidentClosed | IncidentReopened u32
| IncidentAssignmentChanged | IncidentSeverityChanged Severity Severity
| IncidentPriorityChanged Priority Priority | IncidentSuppressionChanged bool

record OutboxMessage =
  ob_schema_version :: u32
  ob_sequence :: u64
  ob_tenant :: TenantId
  ob_incident_id :: IncidentId
  ob_event :: OutboxEvent

section \<open>Commands\<close>

datatype Command =
  AcknowledgeIncident u64
| BeginInvestigation u64
| MarkMonitoring u64
| ResolveIncident u64 "rust_str option"
| CloseIncident u64 ClosureReason "rust_str option"
| ReopenIncident u64 rust_str
| SuppressIncident u64 rust_str nat
| UnsuppressIncident u64
| AssignIncident u64 Assignee
| UnassignIncident u64
| ChangeSeverity u64 Severity "rust_str option"
| ChangePriority u64 Priority
| AddNote rust_str NoteVisibility
| EditNote u32 rust_str
| RedactNote u32 rust_str
| AddTag rust_str rust_str
| RemoveTag rust_str

primrec command_kind :: "Command \<Rightarrow> OperatorCommandKind" where
  "command_kind (AcknowledgeIncident _) = KindAcknowledge"
| "command_kind (BeginInvestigation _) = KindBeginInvestigation"
| "command_kind (MarkMonitoring _) = KindMarkMonitoring"
| "command_kind (ResolveIncident _ _) = KindResolve"
| "command_kind (CloseIncident _ _ _) = KindClose"
| "command_kind (ReopenIncident _ _) = KindReopen"
| "command_kind (SuppressIncident _ _ _) = KindSuppress"
| "command_kind (UnsuppressIncident _) = KindUnsuppress"
| "command_kind (AssignIncident _ _) = KindAssign"
| "command_kind (UnassignIncident _) = KindUnassign"
| "command_kind (ChangeSeverity _ _ _) = KindChangeSeverity"
| "command_kind (ChangePriority _ _) = KindChangePriority"
| "command_kind (AddNote _ _) = KindAddNote"
| "command_kind (EditNote _ _) = KindEditNote"
| "command_kind (RedactNote _ _) = KindRedactNote"
| "command_kind (AddTag _ _) = KindAddTag"
| "command_kind (RemoveTag _) = KindRemoveTag"

primrec required_permission :: "Command \<Rightarrow> Permission" where
  "required_permission (AcknowledgeIncident _) = IncidentAcknowledge"
| "required_permission (BeginInvestigation _) = IncidentInvestigate"
| "required_permission (MarkMonitoring _) = IncidentInvestigate"
| "required_permission (ResolveIncident _ _) = IncidentResolve"
| "required_permission (CloseIncident _ _ _) = IncidentClose"
| "required_permission (ReopenIncident _ _) = IncidentReopen"
| "required_permission (SuppressIncident _ _ _) = IncidentSuppress"
| "required_permission (UnsuppressIncident _) = IncidentSuppress"
| "required_permission (AssignIncident _ _) = IncidentAssign"
| "required_permission (UnassignIncident _) = IncidentAssign"
| "required_permission (ChangeSeverity _ _ _) = IncidentSeverityChange"
| "required_permission (ChangePriority _ _) = IncidentPriorityChange"
| "required_permission (AddNote _ _) = IncidentNoteCreate"
| "required_permission (EditNote _ _) = IncidentNoteCreate"
| "required_permission (RedactNote _ _) = IncidentNoteRedact"
| "required_permission (AddTag _ _) = IncidentUpdate"
| "required_permission (RemoveTag _) = IncidentUpdate"

primrec expected_version :: "Command \<Rightarrow> u64 option" where
  "expected_version (AcknowledgeIncident v) = Some v"
| "expected_version (BeginInvestigation v) = Some v"
| "expected_version (MarkMonitoring v) = Some v"
| "expected_version (ResolveIncident v _) = Some v"
| "expected_version (CloseIncident v _ _) = Some v"
| "expected_version (ReopenIncident v _) = Some v"
| "expected_version (SuppressIncident v _ _) = Some v"
| "expected_version (UnsuppressIncident v) = Some v"
| "expected_version (AssignIncident v _) = Some v"
| "expected_version (UnassignIncident v) = Some v"
| "expected_version (ChangeSeverity v _ _) = Some v"
| "expected_version (ChangePriority v _) = Some v"
| "expected_version (AddNote _ _) = None"
| "expected_version (EditNote _ _) = None"
| "expected_version (RedactNote _ _) = None"
| "expected_version (AddTag _ _) = None"
| "expected_version (RemoveTag _) = None"

section \<open>Transition decisions\<close>

definition decide_enter_recovering :: "Incident \<Rightarrow> DetectionEndReason \<Rightarrow> IncidentError + IncidentState" where
  "decide_enter_recovering i reason =
     (if \<not> can_automatic_transition_to (ic_state i) Recovering
      then Inl (InvalidTransition (ic_state i) Recovering) else Inr Recovering)"

definition decide_confirm_recovery :: "Incident \<Rightarrow> IncidentError + unit" where
  "decide_confirm_recovery i =
     (if ic_state i \<noteq> Recovering then Inl (InvalidTransition (ic_state i) Resolved) else Inr ())"

definition decide_abort_recovery :: "Incident \<Rightarrow> IncidentError + IncidentState" where
  "decide_abort_recovery i =
     (if ic_state i \<noteq> Recovering
      then Inl (InvalidTransition (ic_state i)
             (case ic_state_before_recovering i of None \<Rightarrow> Open | Some s \<Rightarrow> s))
      else ok_or (ic_state_before_recovering i)
             (InternalInvariantViolation ''Recovering incident has no state_before_recovering''))"

definition decide_automatic_closure :: "Incident \<Rightarrow> ClosurePolicy \<Rightarrow> IncidentError + unit" where
  "decide_automatic_closure i policy =
     (if ic_state i \<noteq> Resolved then Inl (InvalidTransition (ic_state i) Closed)
      else let effective_severity = (if ic_ever_critical i then Critical else ic_severity i)
           in if \<not> allows_automatic_closure policy effective_severity then Inl ManualClosureRequired
              else Inr ())"

definition evaluate_reopen :: "Incident \<Rightarrow> ReopenPolicy \<Rightarrow> DurableTimestamp \<Rightarrow> IncidentError + bool" where
  "evaluate_reopen i policy now =
     (if \<not> is_reopen_candidate i
      then Inl (InvalidReopen (lit ''only a Resolved or Closed incident may reopen''))
      else bind_res (ok_or (reopen_reference_timestamp i) (InternalInvariantViolation
             ''a Resolved or Closed incident must have resolved_at or closed_at set''))
           (\<lambda>reference. reopens policy reference now))"

end
