(* ===== verification/Unit_Of_Work.thy ===== *)
theory Unit_Of_Work
  imports Incident_Domain
begin

text \<open>
  The incident store and the unit of work over it (\<open>src/crates/incident/src/store.rs\<close>,
  \<open>idempotency.rs\<close> and \<open>unit_of_work.rs\<close>): ingestion of detection events, manual incidents, the
  automatic recovery and closure steps and every operator command, with all that they write to the
  timeline, the audit log and the outbox. An operation maps the state to a result and a new state.
  The boxed trait objects are part of the state: the clock and the identifier generator are the
  sequences of answers they give, with the number of answers already taken, and the JSON encoding of
  a request is a function. \<open>expect\<close> on a missing incident is a panic. The fault-injection hook compiled
  into tests only is left out.
\<close>

section \<open>The store\<close>

datatype StoredOutcome = Mutated IncidentId u64 | Failed IncidentError

record IdempotencyRecord =
  idr_fingerprint :: "u8 list"
  idr_outcome :: StoredOutcome

datatype IdempotencyCheck = CheckNew | CheckReplay StoredOutcome | CheckConflict

type_synonym IdempotencyKey = rust_str

definition new_idempotency_key :: "rust_str \<Rightarrow> nat + IdempotencyKey" where
  "new_idempotency_key value =
     (if 16 \<le> length (utf8 value) \<and> length (utf8 value) \<le> 255 then Inr value else Inl (length (utf8 value)))"

type_synonym IdempotencyStore = "((TenantId \<times> IdempotencyKey) \<times> IdempotencyRecord) list"

definition idempotency_check ::
    "TenantId \<Rightarrow> IdempotencyKey \<Rightarrow> u8 list \<Rightarrow> IdempotencyStore \<Rightarrow> IdempotencyCheck" where
  "idempotency_check tenant key fingerprint records =
     (case map_of records (tenant, key) of
        None \<Rightarrow> CheckNew
      | Some record \<Rightarrow> if idr_fingerprint record = fingerprint then CheckReplay (idr_outcome record) else CheckConflict)"

definition idempotency_record ::
    "TenantId \<Rightarrow> IdempotencyKey \<Rightarrow> u8 list \<Rightarrow> StoredOutcome \<Rightarrow> IdempotencyStore \<Rightarrow> IdempotencyStore" where
  "idempotency_record tenant key fingerprint outcome records =
     AList.update (tenant, key) \<lparr>idr_fingerprint = fingerprint, idr_outcome = outcome\<rparr> records"

text \<open>What is fingerprinted: a command with its incident, or a request for a manual incident.\<close>

datatype Request = CommandRequest IncidentId Command | ManualRequest ManualIncident

record InMemoryIncidentStore =
  sto_incidents :: "(IncidentId \<times> Incident) list"
  sto_open_index :: "(CorrelationKey \<times> IncidentId) list"
  sto_dedup_seen :: "((TenantId \<times> rust_str) \<times> IncidentId) list"
  sto_timeline :: "TimelineEntry list"
  sto_audit :: "AuditEntry list"
  sto_outbox :: "OutboxMessage list"
  sto_idempotency :: IdempotencyStore

definition new_incident_store :: InMemoryIncidentStore where
  "new_incident_store = \<lparr>sto_incidents = [], sto_open_index = [], sto_dedup_seen = [], sto_timeline = [],
     sto_audit = [], sto_outbox = [], sto_idempotency = []\<rparr>"

definition reopen_candidate :: "CorrelationKey \<Rightarrow> TenantId \<Rightarrow> InMemoryIncidentStore \<Rightarrow> Incident option" where
  "reopen_candidate key tenant s =
     max_by_key reopen_reference_timestamp
       (filter (\<lambda>i. ic_tenant_id i = tenant)
         (filter (\<lambda>i. ic_correlation_key i = key \<and> is_reopen_candidate i) (map snd (sto_incidents s))))"

section \<open>The state and its primitive steps\<close>

record Uow =
  uw_store :: InMemoryIncidentStore
  uw_timeline_sequence :: u64
  uw_audit_sequence :: u64
  uw_outbox_sequence :: u64
  uw_ids :: "nat \<Rightarrow> IncidentError + IncidentId"
  uw_generated :: nat
  uw_counters :: "(rust_str \<times> u64) list"
  uw_allocation_year :: u32
  uw_clock :: "nat \<Rightarrow> int"
  uw_reads :: nat
  uw_closure_policy :: ClosurePolicy
  uw_reopen_policy :: ReopenPolicy
  uw_encode :: "Request \<Rightarrow> u8 list"

definition new_uow ::
    "(nat \<Rightarrow> IncidentError + IncidentId) \<Rightarrow> (nat \<Rightarrow> int) \<Rightarrow> (Request \<Rightarrow> u8 list) \<Rightarrow> Uow" where
  "new_uow ids clock encode =
     \<lparr>uw_store = new_incident_store, uw_timeline_sequence = 0, uw_audit_sequence = 0,
      uw_outbox_sequence = 0, uw_ids = ids, uw_generated = 0, uw_counters = [],
      uw_allocation_year = 2026, uw_clock = clock, uw_reads = 0,
      uw_closure_policy = default_closure_policy, uw_reopen_policy = default_reopen_policy,
      uw_encode = encode\<rparr>"

definition with_policies :: "ClosurePolicy \<Rightarrow> ReopenPolicy \<Rightarrow> Uow \<Rightarrow> Uow" where
  "with_policies closure_policy reopen_policy u =
     u\<lparr>uw_closure_policy := closure_policy, uw_reopen_policy := reopen_policy\<rparr>"

type_synonym 'a uow = "Uow \<Rightarrow> (IncidentError failure + 'a) \<times> Uow"

definition ret :: "'a \<Rightarrow> 'a uow" where
  "ret a u = (Inr a, u)"

definition fail :: "IncidentError \<Rightarrow> 'a uow" where
  "fail e u = (Inl (Err e), u)"

definition bind_uow :: "'a uow \<Rightarrow> ('a \<Rightarrow> 'b uow) \<Rightarrow> 'b uow" where
  "bind_uow m f u = (case m u of (Inl e, u) \<Rightarrow> (Inl e, u) | (Inr a, u) \<Rightarrow> f a u)"

definition from_result :: "IncidentError + 'a \<Rightarrow> 'a uow" where
  "from_result r u = (case r of Inl e \<Rightarrow> (Inl (Err e), u) | Inr a \<Rightarrow> (Inr a, u))"

definition reads :: "(Uow \<Rightarrow> 'a) \<Rightarrow> 'a uow" where
  "reads f u = (Inr (f u), u)"

abbreviation get_store :: "InMemoryIncidentStore uow" where
  "get_store \<equiv> reads uw_store"

definition and_then :: "'a uow \<Rightarrow> (IncidentError failure + 'a \<Rightarrow> Uow \<Rightarrow> Uow) \<Rightarrow> 'a uow" where
  "and_then m g u = (case m u of (r, u) \<Rightarrow> (r, g r u))"

definition modify_store :: "(InMemoryIncidentStore \<Rightarrow> InMemoryIncidentStore) \<Rightarrow> unit uow" where
  "modify_store f u = (Inr (), u\<lparr>uw_store := f (uw_store u)\<rparr>)"

definition decision_time :: "DurableTimestamp uow" where
  "decision_time u = from_result (from_system_time (uw_clock u (uw_reads u))) (u\<lparr>uw_reads := uw_reads u + 1\<rparr>)"

definition generate_id :: "IncidentId uow" where
  "generate_id u = from_result (uw_ids u (uw_generated u)) (u\<lparr>uw_generated := uw_generated u + 1\<rparr>)"

definition allocate :: "TenantId \<Rightarrow> IncidentNumber uow" where
  "allocate tenant u =
     (case allocate_number (tenant_as_str tenant) (uw_allocation_year u) (uw_counters u) of
        (r, counters) \<Rightarrow> from_result r (u\<lparr>uw_counters := counters\<rparr>))"

definition get_incident :: "IncidentId \<Rightarrow> Incident uow" where
  "get_incident ident u = from_result (ok_or (map_of (sto_incidents (uw_store u)) ident) NotFound) u"

text \<open>\<open>get_mut(..).expect(..)\<close> followed by assignments.\<close>

definition update_incident :: "IncidentId \<Rightarrow> (Incident \<Rightarrow> Incident) \<Rightarrow> unit uow" where
  "update_incident ident f u =
     (case map_of (sto_incidents (uw_store u)) ident of
        None \<Rightarrow> (Inl Panic, u)
      | Some i \<Rightarrow> modify_store (\<lambda>s. s\<lparr>sto_incidents := AList.update ident (f i) (sto_incidents s)\<rparr>) u)"

definition version_of :: "IncidentId \<Rightarrow> u64 uow" where
  "version_of ident u =
     (case map_of (sto_incidents (uw_store u)) ident of
        None \<Rightarrow> (Inl Panic, u) | Some i \<Rightarrow> (Inr (ic_version i), u))"

definition next_version :: "Incident \<Rightarrow> u64 uow" where
  "next_version i = from_result (if ic_version i = - 1
     then Inl (InternalInvariantViolation ''incident version overflowed u64'') else Inr (ic_version i + 1))"

definition next_reopen_count :: "Incident \<Rightarrow> u32 uow" where
  "next_reopen_count i = from_result (if ic_reopen_count i = - 1
     then Inl (InternalInvariantViolation ''reopen_count overflowed u32'') else Inr (ic_reopen_count i + 1))"

definition open_index_claim :: "CorrelationKey \<Rightarrow> IncidentId \<Rightarrow> unit uow" where
  "open_index_claim key ident = modify_store (\<lambda>s. s\<lparr>sto_open_index := AList.update key ident (sto_open_index s)\<rparr>)"

definition open_index_release :: "CorrelationKey \<Rightarrow> unit uow" where
  "open_index_release key = modify_store (\<lambda>s. s\<lparr>sto_open_index := AList.delete key (sto_open_index s)\<rparr>)"

definition dedup_record :: "TenantId \<times> rust_str \<Rightarrow> IncidentId \<Rightarrow> unit uow" where
  "dedup_record key ident = modify_store (\<lambda>s. s\<lparr>sto_dedup_seen := AList.update key ident (sto_dedup_seen s)\<rparr>)"

definition append_timeline :: "IncidentId \<Rightarrow> Actor \<Rightarrow> TimelinePayload \<Rightarrow> unit uow" where
  "append_timeline ident actor payload u =
     (let ts = uw_timeline_sequence u;
          entry = \<lparr>tl_schema_version = 1, tl_sequence = ts, tl_incident_id = ident, tl_actor = actor,
             tl_payload = payload\<rparr>
      in modify_store (\<lambda>s. s\<lparr>sto_timeline := sto_timeline s @ [entry]\<rparr>)
           (u\<lparr>uw_timeline_sequence := saturating_add ts 1\<rparr>))"

definition append_audit :: "(u64 \<Rightarrow> AuditEntry) \<Rightarrow> unit uow" where
  "append_audit entry u =
     (let asq = uw_audit_sequence u
      in modify_store (\<lambda>s. s\<lparr>sto_audit := sto_audit s @ [entry asq]\<rparr>)
           (u\<lparr>uw_audit_sequence := saturating_add asq 1\<rparr>))"

definition append_outbox :: "TenantId \<Rightarrow> IncidentId \<Rightarrow> OutboxEvent \<Rightarrow> unit uow" where
  "append_outbox tenant ident event u =
     (let osq = uw_outbox_sequence u;
          message = \<lparr>ob_schema_version = 1, ob_sequence = osq, ob_tenant = tenant, ob_incident_id = ident,
             ob_event = event\<rparr>
      in modify_store (\<lambda>s. s\<lparr>sto_outbox := sto_outbox s @ [message]\<rparr>)
           (u\<lparr>uw_outbox_sequence := saturating_add osq 1\<rparr>))"

definition audit_as :: "AuthorizationContext \<Rightarrow> Permission \<Rightarrow> IncidentId \<Rightarrow> unit uow" where
  "audit_as auth permission ident =
     append_audit (\<lambda>asq. audit_allowed asq (cx_tenant auth) (cx_actor auth) permission ident)"

definition check_permission :: "AuthorizationContext \<Rightarrow> Permission \<Rightarrow> AttemptedResource \<Rightarrow> unit uow" where
  "check_permission auth permission resource =
     (if has auth permission then ret ()
      else bind_uow (append_audit (\<lambda>asq. audit_denied asq (cx_tenant auth) (cx_actor auth) permission resource
             ''missing required permission'')) (\<lambda>_. fail Unauthorized))"

definition check_tenant :: "AuthorizationContext \<Rightarrow> Incident \<Rightarrow> unit uow" where
  "check_tenant auth i = (if ic_tenant_id i \<noteq> cx_tenant auth then fail NotFound else ret ())"

section \<open>Opening incidents\<close>

datatype IngestOutcomeKind =
  OutcomeCreated | OutcomeUpdated | OutcomeReopened | OutcomeLinkedLate | OutcomeDuplicate
| OutcomeQuarantined | OutcomeObserveOnly

type_synonym IngestResult = "IngestOutcomeKind \<times> IncidentId option"

definition insert_metrics :: "MatchedReason list \<Rightarrow> MetricKind list \<Rightarrow> MetricKind list" where
  "insert_metrics matched ms = fold (\<lambda>r. insort_insert (ma_metric r)) matched ms"

definition evidence_of :: "DetectionEvent \<Rightarrow> EvidenceLinkType \<Rightarrow> MetricKind list \<Rightarrow> EvidenceReference" where
  "evidence_of event link_type metrics =
     \<lparr>vd_detection_event_id = de_event_id event, vd_dedup_key = de_dedup_key event,
      vd_detection_id = de_detection_id event, vd_link_type = link_type, vd_matched_metrics = metrics\<rparr>"

definition opening_ref :: "DetectionEvent \<Rightarrow> PolicyRef" where
  "opening_ref event =
     \<lparr>pf_policy_id = de_policy_id event, pf_policy_version = de_policy_version event,
      pf_first_seen_sequence = de_sequence event, pf_last_seen_sequence = de_sequence event\<rparr>"

definition manual_incident ::
    "IncidentId \<Rightarrow> IncidentNumber \<Rightarrow> TenantId \<Rightarrow> CorrelationKey \<Rightarrow> Actor \<Rightarrow> DurableTimestamp \<Rightarrow> ManualIncident \<Rightarrow> Incident" where
  "manual_incident ident number tenant key actor now r =
     \<lparr>ic_incident_id = ident, ic_incident_number = number, ic_schema_version = 1, ic_tenant_id = tenant,
      ic_correlation_key = key, ic_address_family = mi_address_family r, ic_direction = mi_direction r,
      ic_target_type = mi_target_type r, ic_target_identity = mi_target_identity r, ic_created_by = actor,
      ic_title = mi_title r, ic_description = mi_description r, ic_state = Open,
      ic_severity = mi_severity r, ic_severity_source = FromOperator,
      ic_ever_critical = (mi_severity r = Critical), ic_maximum_detected_severity = mi_severity r,
      ic_priority = (case mi_priority r of None \<Rightarrow> default_for (mi_severity r) | Some p \<Rightarrow> p),
      ic_closure_reason = None, ic_state_before_recovering = None, ic_suppression = None, ic_version = 1,
      ic_category = derive_category [], ic_matched_metrics = [], ic_first_detected_at = now,
      ic_opened_at = now, ic_last_detected_at = now, ic_last_updated_at = now, ic_acknowledged_at = None,
      ic_recovering_since = None, ic_resolved_at = None, ic_closed_at = None, ic_reopened_at = None,
      ic_reopen_count = 0, ic_assignment = None, ic_updated_by = actor, ic_evidence = new_ledger,
      ic_notes = [], ic_tags = [], ic_policy_refs = [], ic_policy_refs_omitted = 0\<rparr>"

definition open_manual_incident :: "AuthorizationContext \<Rightarrow> ManualIncident \<Rightarrow> IncidentId uow" where
  "open_manual_incident auth request =
     bind_uow (from_result (validate_manual request)) (\<lambda>_.
     let tenant = cx_tenant auth; key = manual_correlation_key request tenant in
     bind_uow get_store (\<lambda>s.
     case map_of (sto_open_index s) key of
       Some existing \<Rightarrow> fail (DuplicateActiveIncident existing)
     | None \<Rightarrow>
         bind_uow decision_time (\<lambda>now.
         bind_uow generate_id (\<lambda>ident.
         bind_uow (allocate tenant) (\<lambda>number.
         let i = manual_incident ident number tenant key (cx_actor auth) now request in
         bind_uow (modify_store (\<lambda>s. s\<lparr>sto_incidents := AList.update ident i (sto_incidents s)\<rparr>)) (\<lambda>_.
         bind_uow (open_index_claim key ident) (\<lambda>_.
         bind_uow (append_timeline ident (cx_actor auth) Opened) (\<lambda>_.
         bind_uow (audit_as auth IncidentCreate ident) (\<lambda>_.
         bind_uow (append_outbox tenant ident IncidentOpened) (\<lambda>_.
         ret ident))))))))))"

definition record_outcome ::
    "AuthorizationContext \<Rightarrow> IdempotencyKey option \<Rightarrow> u8 list \<Rightarrow> (IncidentError failure + 'a)
     \<Rightarrow> ('a \<Rightarrow> StoredOutcome) \<Rightarrow> Uow \<Rightarrow> Uow" where
  "record_outcome auth key fingerprint result stored u =
     (let write = (\<lambda>k outcome. u\<lparr>uw_store := (uw_store u)\<lparr>sto_idempotency :=
            idempotency_record (cx_tenant auth) k fingerprint outcome (sto_idempotency (uw_store u))\<rparr>\<rparr>)
      in case key of
           None \<Rightarrow> u
         | Some k \<Rightarrow>
             (case result of
                Inl Panic \<Rightarrow> u
              | Inl (Err (InternalInvariantViolation _)) \<Rightarrow> u
              | Inl (Err e) \<Rightarrow> write k (Failed e)
              | Inr a \<Rightarrow> write k (stored a)))"

definition create_manual_incident ::
    "AuthorizationContext \<Rightarrow> ManualIncident \<Rightarrow> IdempotencyKey option \<Rightarrow> IncidentId uow" where
  "create_manual_incident auth request key =
     bind_uow (check_permission auth IncidentCreate (Unresolved (lit ''new incident''))) (\<lambda>_.
     bind_uow (reads (\<lambda>u. uw_encode u (ManualRequest request))) (\<lambda>fingerprint.
     let run = and_then (open_manual_incident auth request)
                 (\<lambda>result. record_outcome auth key fingerprint result (\<lambda>ident. Mutated ident 1))
     in case key of
          None \<Rightarrow> run
        | Some k \<Rightarrow>
            bind_uow get_store (\<lambda>s.
            case idempotency_check (cx_tenant auth) k fingerprint (sto_idempotency s) of
              CheckReplay (Mutated ident _) \<Rightarrow> ret ident
            | CheckReplay (Failed e) \<Rightarrow> fail e
            | CheckConflict \<Rightarrow> fail IdempotencyConflict
            | CheckNew \<Rightarrow> run)))"

definition record_export :: "AuthorizationContext \<Rightarrow> IncidentId \<Rightarrow> unit uow" where
  "record_export auth ident =
     bind_uow (check_permission auth IncidentExport (Unresolved (to_canonical_string ident))) (\<lambda>_.
     bind_uow (get_incident ident) (\<lambda>i.
     bind_uow (check_tenant auth i) (\<lambda>_.
     audit_as auth IncidentExport ident)))"

definition plain_name :: "rust_str \<Rightarrow> bool" where
  "plain_name text \<longleftrightarrow> text \<noteq> [] \<and> length (utf8 text) \<le> 64 \<and>
     list_all (\<lambda>b. 48 \<le> b \<and> b \<le> 57 \<or> 65 \<le> b \<and> b \<le> 90 \<or> 97 \<le> b \<and> b \<le> 122 \<or> b = 45 \<or> b = 95 \<or> b = 46) (utf8 text)"

definition record_notification_result ::
    "AuthorizationContext \<Rightarrow> IncidentId \<Rightarrow> rust_str \<Rightarrow> rust_str \<Rightarrow> NotificationOutcome \<Rightarrow> unit uow" where
  "record_notification_result auth ident channel event_type outcome =
     bind_uow (check_permission auth IncidentNotificationRecord (Unresolved (to_canonical_string ident))) (\<lambda>_.
     if \<not> plain_name channel \<or> \<not> plain_name event_type
     then fail (ValidationError (lit ''a channel or event name is empty, too long, or not a plain name''))
     else bind_uow (get_incident ident) (\<lambda>i.
          bind_uow (check_tenant auth i) (\<lambda>_.
          append_timeline ident (cx_actor auth) (NotificationResult channel event_type outcome))))"

definition detected_incident ::
    "IncidentId \<Rightarrow> IncidentNumber \<Rightarrow> TenantId \<Rightarrow> CorrelationKey \<Rightarrow> DurableTimestamp \<Rightarrow> DetectionEvent \<Rightarrow> Incident" where
  "detected_incident ident number tenant key now event =
     (let metrics = insert_metrics (de_matched event) [] in
     \<lparr>ic_incident_id = ident, ic_incident_number = number, ic_schema_version = 1, ic_tenant_id = tenant,
      ic_correlation_key = key, ic_address_family = tg_address_family (de_target event),
      ic_direction = tg_direction (de_target event), ic_target_type = tg_scope_type (de_target event),
      ic_target_identity = tg_scope_id (de_target event), ic_created_by = System,
      ic_title = take TITLE_MAX_LEN (de_summary event), ic_description = None, ic_state = Open,
      ic_severity = de_severity event, ic_severity_source = FromDetection,
      ic_ever_critical = (de_severity event = Critical), ic_maximum_detected_severity = de_severity event,
      ic_priority = default_for (de_severity event), ic_closure_reason = None,
      ic_state_before_recovering = None, ic_suppression = None, ic_version = 1,
      ic_category = derive_category metrics, ic_matched_metrics = metrics, ic_first_detected_at = now,
      ic_opened_at = now, ic_last_detected_at = now, ic_last_updated_at = now, ic_acknowledged_at = None,
      ic_recovering_since = None, ic_resolved_at = None, ic_closed_at = None, ic_reopened_at = None,
      ic_reopen_count = 0, ic_assignment = None, ic_updated_by = System,
      ic_evidence = record_evidence (evidence_of event LinkOpening metrics) new_ledger,
      ic_notes = [], ic_tags = [], ic_policy_refs = [opening_ref event], ic_policy_refs_omitted = 0\<rparr>)"

definition create_incident_internal ::
    "AuthorizationContext \<Rightarrow> TenantId \<Rightarrow> CorrelationKey \<Rightarrow> DetectionEvent \<Rightarrow> IncidentId uow" where
  "create_incident_internal auth tenant key event =
     bind_uow get_store (\<lambda>s.
     case map_of (sto_open_index s) key of
       Some existing \<Rightarrow> fail (Correlation (OpenIncidentAlreadyExists existing))
     | None \<Rightarrow>
         bind_uow decision_time (\<lambda>now.
         bind_uow generate_id (\<lambda>ident.
         bind_uow (allocate tenant) (\<lambda>number.
         let i = detected_incident ident number tenant key now event;
             evidence_ref = evidence_of event LinkOpening (insert_metrics (de_matched event) []) in
         bind_uow (modify_store (\<lambda>s. s\<lparr>sto_incidents := AList.update ident i (sto_incidents s)\<rparr>)) (\<lambda>_.
         bind_uow (open_index_claim key ident) (\<lambda>_.
         bind_uow (append_timeline ident System Opened) (\<lambda>_.
         bind_uow (append_timeline ident System (EventLinked evidence_ref)) (\<lambda>_.
         bind_uow (append_audit (\<lambda>asq. audit_allowed asq tenant (cx_actor auth) IncidentIngest ident)) (\<lambda>_.
         bind_uow (append_outbox tenant ident IncidentOpened) (\<lambda>_.
         ret ident))))))))))"


section \<open>Linking and reopening\<close>

fun merge_policy_ref :: "DetectionEvent \<Rightarrow> PolicyRef list \<Rightarrow> PolicyRef list option" where
  "merge_policy_ref event [] = None"
| "merge_policy_ref event (p # ps) =
     (if pf_policy_id p = de_policy_id event then
        (let p' = (if de_sequence event \<ge> pf_last_seen_sequence p
                   then p\<lparr>pf_last_seen_sequence := de_sequence event, pf_policy_version := de_policy_version event\<rparr>
                   else p)
         in Some (p'\<lparr>pf_first_seen_sequence := min (pf_first_seen_sequence p') (de_sequence event)\<rparr> # ps))
      else map_option (Cons p) (merge_policy_ref event ps))"

definition note_policy :: "DetectionEvent \<Rightarrow> Incident \<Rightarrow> Incident" where
  "note_policy event i =
     (case merge_policy_ref event (ic_policy_refs i) of
        Some refs \<Rightarrow> i\<lparr>ic_policy_refs := refs\<rparr>
      | None \<Rightarrow>
          if length (ic_policy_refs i) < POLICY_REFS_MAX
          then i\<lparr>ic_policy_refs := ic_policy_refs i @ [opening_ref event]\<rparr>
          else i\<lparr>ic_policy_refs_omitted := saturating_add (ic_policy_refs_omitted i) 1\<rparr>)"

definition linked_incident ::
    "DetectionEvent \<Rightarrow> bool \<Rightarrow> EvidenceReference \<Rightarrow> DurableTimestamp \<Rightarrow> u64 \<Rightarrow> Incident \<Rightarrow> Incident" where
  "linked_incident event is_late evidence_ref now new_version i =
     (let i = i\<lparr>ic_matched_metrics := insert_metrics (de_matched event) (ic_matched_metrics i)\<rparr>;
          i = note_policy event i;
          i = i\<lparr>ic_evidence := record_evidence evidence_ref (ic_evidence i)\<rparr>;
          i = (if is_late then i else i\<lparr>ic_last_detected_at := now\<rparr>)
      in i\<lparr>ic_last_updated_at := now, ic_category := derive_category (ic_matched_metrics i),
           ic_version := new_version\<rparr>)"

definition link_event :: "AuthorizationContext \<Rightarrow> IncidentId \<Rightarrow> DetectionEvent \<Rightarrow> bool \<Rightarrow> IngestResult uow" where
  "link_event auth ident event late =
     bind_uow decision_time (\<lambda>now.
     bind_uow (get_incident ident) (\<lambda>i.
     let is_late = (late \<or> now < ic_last_detected_at i) in
     bind_uow (next_version i) (\<lambda>new_version.
     let evidence_ref = evidence_of event (if is_late then LinkLate else LinkUpdate) (map ma_metric (de_matched event));
         i' = linked_incident event is_late evidence_ref now new_version i in
     bind_uow (update_incident ident (\<lambda>_. i')) (\<lambda>_.
     bind_uow (append_timeline ident System (if is_late then LateEventLinked evidence_ref else EventLinked evidence_ref)) (\<lambda>_.
     bind_uow (if ic_category i' \<noteq> ic_category i
               then append_timeline ident System (CategoryChanged (ic_category i) (ic_category i')) else ret ()) (\<lambda>_.
     bind_uow (audit_as auth IncidentIngest ident) (\<lambda>_.
     bind_uow (append_outbox (cx_tenant auth) ident IncidentUpdated) (\<lambda>_.
     ret (if is_late then OutcomeLinkedLate else OutcomeUpdated, Some ident)))))))))"

definition reopened_incident ::
    "DetectionEvent \<Rightarrow> DurableTimestamp \<Rightarrow> u32 \<Rightarrow> u64 \<Rightarrow> Incident \<Rightarrow> Incident" where
  "reopened_incident event now reopen_count new_version i =
     (let metrics = insert_metrics (de_matched event) (ic_matched_metrics i)
      in i\<lparr>ic_state := Open, ic_reopen_count := reopen_count, ic_reopened_at := Some now,
           ic_last_detected_at := now, ic_last_updated_at := now, ic_closure_reason := None,
           ic_resolved_at := None, ic_closed_at := None, ic_matched_metrics := metrics,
           ic_category := derive_category metrics,
           ic_evidence := record_evidence (evidence_of event LinkOpening (map ma_metric (de_matched event))) (ic_evidence i),
           ic_version := new_version\<rparr>)"

definition reopen_incident_internal ::
    "AuthorizationContext \<Rightarrow> IncidentId \<Rightarrow> DetectionEvent \<Rightarrow> AutomaticCause \<Rightarrow> IngestResult uow" where
  "reopen_incident_internal auth ident event cause =
     bind_uow decision_time (\<lambda>now.
     bind_uow (get_incident ident) (\<lambda>i.
     bind_uow get_store (\<lambda>s.
     let key = ic_correlation_key i in
     case map_of (sto_open_index s) key of
       Some existing \<Rightarrow> fail (Correlation (OpenIncidentAlreadyExists existing))
     | None \<Rightarrow>
         if ic_state i \<noteq> Resolved \<and> ic_state i \<noteq> Closed then fail (InvalidTransition (ic_state i) Open)
         else
           bind_uow (next_reopen_count i) (\<lambda>reopen_count.
           bind_uow (next_version i) (\<lambda>new_version.
           bind_uow (update_incident ident (reopened_incident event now reopen_count new_version)) (\<lambda>_.
           bind_uow (open_index_claim key ident) (\<lambda>_.
           bind_uow (append_timeline ident System (StateChanged (ic_state i) Open (Automatic cause))) (\<lambda>_.
           bind_uow (append_timeline ident System (Reopened reopen_count None None)) (\<lambda>_.
           bind_uow (audit_as auth IncidentIngest ident) (\<lambda>_.
           bind_uow (append_outbox (cx_tenant auth) ident (IncidentReopened reopen_count)) (\<lambda>_.
           ret (OutcomeReopened, Some ident))))))))))))"

section \<open>Recovery, resolution and closure\<close>

definition enter_recovering :: "AuthorizationContext \<Rightarrow> IncidentId \<Rightarrow> DetectionEndReason \<Rightarrow> unit uow" where
  "enter_recovering auth ident reason =
     bind_uow (check_permission auth IncidentIngest (Unresolved (to_canonical_string ident))) (\<lambda>_.
     bind_uow decision_time (\<lambda>now.
     bind_uow (get_incident ident) (\<lambda>i.
     bind_uow (check_tenant auth i) (\<lambda>_.
     bind_uow (from_result (decide_enter_recovering i reason)) (\<lambda>_.
     bind_uow (next_version i) (\<lambda>new_version.
     bind_uow (update_incident ident (\<lambda>i. i\<lparr>ic_state_before_recovering := Some (ic_state i),
          ic_state := Recovering, ic_recovering_since := Some now, ic_last_updated_at := now,
          ic_version := new_version\<rparr>)) (\<lambda>_.
     bind_uow (append_timeline ident System (StateChanged (ic_state i) Recovering (Automatic (cause_of_end reason)))) (\<lambda>_.
     bind_uow (audit_as auth IncidentIngest ident) (\<lambda>_.
     append_outbox (cx_tenant auth) ident IncidentRecovering)))))))))"

definition enter_recovering_if_silent :: "AuthorizationContext \<Rightarrow> IncidentId \<Rightarrow> nat \<Rightarrow> bool uow" where
  "enter_recovering_if_silent auth ident silent_after =
     bind_uow (check_permission auth IncidentIngest (Unresolved (to_canonical_string ident))) (\<lambda>_.
     bind_uow decision_time (\<lambda>now.
     bind_uow (get_incident ident) (\<lambda>i.
     bind_uow (check_tenant auth i) (\<lambda>_.
     bind_uow (from_result (checked_elapsed_since now (ic_last_detected_at i))) (\<lambda>elapsed.
     if elapsed < silent_after then ret False
     else bind_uow (enter_recovering auth ident EndDetectorSilent) (\<lambda>_. ret True))))))"

primrec audited_permission_for :: "TransitionCause \<Rightarrow> Permission \<Rightarrow> Permission" where
  "audited_permission_for (Automatic _) operator_permission = IncidentIngest"
| "audited_permission_for (ByOperator _) operator_permission = operator_permission"

primrec legal_for :: "TransitionCause \<Rightarrow> IncidentState \<Rightarrow> IncidentState \<Rightarrow> bool" where
  "legal_for (Automatic _) s s' = can_automatic_transition_to s s'"
| "legal_for (ByOperator _) s s' = can_operator_transition_to s s'"

definition resolve_internal ::
    "AuthorizationContext \<Rightarrow> IncidentId \<Rightarrow> TransitionCause \<Rightarrow> rust_str option \<Rightarrow> unit uow" where
  "resolve_internal auth ident cause resolution_note =
     bind_uow decision_time (\<lambda>now.
     bind_uow (get_incident ident) (\<lambda>i.
     if ic_state i = Resolved then fail (StateUnchanged (ic_state i))
     else if \<not> legal_for cause (ic_state i) Resolved then fail (InvalidTransition (ic_state i) Resolved)
     else
       bind_uow (next_version i) (\<lambda>new_version.
       bind_uow (update_incident ident (\<lambda>i. i\<lparr>ic_state := Resolved, ic_resolved_at := Some now,
            ic_recovering_since := None, ic_state_before_recovering := None, ic_last_updated_at := now,
            ic_version := new_version\<rparr>)) (\<lambda>_.
       bind_uow (open_index_release (ic_correlation_key i)) (\<lambda>_.
       bind_uow (append_timeline ident (cx_actor auth) (StateChanged (ic_state i) Resolved cause)) (\<lambda>_.
       bind_uow (case resolution_note of
                   None \<Rightarrow> ret ()
                 | Some note \<Rightarrow> update_incident ident (\<lambda>i. i\<lparr>ic_notes := ic_notes i @
                     [new_note (of_nat (length (ic_notes i))) note Internal (cx_actor auth)]\<rparr>)) (\<lambda>_.
       bind_uow (audit_as auth (audited_permission_for cause IncidentResolve) ident) (\<lambda>_.
       append_outbox (cx_tenant auth) ident IncidentResolved))))))))"

definition confirm_recovery_if_due :: "AuthorizationContext \<Rightarrow> IncidentId \<Rightarrow> nat \<Rightarrow> bool uow" where
  "confirm_recovery_if_due auth ident recovery_confirmation =
     bind_uow (check_permission auth IncidentIngest (Unresolved (to_canonical_string ident))) (\<lambda>_.
     bind_uow decision_time (\<lambda>now.
     bind_uow (get_incident ident) (\<lambda>i.
     bind_uow (check_tenant auth i) (\<lambda>_.
     bind_uow (from_result (decide_confirm_recovery i)) (\<lambda>_.
     bind_uow (from_result (ok_or (ic_recovering_since i)
        (InternalInvariantViolation ''Recovering incident has no recovering_since''))) (\<lambda>recovering_since.
     bind_uow (from_result (checked_elapsed_since now recovering_since)) (\<lambda>elapsed.
     if elapsed < recovery_confirmation then ret False
     else bind_uow (resolve_internal auth ident (Automatic RecoveryConfirmed) None) (\<lambda>_. ret True))))))))"

definition abort_recovery :: "AuthorizationContext \<Rightarrow> IncidentId \<Rightarrow> unit uow" where
  "abort_recovery auth ident =
     bind_uow (check_permission auth IncidentIngest (Unresolved (to_canonical_string ident))) (\<lambda>_.
     bind_uow decision_time (\<lambda>now.
     bind_uow (get_incident ident) (\<lambda>i.
     bind_uow (check_tenant auth i) (\<lambda>_.
     bind_uow (from_result (decide_abort_recovery i)) (\<lambda>restored.
     bind_uow (next_version i) (\<lambda>new_version.
     bind_uow (update_incident ident (\<lambda>i. i\<lparr>ic_state := restored, ic_recovering_since := None,
          ic_state_before_recovering := None, ic_last_updated_at := now, ic_version := new_version\<rparr>)) (\<lambda>_.
     bind_uow (append_timeline ident System (StateChanged Recovering restored (Automatic RecoveryAborted))) (\<lambda>_.
     audit_as auth IncidentIngest ident))))))))"

definition close_internal ::
    "AuthorizationContext \<Rightarrow> IncidentId \<Rightarrow> ClosureReason \<Rightarrow> TransitionCause \<Rightarrow> unit uow" where
  "close_internal auth ident reason cause =
     bind_uow decision_time (\<lambda>now.
     bind_uow (get_incident ident) (\<lambda>i.
     if \<not> legal_for cause (ic_state i) Closed then fail (InvalidTransition (ic_state i) Closed)
     else
       bind_uow (next_version i) (\<lambda>new_version.
       bind_uow (update_incident ident (\<lambda>i. i\<lparr>ic_state := Closed, ic_closed_at := Some now,
            ic_closure_reason := Some reason, ic_last_updated_at := now, ic_version := new_version\<rparr>)) (\<lambda>_.
       bind_uow (append_timeline ident (cx_actor auth) (StateChanged (ic_state i) Closed cause)) (\<lambda>_.
       bind_uow (audit_as auth (audited_permission_for cause IncidentClose) ident) (\<lambda>_.
       append_outbox (cx_tenant auth) ident IncidentClosed))))))"

definition attempt_automatic_closure :: "AuthorizationContext \<Rightarrow> IncidentId \<Rightarrow> bool uow" where
  "attempt_automatic_closure auth ident =
     bind_uow (check_permission auth IncidentIngest (Unresolved (to_canonical_string ident))) (\<lambda>_.
     bind_uow (get_incident ident) (\<lambda>i.
     bind_uow (check_tenant auth i) (\<lambda>_.
     bind_uow (reads uw_closure_policy) (\<lambda>policy.
     case decide_automatic_closure i policy of
       Inr _ \<Rightarrow>
         bind_uow (from_result (ok_or (ic_resolved_at i)
            (InternalInvariantViolation ''Resolved incident has no resolved_at''))) (\<lambda>resolved_at.
         bind_uow decision_time (\<lambda>now.
         bind_uow (from_result (checked_elapsed_since now resolved_at)) (\<lambda>elapsed.
         if elapsed < cp_automatic_closure_delay policy then ret False
         else bind_uow (close_internal auth ident ReasonResolved (Automatic AutomaticClosure)) (\<lambda>_. ret True))))
     | Inl e \<Rightarrow> if e = ManualClosureRequired then ret False else fail e))))"

section \<open>Ingestion\<close>

primrec end_reason :: "TransitionReason \<Rightarrow> DetectionEndReason" where
  "end_reason Stale = EndDetectorStale"
| "end_reason PolicyWithdrawn = EndPolicyWithdrawn"
| "end_reason ManualReset = EndDetectorReset"
| "end_reason ThresholdCrossed = EndTrafficCleared"
| "end_reason TriggerSustained = EndTrafficCleared"
| "end_reason TriggerAborted = EndTrafficCleared"
| "end_reason FellBelowClear = EndTrafficCleared"
| "end_reason ClearSustained = EndTrafficCleared"
| "end_reason ClearAborted = EndTrafficCleared"
| "end_reason CooldownExpired = EndTrafficCleared"
| "end_reason PolicyChanged = EndTrafficCleared"
| "end_reason StillActive = EndTrafficCleared"

definition event_key :: "DetectionEvent \<Rightarrow> CorrelationKey" where
  "event_key event =
     \<lparr>ck_tenant = TenantId (tg_tenant (de_target event)), ck_target_type = tg_scope_type (de_target event),
      ck_target_identity = tg_scope_id (de_target event), ck_direction = tg_direction (de_target event),
      ck_address_family = tg_address_family (de_target event)\<rparr>"

text \<open>\<open>let _ = self.enter_recovering(..)\<close>: the state change is kept, an error is dropped.\<close>

definition ignore_error :: "'a uow \<Rightarrow> unit uow" where
  "ignore_error m u = (case m u of (Inl Panic, u) \<Rightarrow> (Inl Panic, u) | (_, u) \<Rightarrow> (Inr (), u))"

definition ingest_open :: "AuthorizationContext \<Rightarrow> DetectionEvent \<Rightarrow> IncidentId \<Rightarrow> IngestResult uow" where
  "ingest_open auth event ident =
     bind_uow (dedup_record (TenantId (tg_tenant (de_target event)), de_dedup_key event) ident) (\<lambda>_.
     bind_uow (link_event auth ident event False) (\<lambda>result.
     bind_uow (if de_kind event = EventEnded \<and> fst result = OutcomeUpdated
               then ignore_error (enter_recovering auth ident (end_reason (de_reason event))) else ret ()) (\<lambda>_.
     ret result)))"

definition ingest_new :: "AuthorizationContext \<Rightarrow> DetectionEvent \<Rightarrow> IngestResult uow" where
  "ingest_new auth event =
     (if de_kind event = EventEnded then ret (OutcomeQuarantined, None)
      else
        bind_uow (create_incident_internal auth (TenantId (tg_tenant (de_target event))) (event_key event) event) (\<lambda>ident.
        bind_uow (dedup_record (TenantId (tg_tenant (de_target event)), de_dedup_key event) ident) (\<lambda>_.
        ret (OutcomeCreated, Some ident))))"

definition ingest_closed :: "AuthorizationContext \<Rightarrow> DetectionEvent \<Rightarrow> Incident \<Rightarrow> IngestResult uow" where
  "ingest_closed auth event candidate =
     (let dedup = (TenantId (tg_tenant (de_target event)), de_dedup_key event);
          ident = ic_incident_id candidate;
          already_held = list_ex (\<lambda>r. vd_detection_id r = de_detection_id event) (lg_retained (ic_evidence candidate))
      in if de_kind event = EventEnded \<or> already_held then
           bind_uow (dedup_record dedup ident) (\<lambda>_. link_event auth ident event True)
         else
           bind_uow decision_time (\<lambda>now.
           bind_uow (reads uw_reopen_policy) (\<lambda>policy.
           bind_uow (from_result (evaluate_reopen candidate policy now)) (\<lambda>reopen.
           if reopen then
             bind_uow (dedup_record dedup ident) (\<lambda>_. reopen_incident_internal auth ident event ReopenedByRecurrence)
           else ingest_new auth event))))"

definition ingest_detection_event :: "AuthorizationContext \<Rightarrow> DetectionEvent \<Rightarrow> IngestResult uow" where
  "ingest_detection_event auth event =
     bind_uow (check_permission auth IncidentIngest (Unresolved (de_detection_id event))) (\<lambda>_.
     let tenant = TenantId (tg_tenant (de_target event)) in
     if tenant \<noteq> cx_tenant auth then fail TenantMismatch
     else if de_schema_version event > EVENT_SCHEMA_VERSION \<or> de_executed event then ret (OutcomeQuarantined, None)
     else bind_uow get_store (\<lambda>s.
       case map_of (sto_dedup_seen s) (tenant, de_dedup_key event) of
         Some existing \<Rightarrow> ret (OutcomeDuplicate, Some existing)
       | None \<Rightarrow>
           if \<not> is_publishable event \<and> de_action event = Observed then ret (OutcomeObserveOnly, None)
           else
             case map_of (sto_open_index s) (event_key event) of
               Some ident \<Rightarrow> ingest_open auth event ident
             | None \<Rightarrow>
                 (case reopen_candidate (event_key event) tenant s of
                    Some candidate \<Rightarrow> ingest_closed auth event candidate
                  | None \<Rightarrow> ingest_new auth event)))"


section \<open>Operator commands\<close>

definition guarded_operator_transition ::
    "AuthorizationContext \<Rightarrow> IncidentId \<Rightarrow> IncidentState \<Rightarrow> OperatorCommandKind \<Rightarrow> Permission
     \<Rightarrow> (DurableTimestamp \<Rightarrow> Incident \<Rightarrow> Incident) \<Rightarrow> u64 uow" where
  "guarded_operator_transition auth ident to kind permission extra =
     bind_uow decision_time (\<lambda>now.
     bind_uow (get_incident ident) (\<lambda>i.
     let from_state = ic_state i in
     if from_state = to then fail (StateUnchanged from_state)
     else if \<not> can_operator_transition_to from_state to then fail (InvalidTransition from_state to)
     else
       bind_uow (next_version i) (\<lambda>new_version.
       bind_uow (update_incident ident (\<lambda>i. extra now (i\<lparr>ic_state := to, ic_last_updated_at := now,
            ic_version := new_version\<rparr>))) (\<lambda>_.
       bind_uow (append_timeline ident (cx_actor auth) (StateChanged from_state to (ByOperator kind))) (\<lambda>_.
       bind_uow (audit_as auth permission ident) (\<lambda>_.
       version_of ident))))))"

definition operator_reopen :: "AuthorizationContext \<Rightarrow> IncidentId \<Rightarrow> rust_str \<Rightarrow> u64 uow" where
  "operator_reopen auth ident reason =
     bind_uow decision_time (\<lambda>now.
     bind_uow (get_incident ident) (\<lambda>i.
     if \<not> can_operator_transition_to (ic_state i) Open then fail (InvalidTransition (ic_state i) Open)
     else
       let key = ic_correlation_key i in
       bind_uow get_store (\<lambda>s.
       case map_of (sto_open_index s) key of
         Some existing \<Rightarrow> fail (Correlation (OpenIncidentAlreadyExists existing))
       | None \<Rightarrow>
           bind_uow (next_reopen_count i) (\<lambda>reopen_count.
           bind_uow (next_version i) (\<lambda>new_version.
           bind_uow (update_incident ident (\<lambda>i. i\<lparr>ic_state := Open, ic_reopen_count := reopen_count,
                ic_reopened_at := Some now, ic_closure_reason := None, ic_resolved_at := None,
                ic_closed_at := None, ic_last_updated_at := now, ic_version := new_version\<rparr>)) (\<lambda>_.
           bind_uow (open_index_claim key ident) (\<lambda>_.
           bind_uow (append_timeline ident (cx_actor auth) (StateChanged (ic_state i) Open (ByOperator KindReopen))) (\<lambda>_.
           bind_uow (append_timeline ident (cx_actor auth) (Reopened reopen_count None (Some reason))) (\<lambda>_.
           bind_uow (audit_as auth IncidentReopen ident) (\<lambda>_.
           version_of ident))))))))))"

definition suppress :: "AuthorizationContext \<Rightarrow> IncidentId \<Rightarrow> rust_str \<Rightarrow> nat \<Rightarrow> u64 uow" where
  "suppress auth ident reason duration =
     bind_uow (from_result (validate_suppression_reason reason)) (\<lambda>_.
     bind_uow decision_time (\<lambda>now.
     bind_uow decision_time (\<lambda>later.
     bind_uow (from_result (ok_or (checked_plus later duration)
        (ValidationError (lit ''suppression duration is too large to represent as a deadline'')))) (\<lambda>deadline.
     bind_uow (get_incident ident) (\<lambda>i.
     bind_uow (next_version i) (\<lambda>new_version.
     bind_uow (update_incident ident (\<lambda>i. i\<lparr>ic_suppression :=
            Some \<lparr>su_deadline = deadline, su_reason = reason, su_by = cx_actor auth\<rparr>,
          ic_version := new_version, ic_last_updated_at := now\<rparr>)) (\<lambda>_.
     bind_uow (append_timeline ident (cx_actor auth) (Suppressed reason)) (\<lambda>_.
     bind_uow (audit_as auth IncidentSuppress ident) (\<lambda>_.
     bind_uow (append_outbox (cx_tenant auth) ident (IncidentSuppressionChanged True)) (\<lambda>_.
     version_of ident))))))))))"

definition unsuppress :: "AuthorizationContext \<Rightarrow> IncidentId \<Rightarrow> u64 uow" where
  "unsuppress auth ident =
     bind_uow decision_time (\<lambda>now.
     bind_uow (get_incident ident) (\<lambda>i.
     bind_uow (next_version i) (\<lambda>new_version.
     bind_uow (update_incident ident (\<lambda>i. i\<lparr>ic_suppression := None, ic_version := new_version,
          ic_last_updated_at := now\<rparr>)) (\<lambda>_.
     bind_uow (append_timeline ident (cx_actor auth) Unsuppressed) (\<lambda>_.
     bind_uow (audit_as auth IncidentSuppress ident) (\<lambda>_.
     bind_uow (append_outbox (cx_tenant auth) ident (IncidentSuppressionChanged False)) (\<lambda>_.
     version_of ident)))))))"

definition assign :: "AuthorizationContext \<Rightarrow> IncidentId \<Rightarrow> Assignee option \<Rightarrow> u64 uow" where
  "assign auth ident assignee =
     bind_uow decision_time (\<lambda>now.
     bind_uow (get_incident ident) (\<lambda>i.
     bind_uow (next_version i) (\<lambda>new_version.
     bind_uow (update_incident ident (\<lambda>i. i\<lparr>ic_assignment := assignee, ic_version := new_version,
          ic_last_updated_at := now\<rparr>)) (\<lambda>_.
     bind_uow (append_timeline ident (cx_actor auth) (AssignmentChanged (ic_assignment i) assignee)) (\<lambda>_.
     bind_uow (audit_as auth IncidentAssign ident) (\<lambda>_.
     bind_uow (append_outbox (cx_tenant auth) ident IncidentAssignmentChanged) (\<lambda>_.
     version_of ident)))))))"

definition change_severity :: "AuthorizationContext \<Rightarrow> IncidentId \<Rightarrow> Severity \<Rightarrow> rust_str option \<Rightarrow> u64 uow" where
  "change_severity auth ident new_severity reason =
     bind_uow decision_time (\<lambda>now.
     bind_uow (get_incident ident) (\<lambda>i.
     if severity_rank new_severity < severity_rank (ic_severity i) \<and> reason = None
     then fail (ValidationError (lit ''a reason is required when lowering severity''))
     else
       bind_uow (next_version i) (\<lambda>new_version.
       bind_uow (update_incident ident (\<lambda>i. i\<lparr>ic_severity := new_severity,
            ic_ever_critical := (ic_ever_critical i \<or> new_severity = Critical),
            ic_severity_source := FromOperator, ic_version := new_version, ic_last_updated_at := now\<rparr>)) (\<lambda>_.
       bind_uow (append_timeline ident (cx_actor auth) (SeverityChanged (ic_severity i) new_severity reason)) (\<lambda>_.
       bind_uow (append_audit (\<lambda>asq. with_change ''severity'' (severity_as_str (ic_severity i))
            (severity_as_str new_severity) reason
            (audit_allowed asq (cx_tenant auth) (cx_actor auth) IncidentSeverityChange ident))) (\<lambda>_.
       bind_uow (append_outbox (cx_tenant auth) ident (IncidentSeverityChanged (ic_severity i) new_severity)) (\<lambda>_.
       version_of ident)))))))"

definition change_priority :: "AuthorizationContext \<Rightarrow> IncidentId \<Rightarrow> Priority \<Rightarrow> u64 uow" where
  "change_priority auth ident new_priority =
     bind_uow decision_time (\<lambda>now.
     bind_uow (get_incident ident) (\<lambda>i.
     bind_uow (next_version i) (\<lambda>new_version.
     bind_uow (update_incident ident (\<lambda>i. i\<lparr>ic_priority := new_priority, ic_version := new_version,
          ic_last_updated_at := now\<rparr>)) (\<lambda>_.
     bind_uow (append_timeline ident (cx_actor auth) (PriorityChanged (ic_priority i) new_priority)) (\<lambda>_.
     bind_uow (append_audit (\<lambda>asq. with_change ''priority'' (priority_as_str (ic_priority i))
          (priority_as_str new_priority) None
          (audit_allowed asq (cx_tenant auth) (cx_actor auth) IncidentPriorityChange ident))) (\<lambda>_.
     bind_uow (append_outbox (cx_tenant auth) ident (IncidentPriorityChanged (ic_priority i) new_priority)) (\<lambda>_.
     version_of ident)))))))"

definition add_note :: "AuthorizationContext \<Rightarrow> IncidentId \<Rightarrow> rust_str \<Rightarrow> NoteVisibility \<Rightarrow> u64 uow" where
  "add_note auth ident body visibility =
     (if visibility = CustomerVisible
      then fail (ValidationError (lit ''customer-visible notes are refused in Phase 5''))
      else
        bind_uow (from_result (validate_note_body body)) (\<lambda>_.
        bind_uow decision_time (\<lambda>now.
        bind_uow (get_incident ident) (\<lambda>i.
        if length (ic_notes i) \<ge> NOTES_PER_INCIDENT_MAX then fail (CapacityExceeded ''notes per incident'')
        else
          bind_uow (next_version i) (\<lambda>new_version.
          let index = of_nat (length (ic_notes i)) in
          bind_uow (update_incident ident (\<lambda>i. i\<lparr>ic_notes := ic_notes i @
               [new_note index body visibility (cx_actor auth)],
               ic_version := new_version, ic_last_updated_at := now\<rparr>)) (\<lambda>_.
          bind_uow (append_timeline ident (cx_actor auth) (NoteAdded index)) (\<lambda>_.
          bind_uow (audit_as auth IncidentNoteCreate ident) (\<lambda>_.
          version_of ident))))))))"

definition note_text :: "string \<Rightarrow> u32 \<Rightarrow> string \<Rightarrow> rust_str" where
  "note_text before note_index after = lit (before @ show_nat (unat note_index) @ after)"

definition edit_note :: "AuthorizationContext \<Rightarrow> IncidentId \<Rightarrow> u32 \<Rightarrow> rust_str \<Rightarrow> u64 uow" where
  "edit_note auth ident note_index body =
     bind_uow (from_result (validate_note_body body)) (\<lambda>_.
     bind_uow decision_time (\<lambda>now.
     bind_uow (get_incident ident) (\<lambda>i.
     if unat note_index \<ge> length (ic_notes i) then fail (ValidationError (note_text ''no note '' note_index []))
     else
       let original = ic_notes i ! unat note_index in
       if nt_created_by original \<noteq> cx_actor auth then
         bind_uow (append_audit (\<lambda>asq. audit_denied asq (cx_tenant auth) (cx_actor auth) IncidentNoteCreate
            (IncidentResource ident) ''only a note's author may edit it'')) (\<lambda>_.
         fail Unauthorized)
       else if nt_redaction original \<noteq> None then fail (ValidationError (note_text ''note '' note_index '' is redacted''))
       else
         case note_superseded_by i note_index of
           Some later \<Rightarrow> fail (ValidationError (note_text ''note '' note_index '' was already replaced by note '' @
              lit (show_nat (unat later))))
         | None \<Rightarrow>
             if length (ic_notes i) \<ge> NOTES_PER_INCIDENT_MAX then fail (CapacityExceeded ''notes per incident'')
             else
               bind_uow (next_version i) (\<lambda>new_version.
               let index = of_nat (length (ic_notes i));
                   note = (new_note index body (nt_visibility original) (cx_actor auth))\<lparr>nt_supersedes := Some note_index\<rparr> in
               bind_uow (update_incident ident (\<lambda>i. i\<lparr>ic_notes := ic_notes i @ [note],
                    ic_version := new_version, ic_last_updated_at := now\<rparr>)) (\<lambda>_.
               bind_uow (append_timeline ident (cx_actor auth) (NoteSuperseded note_index index)) (\<lambda>_.
               bind_uow (audit_as auth IncidentNoteCreate ident) (\<lambda>_.
               ret new_version)))))))"

definition redact_note :: "AuthorizationContext \<Rightarrow> IncidentId \<Rightarrow> u32 \<Rightarrow> rust_str \<Rightarrow> u64 uow" where
  "redact_note auth ident note_index reason =
     bind_uow (from_result (validate_redaction_reason reason)) (\<lambda>_.
     bind_uow decision_time (\<lambda>now.
     bind_uow (get_incident ident) (\<lambda>i.
     bind_uow (next_version i) (\<lambda>new_version.
     if unat note_index \<ge> length (ic_notes i) then fail (ValidationError (note_text ''no note '' note_index []))
     else
       let note = ic_notes i ! unat note_index in
       if nt_redaction note \<noteq> None then fail (ValidationError (note_text ''note '' note_index '' is already redacted''))
       else
         bind_uow (update_incident ident (\<lambda>i. i\<lparr>ic_notes := (ic_notes i)[unat note_index :=
              note\<lparr>nt_body := [], nt_redaction := Some \<lparr>nr_by = cx_actor auth, nr_reason = reason\<rparr>\<rparr>],
              ic_version := new_version, ic_last_updated_at := now\<rparr>)) (\<lambda>_.
         bind_uow (append_timeline ident (cx_actor auth) (NoteRedacted note_index)) (\<lambda>_.
         bind_uow (append_audit (\<lambda>asq. (audit_allowed asq (cx_tenant auth) (cx_actor auth)
              IncidentNoteRedact ident)\<lparr>au_reason := Some reason\<rparr>)) (\<lambda>_.
         ret new_version)))))))"

definition add_tag :: "AuthorizationContext \<Rightarrow> IncidentId \<Rightarrow> rust_str \<Rightarrow> rust_str \<Rightarrow> u64 uow" where
  "add_tag auth ident key val =
     (if length (utf8 key) > TAG_KEY_MAX_LEN \<or> length (utf8 val) > TAG_VALUE_MAX_LEN
      then fail (ValidationError (lit ''tag key or value exceeds its bound''))
      else
        bind_uow decision_time (\<lambda>now.
        bind_uow (get_incident ident) (\<lambda>i.
        if map_of (ic_tags i) key = None \<and> length (ic_tags i) \<ge> TAGS_PER_INCIDENT_MAX
        then fail (CapacityExceeded ''tags per incident'')
        else
          bind_uow (next_version i) (\<lambda>new_version.
          bind_uow (update_incident ident (\<lambda>i. i\<lparr>ic_tags := bt_insert key val (ic_tags i),
               ic_version := new_version, ic_last_updated_at := now\<rparr>)) (\<lambda>_.
          bind_uow (append_timeline ident (cx_actor auth) (TagAdded key val)) (\<lambda>_.
          bind_uow (audit_as auth IncidentUpdate ident) (\<lambda>_.
          version_of ident)))))))"

definition remove_tag :: "AuthorizationContext \<Rightarrow> IncidentId \<Rightarrow> rust_str \<Rightarrow> u64 uow" where
  "remove_tag auth ident key =
     bind_uow decision_time (\<lambda>now.
     bind_uow (get_incident ident) (\<lambda>i.
     bind_uow (next_version i) (\<lambda>new_version.
     bind_uow (update_incident ident (\<lambda>i. i\<lparr>ic_tags := bt_remove key (ic_tags i),
          ic_version := new_version, ic_last_updated_at := now\<rparr>)) (\<lambda>_.
     bind_uow (append_timeline ident (cx_actor auth) (TagRemoved key)) (\<lambda>_.
     bind_uow (audit_as auth IncidentUpdate ident) (\<lambda>_.
     version_of ident))))))"

primrec apply_command :: "AuthorizationContext \<Rightarrow> IncidentId \<Rightarrow> Command \<Rightarrow> u64 uow" where
  "apply_command auth ident (AcknowledgeIncident v) =
     guarded_operator_transition auth ident Acknowledged KindAcknowledge IncidentAcknowledge
       (\<lambda>now i. i\<lparr>ic_acknowledged_at := Some now\<rparr>)"
| "apply_command auth ident (BeginInvestigation v) =
     guarded_operator_transition auth ident Investigating KindBeginInvestigation IncidentInvestigate (\<lambda>_ i. i)"
| "apply_command auth ident (MarkMonitoring v) =
     guarded_operator_transition auth ident Monitoring KindMarkMonitoring IncidentInvestigate (\<lambda>_ i. i)"
| "apply_command auth ident (ResolveIncident v resolution_note) =
     bind_uow (resolve_internal auth ident (ByOperator KindResolve) resolution_note) (\<lambda>_. version_of ident)"
| "apply_command auth ident (CloseIncident v reason detail) =
     bind_uow (close_internal auth ident reason (ByOperator KindClose)) (\<lambda>_. version_of ident)"
| "apply_command auth ident (ReopenIncident v reason) = operator_reopen auth ident reason"
| "apply_command auth ident (SuppressIncident v reason duration) = suppress auth ident reason duration"
| "apply_command auth ident (UnsuppressIncident v) = unsuppress auth ident"
| "apply_command auth ident (AssignIncident v assignee) = assign auth ident (Some assignee)"
| "apply_command auth ident (UnassignIncident v) = assign auth ident None"
| "apply_command auth ident (ChangeSeverity v new_severity reason) = change_severity auth ident new_severity reason"
| "apply_command auth ident (ChangePriority v new_priority) = change_priority auth ident new_priority"
| "apply_command auth ident (AddNote body visibility) = add_note auth ident body visibility"
| "apply_command auth ident (EditNote note_index body) = edit_note auth ident note_index body"
| "apply_command auth ident (RedactNote note_index reason) = redact_note auth ident note_index reason"
| "apply_command auth ident (AddTag key val) = add_tag auth ident key val"
| "apply_command auth ident (RemoveTag key) = remove_tag auth ident key"

definition handle_command ::
    "AuthorizationContext \<Rightarrow> IncidentId \<Rightarrow> Command \<Rightarrow> IdempotencyKey option \<Rightarrow> u64 uow" where
  "handle_command auth ident command key =
     bind_uow (check_permission auth (required_permission command) (Unresolved (to_canonical_string ident))) (\<lambda>_.
     bind_uow (get_incident ident) (\<lambda>i.
     bind_uow (check_tenant auth i) (\<lambda>_.
     bind_uow (reads (\<lambda>u. uw_encode u (CommandRequest ident command))) (\<lambda>fingerprint.
     let run = and_then (apply_command auth ident command)
                 (\<lambda>result. record_outcome auth key fingerprint result (\<lambda>version. Mutated ident version));
         versioned = (case expected_version command of
              Some expected \<Rightarrow>
                if expected \<noteq> ic_version i then fail (VersionConflict expected (ic_version i) (ic_state i)) else run
            | None \<Rightarrow> run)
     in case key of
          None \<Rightarrow> versioned
        | Some k \<Rightarrow>
            bind_uow get_store (\<lambda>s.
            case idempotency_check (cx_tenant auth) k fingerprint (sto_idempotency s) of
              CheckReplay (Mutated _ version) \<Rightarrow> ret version
            | CheckReplay (Failed e) \<Rightarrow> fail e
            | CheckConflict \<Rightarrow> fail IdempotencyConflict
            | CheckNew \<Rightarrow> versioned)))))"

end
