(* ===== verification/Incident_Steps.thy ===== *)
theory Incident_Steps
  imports Unit_Of_Work
begin

text \<open>
  What the unit of work guarantees. Every public operation is shown to refine a step relation on
  the state: it leaves the incidents alone, changes one incident of the caller's tenant along a legal
  edge with the next version, or opens one; each change is logged. The properties are then proved by
  induction over the steps of any history.
\<close>

section \<open>Weakest preconditions\<close>

named_theorems uow_wp

definition wp :: "'a uow \<Rightarrow> (IncidentError failure + 'a \<Rightarrow> Uow \<Rightarrow> bool) \<Rightarrow> Uow \<Rightarrow> bool" where
  "wp m Q u \<longleftrightarrow> (case m u of (r, u') \<Rightarrow> Q r u')"

lemma wp_snd: "wp m Q u \<Longrightarrow> Q (fst (m u)) (snd (m u))"
  by (simp add: wp_def split_beta)

lemma wp_bind [uow_wp]:
  "wp (bind_uow m f) Q u \<longleftrightarrow> wp m (\<lambda>r u'. case r of Inl e \<Rightarrow> Q (Inl e) u' | Inr a \<Rightarrow> wp (f a) Q u') u"
  by (auto simp: wp_def bind_uow_def split: prod.splits sum.splits)

lemma wp_ret [uow_wp]: "wp (ret a) Q u \<longleftrightarrow> Q (Inr a) u"
  by (simp add: wp_def ret_def)

lemma wp_fail [uow_wp]: "wp (fail e) Q u \<longleftrightarrow> Q (Inl (Err e)) u"
  by (simp add: wp_def fail_def)

lemma wp_from_result [uow_wp]:
  "wp (from_result r) Q u \<longleftrightarrow> (case r of Inl e \<Rightarrow> Q (Inl (Err e)) u | Inr a \<Rightarrow> Q (Inr a) u)"
  by (simp add: wp_def from_result_def split: sum.splits)

lemma wp_reads [uow_wp]: "wp (reads f) Q u \<longleftrightarrow> Q (Inr (f u)) u"
  by (simp add: wp_def reads_def)

lemma wp_and_then [uow_wp]: "wp (and_then m g) Q u \<longleftrightarrow> wp m (\<lambda>r u'. Q r (g r u')) u"
  by (simp add: wp_def and_then_def split_beta)

lemma wp_modify_store [uow_wp]: "wp (modify_store f) Q u \<longleftrightarrow> Q (Inr ()) (u\<lparr>uw_store := f (uw_store u)\<rparr>)"
  by (simp add: wp_def modify_store_def)

lemma wp_decision_time [uow_wp]:
  "wp decision_time Q u \<longleftrightarrow> (case from_system_time (uw_clock u (uw_reads u)) of
     Inl e \<Rightarrow> Q (Inl (Err e)) (u\<lparr>uw_reads := uw_reads u + 1\<rparr>)
   | Inr t \<Rightarrow> Q (Inr t) (u\<lparr>uw_reads := uw_reads u + 1\<rparr>))"
  by (simp add: wp_def decision_time_def from_result_def split: sum.splits)

lemma wp_generate_id [uow_wp]:
  "wp generate_id Q u \<longleftrightarrow> (case uw_ids u (uw_generated u) of
     Inl e \<Rightarrow> Q (Inl (Err e)) (u\<lparr>uw_generated := uw_generated u + 1\<rparr>)
   | Inr t \<Rightarrow> Q (Inr t) (u\<lparr>uw_generated := uw_generated u + 1\<rparr>))"
  by (simp add: wp_def generate_id_def from_result_def split: sum.splits)

lemma wp_allocate [uow_wp]:
  "wp (allocate tenant) Q u \<longleftrightarrow> (case allocate_number (tenant_as_str tenant) (uw_allocation_year u) (uw_counters u) of
     (Inl e, cs) \<Rightarrow> Q (Inl (Err e)) (u\<lparr>uw_counters := cs\<rparr>)
   | (Inr t, cs) \<Rightarrow> Q (Inr t) (u\<lparr>uw_counters := cs\<rparr>))"
  by (simp add: wp_def allocate_def from_result_def split: sum.splits prod.splits)

lemma wp_get_incident [uow_wp]:
  "wp (get_incident ident) Q u \<longleftrightarrow> (case map_of (sto_incidents (uw_store u)) ident of
     None \<Rightarrow> Q (Inl (Err NotFound)) u | Some i \<Rightarrow> Q (Inr i) u)"
  by (simp add: wp_def get_incident_def from_result_def ok_or_def split: option.splits)

lemma wp_update_incident [uow_wp]:
  "wp (update_incident ident f) Q u \<longleftrightarrow> (case map_of (sto_incidents (uw_store u)) ident of
     None \<Rightarrow> Q (Inl Panic) u
   | Some i \<Rightarrow> Q (Inr ()) (u\<lparr>uw_store := (uw_store u)\<lparr>sto_incidents := AList.update ident (f i) (sto_incidents (uw_store u))\<rparr>\<rparr>))"
  by (simp add: wp_def update_incident_def modify_store_def split: option.splits)

lemma wp_version_of [uow_wp]:
  "wp (version_of ident) Q u \<longleftrightarrow> (case map_of (sto_incidents (uw_store u)) ident of
     None \<Rightarrow> Q (Inl Panic) u | Some i \<Rightarrow> Q (Inr (ic_version i)) u)"
  by (simp add: wp_def version_of_def split: option.splits)

lemma wp_next_version [uow_wp]:
  "wp (next_version i) Q u \<longleftrightarrow> (if ic_version i = - 1
     then Q (Inl (Err (InternalInvariantViolation ''incident version overflowed u64''))) u
     else Q (Inr (ic_version i + 1)) u)"
  by (simp add: next_version_def wp_from_result)

lemma wp_next_reopen_count [uow_wp]:
  "wp (next_reopen_count i) Q u \<longleftrightarrow> (if ic_reopen_count i = - 1
     then Q (Inl (Err (InternalInvariantViolation ''reopen_count overflowed u32''))) u
     else Q (Inr (ic_reopen_count i + 1)) u)"
  by (simp add: next_reopen_count_def wp_from_result)

lemma wp_index_claim [uow_wp]:
  "wp (open_index_claim key ident) Q u \<longleftrightarrow>
     Q (Inr ()) (u\<lparr>uw_store := (uw_store u)\<lparr>sto_open_index := AList.update key ident (sto_open_index (uw_store u))\<rparr>\<rparr>)"
  by (simp add: open_index_claim_def wp_modify_store)

lemma wp_index_release [uow_wp]:
  "wp (open_index_release key) Q u \<longleftrightarrow>
     Q (Inr ()) (u\<lparr>uw_store := (uw_store u)\<lparr>sto_open_index := AList.delete key (sto_open_index (uw_store u))\<rparr>\<rparr>)"
  by (simp add: open_index_release_def wp_modify_store)

lemma wp_dedup_record [uow_wp]:
  "wp (dedup_record key ident) Q u \<longleftrightarrow>
     Q (Inr ()) (u\<lparr>uw_store := (uw_store u)\<lparr>sto_dedup_seen := AList.update key ident (sto_dedup_seen (uw_store u))\<rparr>\<rparr>)"
  by (simp add: dedup_record_def wp_modify_store)

lemma wp_append_timeline [uow_wp]:
  "wp (append_timeline ident actor payload) Q u \<longleftrightarrow>
     Q (Inr ()) (u\<lparr>uw_timeline_sequence := saturating_add (uw_timeline_sequence u) 1,
       uw_store := (uw_store u)\<lparr>sto_timeline := sto_timeline (uw_store u) @
         [\<lparr>tl_schema_version = 1, tl_sequence = uw_timeline_sequence u, tl_incident_id = ident, tl_actor = actor,
           tl_payload = payload\<rparr>]\<rparr>\<rparr>)"
  by (simp add: wp_def append_timeline_def modify_store_def Let_def)

lemma wp_append_audit [uow_wp]:
  "wp (append_audit entry) Q u \<longleftrightarrow>
     Q (Inr ()) (u\<lparr>uw_audit_sequence := saturating_add (uw_audit_sequence u) 1,
       uw_store := (uw_store u)\<lparr>sto_audit := sto_audit (uw_store u) @ [entry (uw_audit_sequence u)]\<rparr>\<rparr>)"
  by (simp add: wp_def append_audit_def modify_store_def Let_def)

lemma wp_append_outbox [uow_wp]:
  "wp (append_outbox tenant ident event) Q u \<longleftrightarrow>
     Q (Inr ()) (u\<lparr>uw_outbox_sequence := saturating_add (uw_outbox_sequence u) 1,
       uw_store := (uw_store u)\<lparr>sto_outbox := sto_outbox (uw_store u) @
         [\<lparr>ob_schema_version = 1, ob_sequence = uw_outbox_sequence u, ob_tenant = tenant, ob_incident_id = ident,
           ob_event = event\<rparr>]\<rparr>\<rparr>)"
  by (simp add: wp_def append_outbox_def modify_store_def Let_def)

lemma wp_audit_as [uow_wp]:
  "wp (audit_as auth permission ident) Q u \<longleftrightarrow>
     Q (Inr ()) (u\<lparr>uw_audit_sequence := saturating_add (uw_audit_sequence u) 1,
       uw_store := (uw_store u)\<lparr>sto_audit := sto_audit (uw_store u) @
         [audit_allowed (uw_audit_sequence u) (cx_tenant auth) (cx_actor auth) permission ident]\<rparr>\<rparr>)"
  by (simp add: audit_as_def wp_append_audit)

lemma wp_check_permission [uow_wp]:
  "wp (check_permission auth permission resource) Q u \<longleftrightarrow>
     (if has auth permission then Q (Inr ()) u
      else Q (Inl (Err Unauthorized)) (u\<lparr>uw_audit_sequence := saturating_add (uw_audit_sequence u) 1,
        uw_store := (uw_store u)\<lparr>sto_audit := sto_audit (uw_store u) @
          [audit_denied (uw_audit_sequence u) (cx_tenant auth) (cx_actor auth) permission resource
             ''missing required permission'']\<rparr>\<rparr>))"
  by (simp add: check_permission_def wp_ret wp_bind wp_append_audit wp_fail)

lemma wp_check_tenant [uow_wp]:
  "wp (check_tenant auth i) Q u \<longleftrightarrow>
     (if ic_tenant_id i \<noteq> cx_tenant auth then Q (Inl (Err NotFound)) u else Q (Inr ()) u)"
  by (simp add: check_tenant_def wp_fail wp_ret)

lemma wp_case_option [uow_wp]:
  "wp (case x of None \<Rightarrow> m | Some y \<Rightarrow> f y) Q u \<longleftrightarrow> (case x of None \<Rightarrow> wp m Q u | Some y \<Rightarrow> wp (f y) Q u)"
  by (cases x) simp_all

section \<open>Well-formed incidents\<close>

definition active :: "Incident \<Rightarrow> bool" where
  "active i \<longleftrightarrow> ic_state i \<noteq> Resolved \<and> ic_state i \<noteq> Closed"

definition incident_ok :: "Incident \<Rightarrow> bool" where
  "incident_ok i \<longleftrightarrow>
     (ic_state i = Resolved \<longrightarrow> ic_resolved_at i \<noteq> None) \<and>
     (ic_state i = Closed \<longrightarrow> ic_closed_at i \<noteq> None) \<and>
     (if ic_state i = Recovering
      then ic_recovering_since i \<noteq> None \<and>
        ic_state_before_recovering i \<in> Some ` {Open, Acknowledged, Investigating, Monitoring}
      else ic_recovering_since i = None \<and> ic_state_before_recovering i = None) \<and>
     (ic_severity i = Critical \<longrightarrow> ic_ever_critical i) \<and>
     ic_tenant_id i = ck_tenant (ic_correlation_key i) \<and>
     ic_category i = derive_category (ic_matched_metrics i) \<and>
     length (lg_retained (ic_evidence i)) \<le> EVIDENCE_RETAINED_LIMIT \<and>
     length (ic_policy_refs i) \<le> POLICY_REFS_MAX \<and>
     bt_ok (ic_tags i) \<and> length (ic_tags i) \<le> TAGS_PER_INCIDENT_MAX \<and>
     length (ic_title i) \<le> TITLE_MAX_LEN"

lemma length_record_evidence [simp]:
  "length (lg_retained l) \<le> EVIDENCE_RETAINED_LIMIT \<Longrightarrow> length (lg_retained (record_evidence r l)) \<le> EVIDENCE_RETAINED_LIMIT"
  by (simp add: record_evidence_def Let_def)

lemma length_merge_policy_ref: "merge_policy_ref ev ps = Some qs \<Longrightarrow> length qs = length ps"
  by (induction ps arbitrary: qs) (auto simp: Let_def split: if_splits)

lemma length_bt_insert: "length (bt_insert k v m) \<le> Suc (length m)"
  by (induction k v m rule: bt_insert.induct) auto

lemma length_bt_insert_old: "k \<in> fst ` set m \<Longrightarrow> bt_ok m \<Longrightarrow> length (bt_insert k v m) = length m"
proof (induction k v m rule: bt_insert.induct)
  case (2 k v k' v' m)
  then show ?case by (cases "k < k'") (auto dest: bspec[of _ _ k])
qed simp

lemma length_bt_remove: "length (bt_remove k m) \<le> length m"
  by (simp add: bt_remove_def)

lemma note_policy_ok:
  "incident_ok i \<Longrightarrow> length (ic_policy_refs (note_policy ev i)) \<le> POLICY_REFS_MAX"
  by (auto simp: note_policy_def incident_ok_def dest: length_merge_policy_ref split: option.splits)


section \<open>Steps\<close>

abbreviation incidents :: "Uow \<Rightarrow> (IncidentId \<times> Incident) list" where
  "incidents u \<equiv> sto_incidents (uw_store u)"

abbreviation open_index :: "Uow \<Rightarrow> (CorrelationKey \<times> IncidentId) list" where
  "open_index u \<equiv> sto_open_index (uw_store u)"

definition legal_edge :: "IncidentState \<Rightarrow> IncidentState \<Rightarrow> bool" where
  "legal_edge s s' \<longleftrightarrow> s = s' \<or> can_automatic_transition_to s s' \<or> can_operator_transition_to s s'"

definition same_identity :: "Incident \<Rightarrow> Incident \<Rightarrow> bool" where
  "same_identity i i' \<longleftrightarrow> ic_incident_id i' = ic_incident_id i \<and> ic_incident_number i' = ic_incident_number i \<and>
     ic_tenant_id i' = ic_tenant_id i \<and> ic_correlation_key i' = ic_correlation_key i \<and>
     ic_created_by i' = ic_created_by i \<and> ic_opened_at i' = ic_opened_at i"

definition good_change :: "Incident \<Rightarrow> Incident \<Rightarrow> bool" where
  "good_change i i' \<longleftrightarrow> same_identity i i' \<and> ic_version i \<noteq> - 1 \<and> ic_version i' = ic_version i + 1 \<and>
     (ic_ever_critical i \<longrightarrow> ic_ever_critical i') \<and>
     (incident_ok i \<longrightarrow> incident_ok i' \<and> legal_edge (ic_state i) (ic_state i'))"

definition index_moves ::
    "IncidentId \<Rightarrow> Incident \<Rightarrow> Incident \<Rightarrow> (CorrelationKey \<times> IncidentId) list \<Rightarrow> (CorrelationKey \<times> IncidentId) list \<Rightarrow> bool" where
  "index_moves ident i i' idx idx' \<longleftrightarrow>
     (if active i = active i' then idx' = idx
      else if active i then idx' = AList.delete (ic_correlation_key i) idx
      else map_of idx (ic_correlation_key i) = None \<and> idx' = AList.update (ic_correlation_key i) ident idx)"

definition same_environment :: "Uow \<Rightarrow> Uow \<Rightarrow> bool" where
  "same_environment u u' \<longleftrightarrow> uw_ids u' = uw_ids u \<and> uw_encode u' = uw_encode u \<and>
     uw_closure_policy u' = uw_closure_policy u \<and> uw_reopen_policy u' = uw_reopen_policy u \<and>
     uw_generated u \<le> uw_generated u'"

definition logged :: "AuthorizationContext \<Rightarrow> IncidentId \<Rightarrow> Uow \<Rightarrow> Uow \<Rightarrow> bool" where
  "logged auth ident u u' \<longleftrightarrow>
     (\<exists>ts a. sto_timeline (uw_store u') = sto_timeline (uw_store u) @ ts \<and> ts \<noteq> [] \<and>
        list_all (\<lambda>t. tl_incident_id t = ident) ts \<and> sto_audit (uw_store u') = sto_audit (uw_store u) @ [a] \<and>
        au_resource a = IncidentResource ident \<and> au_outcome a = AuditAllowed \<and>
        au_actor a = cx_actor auth \<and> au_tenant a = cx_tenant auth)"

definition quiet :: "Uow \<Rightarrow> Uow \<Rightarrow> bool" where
  "quiet u u' \<longleftrightarrow> incidents u' = incidents u \<and> open_index u' = open_index u \<and> same_environment u u' \<and>
     (\<exists>ts. sto_timeline (uw_store u') = sto_timeline (uw_store u) @ ts) \<and>
     (\<exists>as. sto_audit (uw_store u') = sto_audit (uw_store u) @ as)"

definition changes :: "AuthorizationContext \<Rightarrow> IncidentId \<Rightarrow> Uow \<Rightarrow> Uow \<Rightarrow> bool" where
  "changes auth ident u u' \<longleftrightarrow>
     (\<exists>i i'. map_of (incidents u) ident = Some i \<and> map_of (incidents u') ident = Some i' \<and>
        map_of (incidents u') = (map_of (incidents u))(ident \<mapsto> i') \<and> good_change i i' \<and> ic_tenant_id i = cx_tenant auth \<and>
        index_moves ident i i' (open_index u) (open_index u')) \<and>
     map fst (incidents u') = map fst (incidents u) \<and> same_environment u u' \<and> logged auth ident u u'"

definition creates :: "AuthorizationContext \<Rightarrow> IncidentId \<Rightarrow> Uow \<Rightarrow> Uow \<Rightarrow> bool" where
  "creates auth ident u u' \<longleftrightarrow>
     (\<exists>i'. map_of (incidents u') ident = Some i' \<and> incidents u' = AList.update ident i' (incidents u) \<and>
        ic_incident_id i' = ident \<and> incident_ok i' \<and> ic_tenant_id i' = cx_tenant auth \<and> ic_state i' = Open \<and>
        ic_version i' = 1 \<and> map_of (open_index u) (ic_correlation_key i') = None \<and>
        open_index u' = AList.update (ic_correlation_key i') ident (open_index u)) \<and>
     uw_ids u (uw_generated u) = Inr ident \<and> uw_generated u < uw_generated u' \<and>
     same_environment u u' \<and> logged auth ident u u'"

inductive uow_step :: "AuthorizationContext \<Rightarrow> Uow \<Rightarrow> Uow \<Rightarrow> bool" for auth where
  unchanged: "quiet u u' \<Longrightarrow> uow_step auth u u'"
| changed: "changes auth ident u u' \<Longrightarrow> uow_step auth u u'"
| created: "creates auth ident u u' \<Longrightarrow> uow_step auth u u'"

text \<open>The caller's incident: what the code checks before it acts on it.\<close>

definition owned :: "AuthorizationContext \<Rightarrow> IncidentId \<Rightarrow> Uow \<Rightarrow> bool" where
  "owned auth ident u \<longleftrightarrow> (\<forall>i. map_of (incidents u) ident = Some i \<longrightarrow> ic_tenant_id i = cx_tenant auth)"

definition outcome :: "AuthorizationContext \<Rightarrow> Uow \<Rightarrow> IncidentError failure + 'a \<Rightarrow> Uow \<Rightarrow> bool" where
  "outcome auth u r u' \<longleftrightarrow> r \<noteq> Inl Panic \<and> (uow_step auth)\<^sup>*\<^sup>* u u'"

lemma keys_update: "map_of xs k \<noteq> None \<Longrightarrow> map fst (AList.update k v xs) = map fst xs"
  by (induction xs) auto

lemma AList_update_twice: "AList.update k v (AList.update k w xs) = AList.update k v xs"
  by (induction xs) auto

lemmas step_defs = quiet_def changes_def creates_def same_environment_def logged_def

lemma audit_allowed_fields [simp]:
  "au_resource (audit_allowed s t a p i) = IncidentResource i" "au_outcome (audit_allowed s t a p i) = AuditAllowed"
  "au_actor (audit_allowed s t a p i) = a" "au_tenant (audit_allowed s t a p i) = t"
  "au_resource (with_change f x y r e) = au_resource e" "au_outcome (with_change f x y r e) = au_outcome e"
  "au_actor (with_change f x y r e) = au_actor e" "au_tenant (with_change f x y r e) = au_tenant e"
  by (simp_all add: audit_allowed_def with_change_def)

lemma outcome_err: "quiet u u' \<Longrightarrow> outcome auth u (Inl (Err e)) u'"
  by (auto simp: outcome_def intro: unchanged)

lemma outcome_still: "quiet u u' \<Longrightarrow> outcome auth u (Inr a) u'"
  by (auto simp: outcome_def intro: unchanged)

lemma outcome_ok: "changes auth ident u u' \<Longrightarrow> outcome auth u (Inr a) u'"
  by (auto simp: outcome_def intro: changed)

lemma outcome_new: "creates auth (projr (uw_ids u (uw_generated u))) u u' \<Longrightarrow> outcome auth u (Inr a) u'"
  by (auto simp: outcome_def intro: created)

lemma wp_call:
  assumes "quiet u u1" "wp m (outcome auth u1) u1" "\<And>r u'. outcome auth u r u' \<Longrightarrow> Q r u'"
  shows "wp m Q u1"
proof -
  have "uow_step auth u u1" using assms(1) by (rule unchanged)
  with wp_snd[OF assms(2)] have "outcome auth u (fst (m u1)) (snd (m u1))"
    by (auto simp: outcome_def)
  with assms(3) show ?thesis by (simp add: wp_def split_beta)
qed

lemma incident_ok_frame [simp]:
  "incident_ok (i\<lparr>ic_assignment := a\<rparr>) = incident_ok i"
  "incident_ok (i\<lparr>ic_version := v\<rparr>) = incident_ok i"
  "incident_ok (i\<lparr>ic_last_updated_at := t\<rparr>) = incident_ok i"
  "incident_ok (i\<lparr>ic_last_detected_at := t\<rparr>) = incident_ok i"
  "incident_ok (i\<lparr>ic_acknowledged_at := ta\<rparr>) = incident_ok i"
  "incident_ok (i\<lparr>ic_suppression := su\<rparr>) = incident_ok i"
  "incident_ok (i\<lparr>ic_priority := p\<rparr>) = incident_ok i"
  "incident_ok (i\<lparr>ic_notes := ns\<rparr>) = incident_ok i"
  "incident_ok (i\<lparr>ic_severity_source := ss\<rparr>) = incident_ok i"
  "incident_ok (i\<lparr>ic_closure_reason := cr\<rparr>) = incident_ok i"
  "incident_ok (i\<lparr>ic_reopen_count := rc\<rparr>) = incident_ok i"
  "incident_ok (i\<lparr>ic_reopened_at := ra\<rparr>) = incident_ok i"
  "incident_ok (i\<lparr>ic_policy_refs_omitted := om\<rparr>) = incident_ok i"
  by (simp_all add: incident_ok_def)

lemmas effect_defs = step_defs update_conv' keys_update good_change_def same_identity_def legal_edge_def active_def
  index_moves_def

lemma incident_ok_severity [simp]:
  "incident_ok i \<Longrightarrow> incident_ok (i\<lparr>ic_severity := s, ic_ever_critical := ic_ever_critical i \<or> s = Critical\<rparr>)"
  by (auto simp: incident_ok_def)

lemma incident_ok_tags [simp]:
  "incident_ok i \<Longrightarrow> (map_of (ic_tags i) k = None \<longrightarrow> \<not> TAGS_PER_INCIDENT_MAX \<le> length (ic_tags i)) \<Longrightarrow>
     incident_ok (i\<lparr>ic_tags := bt_insert k v (ic_tags i)\<rparr>)"
  "incident_ok i \<Longrightarrow> incident_ok (i\<lparr>ic_tags := bt_remove k (ic_tags i)\<rparr>)"
proof -
  assume i: "incident_ok i" and room: "map_of (ic_tags i) k = None \<longrightarrow> \<not> TAGS_PER_INCIDENT_MAX \<le> length (ic_tags i)"
  have "bt_ok (ic_tags i)" "length (ic_tags i) \<le> TAGS_PER_INCIDENT_MAX" using i by (simp_all add: incident_ok_def)
  then have "length (bt_insert k v (ic_tags i)) \<le> TAGS_PER_INCIDENT_MAX"
    using room length_bt_insert[of k v "ic_tags i"] length_bt_insert_old[of k "ic_tags i" v]
    by (cases "map_of (ic_tags i) k = None") (auto simp: map_of_eq_None_iff)
  with i show "incident_ok (i\<lparr>ic_tags := bt_insert k v (ic_tags i)\<rparr>)" by (auto simp: incident_ok_def)
next
  assume "incident_ok i"
  then show "incident_ok (i\<lparr>ic_tags := bt_remove k (ic_tags i)\<rparr>)"
    using length_bt_remove[of k "ic_tags i"] by (auto simp: incident_ok_def)
qed

lemma attribute_commands_wp:
  assumes "owned auth ident u"
  shows "wp (assign auth ident assignee) (outcome auth u) u" "wp (unsuppress auth ident) (outcome auth u) u"
    "wp (change_priority auth ident p) (outcome auth u) u" "wp (suppress auth ident reason d) (outcome auth u) u"
    "wp (change_severity auth ident sev r) (outcome auth u) u" "wp (remove_tag auth ident key) (outcome auth u) u"
    "wp (add_tag auth ident key val) (outcome auth u) u" "wp (add_note auth ident body vis) (outcome auth u) u"
    "wp (redact_note auth ident n reason) (outcome auth u) u"
  using assms
  by (simp_all add: assign_def unsuppress_def change_priority_def suppress_def change_severity_def remove_tag_def
      add_tag_def add_note_def redact_note_def uow_wp owned_def update_conv' ok_or_def Let_def
      del: not_None_eq not_Some_eq split: sum.split option.split)
    ((intro conjI impI allI;
      ((rule outcome_err; simp add: step_defs) | (rule outcome_ok[of _ ident]; simp add: effect_defs)))+)


lemma edit_note_wp: "owned auth ident u \<Longrightarrow> wp (edit_note auth ident n body) (outcome auth u) u"
  by (simp add: edit_note_def uow_wp owned_def update_conv' Let_def split: sum.split option.split)
    ((intro conjI impI allI;
      ((rule outcome_err; simp add: step_defs) | (rule outcome_ok[of _ ident]; simp add: effect_defs)))+)

definition operator_target :: "IncidentState \<Rightarrow> bool" where
  "operator_target s \<longleftrightarrow> s \<in> {Acknowledged, Investigating, Monitoring}"

lemma operator_edge:
  "can_operator_transition_to s s' \<Longrightarrow> operator_target s' \<Longrightarrow> s \<noteq> Recovering \<and> s \<noteq> Resolved \<and> s \<noteq> Closed"
  by (cases s; cases s') (simp_all add: operator_target_def)

lemma incident_ok_worked [simp]:
  "incident_ok i \<Longrightarrow> can_operator_transition_to (ic_state i) s \<Longrightarrow> operator_target s \<Longrightarrow> incident_ok (i\<lparr>ic_state := s\<rparr>)"
  using operator_edge[of "ic_state i" s] by (auto simp: incident_ok_def operator_target_def)

lemma guarded_wp:
  assumes "owned auth ident u" "operator_target to"
    "extra = (\<lambda>_ i. i) \<or> extra = (\<lambda>now i. i\<lparr>ic_acknowledged_at := Some now\<rparr>)"
  shows "wp (guarded_operator_transition auth ident to kind permission extra) (outcome auth u) u"
proof -
  note edge = operator_edge[OF _ assms(2)]
  have to: "to \<noteq> Resolved" "to \<noteq> Closed" using assms(2) by (auto simp: operator_target_def)
  from assms(1,3) show ?thesis
    by (elim disjE)
      (simp_all add: guarded_operator_transition_def uow_wp owned_def update_conv' Let_def assms(2) split: sum.split option.split,
       (intro conjI impI allI;
        ((rule outcome_err; simp add: step_defs) | (rule outcome_ok[of _ ident]; simp add: effect_defs assms(2) to edge)))+)
qed

lemma incident_ok_reopened [simp]:
  "incident_ok i \<Longrightarrow> ic_state i = Resolved \<or> ic_state i = Closed \<Longrightarrow>
     incident_ok (i\<lparr>ic_state := Open, ic_reopen_count := n, ic_reopened_at := ra, ic_closure_reason := cr,
       ic_resolved_at := None, ic_closed_at := None\<rparr>)"
  by (auto simp: incident_ok_def)

lemma operator_to_open: "can_operator_transition_to s Open \<longleftrightarrow> s = Resolved \<or> s = Closed"
  by (cases s) simp_all

lemma operator_reopen_wp: "owned auth ident u \<Longrightarrow> wp (operator_reopen auth ident reason) (outcome auth u) u"
  by (simp add: operator_reopen_def uow_wp owned_def update_conv' Let_def operator_to_open split: sum.split option.split)
    ((intro conjI impI allI;
      ((rule outcome_err; simp add: step_defs) | (rule outcome_ok[of _ ident]; auto simp: effect_defs operator_to_open)))+)


text \<open>Linking and reopening on a detection event.\<close>

lemma note_policy_frame [simp]:
  "same_identity i (note_policy ev i') = same_identity i i'" "ic_state (note_policy ev i) = ic_state i"
  "ic_version (note_policy ev i) = ic_version i" "ic_ever_critical (note_policy ev i) = ic_ever_critical i"
  "ic_matched_metrics (note_policy ev i) = ic_matched_metrics i" "ic_evidence (note_policy ev i) = ic_evidence i"
  by (simp_all add: note_policy_def same_identity_def split: option.split)

lemma linked_frame [simp]:
  "same_identity i (linked_incident ev late r now v i)" "ic_state (linked_incident ev late r now v i) = ic_state i"
  "ic_version (linked_incident ev late r now v i) = v"
  "ic_ever_critical (linked_incident ev late r now v i) = ic_ever_critical i"
  by (simp_all add: linked_incident_def same_identity_def note_policy_def Let_def split: option.split)

lemma linked_ok [simp]: "incident_ok i \<Longrightarrow> incident_ok (linked_incident ev late r now v i)"
  using note_policy_ok[of "i\<lparr>ic_matched_metrics := ms, ic_category := derive_category ms\<rparr>" ev for ms]
  by (auto simp: linked_incident_def note_policy_def incident_ok_def Let_def dest: length_merge_policy_ref
      split: option.split)

lemma link_event_wp: "owned auth ident u \<Longrightarrow> wp (link_event auth ident ev late) (outcome auth u) u"
  by (simp add: link_event_def uow_wp owned_def update_conv' Let_def split: sum.split option.split del: linked_frame)
    ((intro conjI impI allI;
      ((rule outcome_err; simp add: step_defs) | (rule outcome_ok[of _ ident];
        simp add: step_defs update_conv' keys_update good_change_def legal_edge_def active_def index_moves_def)))+)

lemma reopened_frame [simp]:
  "same_identity i (reopened_incident ev now n v i)" "ic_state (reopened_incident ev now n v i) = Open"
  "ic_version (reopened_incident ev now n v i) = v"
  "ic_ever_critical (reopened_incident ev now n v i) = ic_ever_critical i"
  by (simp_all add: reopened_incident_def same_identity_def Let_def)

lemma reopened_ok [simp]:
  "incident_ok i \<Longrightarrow> ic_state i = Resolved \<or> ic_state i = Closed \<Longrightarrow> incident_ok (reopened_incident ev now n v i)"
  by (auto simp: reopened_incident_def incident_ok_def Let_def)

lemma reopen_internal_wp:
  "owned auth ident u \<Longrightarrow> wp (reopen_incident_internal auth ident ev cause) (outcome auth u) u"
  by (simp add: reopen_incident_internal_def uow_wp owned_def update_conv' Let_def split: sum.split option.split)
    ((intro conjI impI allI;
      ((rule outcome_err; simp add: step_defs) | (rule outcome_ok[of _ ident];
        auto simp: step_defs update_conv' keys_update good_change_def legal_edge_def active_def index_moves_def)))+)

text \<open>Recovery, resolution and closure.\<close>

lemma recovering_edge: "can_automatic_transition_to s Recovering \<longleftrightarrow> s \<in> {Open, Acknowledged, Investigating, Monitoring}"
  by (cases s) simp_all

lemma incident_ok_recovering [simp]:
  "incident_ok i \<Longrightarrow> ic_state i = s \<Longrightarrow> s \<in> {Open, Acknowledged, Investigating, Monitoring} \<Longrightarrow>
     incident_ok (i\<lparr>ic_state_before_recovering := Some s, ic_state := Recovering, ic_recovering_since := Some now\<rparr>)"
  by (auto simp: incident_ok_def)

lemma enter_recovering_wp: "wp (enter_recovering auth ident reason) (outcome auth u) u"
  by (simp add: enter_recovering_def uow_wp update_conv' Let_def decide_enter_recovering_def recovering_edge
      split: sum.split option.split)
    ((intro conjI impI allI;
      ((rule outcome_err; simp add: step_defs) | (rule outcome_ok[of _ ident]; auto simp: effect_defs recovering_edge)))+)

lemma incident_ok_restored:
  "incident_ok i \<Longrightarrow> ic_state i = Recovering \<Longrightarrow> ic_state_before_recovering i = Some s \<Longrightarrow>
     s \<in> {Open, Acknowledged, Investigating, Monitoring} \<and>
     incident_ok (i\<lparr>ic_state := s, ic_recovering_since := None, ic_state_before_recovering := None\<rparr>)"
  by (auto simp: incident_ok_def)


lemma abort_edge:
  "incident_ok i \<Longrightarrow> ic_state i = Recovering \<Longrightarrow> ic_state_before_recovering i = Some s \<Longrightarrow>
     can_automatic_transition_to Recovering s \<and> s \<noteq> Resolved \<and> s \<noteq> Closed"
  by (drule (2) incident_ok_restored) auto

lemma abort_recovery_wp:
  assumes "list_all (incident_ok \<circ> snd) (incidents u)"
  shows "wp (abort_recovery auth ident) (outcome auth u) u"
proof -
  have ok: "map_of (incidents u) ident = Some i \<Longrightarrow> incident_ok i" for i
    using assms map_of_SomeD by (fastforce simp: list_all_iff)
  show ?thesis
    by (simp add: abort_recovery_def uow_wp update_conv' Let_def decide_abort_recovery_def ok_or_def
        split: sum.split option.split)
      ((intro conjI impI allI;
        ((rule outcome_err; simp add: step_defs) | (rule outcome_ok[of _ ident];
           frule ok; auto simp: effect_defs dest: abort_edge incident_ok_restored)))+)
qed

lemma resolve_edge: "legal_for cause s Resolved \<Longrightarrow> s \<noteq> Resolved \<and> s \<noteq> Closed \<and> legal_edge s Resolved"
  by (cases cause; cases s) (simp_all add: legal_edge_def)

lemma incident_ok_resolved [simp]:
  "incident_ok i \<Longrightarrow> incident_ok (i\<lparr>ic_state := Resolved, ic_resolved_at := Some now, ic_recovering_since := None,
     ic_state_before_recovering := None\<rparr>)"
  by (auto simp: incident_ok_def)

lemma resolve_wp:
  assumes "owned auth ident u"
  shows "wp (resolve_internal auth ident cause text_opt) (outcome auth u) u"
    "wp (bind_uow (resolve_internal auth ident cause text_opt) (\<lambda>_. version_of ident)) (outcome auth u) u"
  using assms
  by (simp_all add: resolve_internal_def uow_wp owned_def update_conv' AList_update_twice Let_def split: sum.split option.split)
    ((intro conjI impI allI;
      ((rule outcome_err; simp add: step_defs) | (rule outcome_ok[of _ ident]; drule resolve_edge;
        simp add: step_defs update_conv' keys_update good_change_def same_identity_def active_def index_moves_def AList_update_twice)))+)

lemma close_edge: "legal_for cause s Closed \<longleftrightarrow> s = Resolved"
  by (cases cause; cases s) simp_all

lemma incident_ok_closed [simp]:
  "incident_ok i \<Longrightarrow> ic_state i = Resolved \<Longrightarrow> incident_ok (i\<lparr>ic_state := Closed, ic_closed_at := Some now\<rparr>)"
  by (auto simp: incident_ok_def)

lemma close_wp:
  assumes "owned auth ident u"
  shows "wp (close_internal auth ident reason cause) (outcome auth u) u"
    "wp (bind_uow (close_internal auth ident reason cause) (\<lambda>_. version_of ident)) (outcome auth u) u"
  using assms by (simp_all add: close_internal_def uow_wp owned_def update_conv' Let_def close_edge split: sum.split option.split)
    ((intro conjI impI allI;
      ((rule outcome_err; simp add: step_defs) | (rule outcome_ok[of _ ident]; simp add: effect_defs)))+)

text \<open>Opening.\<close>

lemma opened_ok:
  "ck_tenant key = tenant \<Longrightarrow> length (mi_title r) \<le> TITLE_MAX_LEN \<Longrightarrow> incident_ok (manual_incident ident n tenant key a now r)"
  "ck_tenant key = tenant \<Longrightarrow> incident_ok (detected_incident ident n tenant key now ev)"
  by (auto simp: manual_incident_def detected_incident_def incident_ok_def new_ledger_def record_evidence_def
      EVIDENCE_RETAINED_LIMIT_def POLICY_REFS_MAX_def TITLE_MAX_LEN_def TAGS_PER_INCIDENT_MAX_def Let_def)

lemma opened_frame [simp]:
  "ic_incident_id (manual_incident ident n tenant key a now r) = ident"
  "ic_tenant_id (manual_incident ident n tenant key a now r) = tenant"
  "ic_correlation_key (manual_incident ident n tenant key a now r) = key"
  "ic_state (manual_incident ident n tenant key a now r) = Open" "ic_version (manual_incident ident n tenant key a now r) = 1"
  "ic_incident_id (detected_incident ident n tenant key now ev) = ident"
  "ic_tenant_id (detected_incident ident n tenant key now ev) = tenant"
  "ic_correlation_key (detected_incident ident n tenant key now ev) = key"
  "ic_state (detected_incident ident n tenant key now ev) = Open" "ic_version (detected_incident ident n tenant key now ev) = 1"
  by (simp_all add: manual_incident_def detected_incident_def Let_def)

lemma open_manual_wp: "wp (open_manual_incident auth r) (outcome auth u) u"
proof -
  have title: "validate_manual r = Inr () \<Longrightarrow> length (mi_title r) \<le> TITLE_MAX_LEN"
    by (auto simp: validate_manual_def Let_def split: if_splits)
  show ?thesis
    by (simp add: open_manual_incident_def uow_wp Let_def split: sum.split option.split prod.split)
      ((intro conjI impI allI;
        ((rule outcome_err; simp add: step_defs) | (rule outcome_new;
           simp add: step_defs update_conv' title opened_ok manual_correlation_key_def)))+)
qed

lemma create_incident_wp:
  "tenant = cx_tenant auth \<Longrightarrow> ck_tenant key = tenant \<Longrightarrow> wp (create_incident_internal auth tenant key ev) (outcome auth u) u"
  by (simp add: create_incident_internal_def uow_wp Let_def split: sum.split option.split prod.split)
    ((intro conjI impI allI;
      ((rule outcome_err; simp add: step_defs) | (rule outcome_new; simp add: step_defs update_conv' opened_ok)))+)


section \<open>Every operation is a sequence of steps\<close>

lemma quiet_refl [simp]: "quiet u u"
  by (simp add: step_defs)

lemma quiet_trans: "quiet u u1 \<Longrightarrow> quiet u1 u2 \<Longrightarrow> quiet u u2"
  by (auto simp: quiet_def same_environment_def)

lemma owned_quiet: "quiet u u' \<Longrightarrow> owned auth ident u' = owned auth ident u"
  by (simp add: owned_def quiet_def)

lemma export_wp: "wp (record_export auth ident) (outcome auth u) u"
  by (simp add: record_export_def uow_wp split: option.split)
    ((intro conjI impI allI; ((rule outcome_err; simp add: step_defs) | (rule outcome_still; simp add: step_defs)))+)

lemma notification_wp: "wp (record_notification_result auth ident c t res) (outcome auth u) u"
  by (simp add: record_notification_result_def uow_wp split: option.split)
    ((intro conjI impI allI; ((rule outcome_err; simp add: step_defs) | (rule outcome_still; simp add: step_defs)))+)

lemma silent_wp: "wp (enter_recovering_if_silent auth ident d) (outcome auth u) u"
  by (simp add: enter_recovering_if_silent_def uow_wp split: option.split sum.split)
    ((intro conjI impI allI; ((rule outcome_err; simp add: step_defs) | (rule outcome_still; simp add: step_defs) |
      (rule wp_call[OF _ enter_recovering_wp]; auto simp: step_defs outcome_def split: sum.splits)))+)

lemma confirm_wp: "wp (confirm_recovery_if_due auth ident d) (outcome auth u) u"
  by (simp add: confirm_recovery_if_due_def uow_wp ok_or_def split: option.split sum.split)
    ((intro conjI impI allI; ((rule outcome_err; simp add: step_defs) | (rule outcome_still; simp add: step_defs) |
      (rule wp_call[OF _ resolve_wp(1)]; auto simp: step_defs owned_def outcome_def split: sum.splits)))+)


lemma closure_wp: "wp (attempt_automatic_closure auth ident) (outcome auth u) u"
  by (simp add: attempt_automatic_closure_def uow_wp ok_or_def split: option.split sum.split)
    ((intro conjI impI allI; ((rule outcome_err; simp add: step_defs) | (rule outcome_still; simp add: step_defs) |
      (rule wp_call[OF _ close_wp(1)]; auto simp: step_defs owned_def outcome_def split: sum.splits)))+)

lemma wp_start: "quiet u u1 \<Longrightarrow> wp m (outcome auth u1) u1 \<Longrightarrow> wp m (outcome auth u) u1"
  by (rule wp_call)

lemma wp_follow:
  assumes "wp m (outcome auth u) u1" "\<And>a u2. wp (f a) (outcome auth u2) u2"
  shows "wp (bind_uow m f) (outcome auth u) u1"
proof (cases "m u1")
  case (Pair r u2)
  with assms(1) have r: "r \<noteq> Inl Panic" "(uow_step auth)\<^sup>*\<^sup>* u u2" by (simp_all add: wp_def outcome_def)
  show ?thesis
  proof (cases r)
    case (Inl e)
    with Pair r show ?thesis by (simp add: wp_def bind_uow_def outcome_def)
  next
    case (Inr a)
    with assms(2)[of a u2] Pair r show ?thesis by (auto simp: wp_def bind_uow_def outcome_def)
  qed
qed

lemma wp_ignore_error: "wp m (outcome auth u) u \<Longrightarrow> wp (ignore_error m) (outcome auth u) u"
  by (auto simp: wp_def ignore_error_def outcome_def split: sum.splits failure.splits)

lemma wp_ret_outcome: "wp (ret a) (outcome auth u) u"
  by (simp add: wp_ret outcome_still)

definition uow_ok :: "Uow \<Rightarrow> bool" where
  "uow_ok u \<longleftrightarrow> distinct (map fst (incidents u)) \<and> distinct (map fst (open_index u)) \<and>
     (\<forall>ident i. map_of (incidents u) ident = Some i \<longrightarrow>
        ic_incident_id i = ident \<and> incident_ok i \<and> (\<exists>n < uw_generated u. uw_ids u n = Inr ident)) \<and>
     (\<forall>k ident. map_of (open_index u) k = Some ident \<longleftrightarrow>
        (\<exists>i. map_of (incidents u) ident = Some i \<and> ic_correlation_key i = k \<and> active i))"

lemma max_by_key_mem: "max_by_key f xs = Some y \<Longrightarrow> y \<in> set xs"
  by (induction xs arbitrary: y) (auto split: option.splits if_splits)

lemma candidate_owned:
  assumes "uow_ok u" "reopen_candidate key (cx_tenant auth) (uw_store u) = Some c"
  shows "owned auth (ic_incident_id c) u"
proof -
  have "c \<in> set (filter (\<lambda>i. ic_tenant_id i = cx_tenant auth)
      (filter (\<lambda>i. ic_correlation_key i = key \<and> is_reopen_candidate i) (map snd (incidents u))))"
    using assms(2) unfolding reopen_candidate_def by (rule max_by_key_mem)
  then obtain ident where mem: "(ident, c) \<in> set (incidents u)" and t: "ic_tenant_id c = cx_tenant auth" by auto
  with assms(1) have "map_of (incidents u) ident = Some c" by (auto simp: uow_ok_def)
  with assms(1) t show ?thesis by (auto simp: uow_ok_def owned_def)
qed

lemma index_owned:
  assumes "uow_ok u" "map_of (open_index u) key = Some ident" "ck_tenant key = cx_tenant auth"
  shows "owned auth ident u"
proof -
  from assms(1,2) obtain i where "map_of (incidents u) ident = Some i" "ic_correlation_key i = key" "incident_ok i"
    unfolding uow_ok_def by blast
  with assms(3) show ?thesis by (simp add: owned_def incident_ok_def)
qed

lemma ingest_open_wp: "owned auth ident u \<Longrightarrow> wp (ingest_open auth ev ident) (outcome auth u) u"
  unfolding ingest_open_def wp_bind[of "dedup_record _ _"] wp_dedup_record sum.case
  by (rule wp_start) (auto simp: step_defs owned_def
      intro!: wp_follow link_event_wp wp_ignore_error enter_recovering_wp wp_ret_outcome)

lemma dedup_wp: "wp (dedup_record k ident) (outcome auth u) u"
  by (simp add: wp_dedup_record outcome_still step_defs)

lemma ingest_new_wp:
  "TenantId (tg_tenant (de_target ev)) = cx_tenant auth \<Longrightarrow> wp (ingest_new auth ev) (outcome auth u) u"
  unfolding ingest_new_def
  by (auto simp: event_key_def intro!: wp_follow create_incident_wp dedup_wp wp_ret_outcome)

lemma ingest_closed_wp:
  assumes "owned auth (ic_incident_id c) u" "TenantId (tg_tenant (de_target ev)) = cx_tenant auth"
  shows "wp (ingest_closed auth ev c) (outcome auth u) u"
proof -
  have q: "quiet u (u\<lparr>uw_reads := n\<rparr>)" "quiet u (u\<lparr>uw_reads := n, uw_store := (uw_store u)\<lparr>sto_dedup_seen := d\<rparr>\<rparr>)"
    "quiet u (u\<lparr>uw_store := (uw_store u)\<lparr>sto_dedup_seen := d\<rparr>\<rparr>)" for n d by (simp_all add: step_defs)
  have own: "owned auth (ic_incident_id c) (u\<lparr>uw_reads := n, uw_store := (uw_store u)\<lparr>sto_dedup_seen := d\<rparr>\<rparr>)"
    "owned auth (ic_incident_id c) (u\<lparr>uw_store := (uw_store u)\<lparr>sto_dedup_seen := d\<rparr>\<rparr>)" for n d
    using assms(1) by (simp_all add: owned_def)
  show ?thesis
    by (simp add: ingest_closed_def uow_wp Let_def split: sum.split)
      (auto intro!: outcome_err q wp_start[OF q(1) ingest_new_wp] wp_start[OF q(2) reopen_internal_wp[OF own(1)]]
        wp_start[OF q(3) link_event_wp[OF own(2)]] assms(2))
qed

lemma ingest_wp:
  assumes "uow_ok u"
  shows "wp (ingest_detection_event auth ev) (outcome auth u) u"
proof -
  have key: "ck_tenant (event_key ev) = TenantId (tg_tenant (de_target ev))" by (simp add: event_key_def)
  show ?thesis
    by (simp add: ingest_detection_event_def uow_wp Let_def split: option.split)
      (auto intro!: outcome_err outcome_still ingest_open_wp index_owned[OF assms] ingest_closed_wp candidate_owned[OF assms]
        ingest_new_wp simp: key step_defs)
qed

lemma record_outcome_quiet: "quiet u (record_outcome auth key fp r f u)"
  by (auto simp: record_outcome_def step_defs Let_def split: option.split sum.split failure.split IncidentError.split)

lemma outcome_recorded:
  assumes "outcome auth u r u'"
  shows "outcome auth u r (record_outcome auth key fp r2 f u')"
proof -
  have "uow_step auth u' (record_outcome auth key fp r2 f u')" by (rule unchanged[OF record_outcome_quiet])
  with assms show ?thesis by (auto simp: outcome_def)
qed

lemma wp_recorded: "wp m (outcome auth u) u \<Longrightarrow> wp m (\<lambda>r u'. outcome auth u r (record_outcome auth key fp r f u')) u"
  by (auto simp: wp_def intro: outcome_recorded split: prod.splits)

lemma manual_wp: "wp (create_manual_incident auth req key) (outcome auth u) u"
  by (simp add: create_manual_incident_def uow_wp Let_def
      split: option.split IdempotencyCheck.split StoredOutcome.split)
    (auto intro!: outcome_err outcome_still wp_recorded open_manual_wp simp: step_defs)


lemma apply_command_wp: "owned auth ident u \<Longrightarrow> wp (apply_command auth ident c) (outcome auth u) u"
  by (cases c) (auto intro!: attribute_commands_wp edit_note_wp guarded_wp resolve_wp close_wp operator_reopen_wp
      simp: operator_target_def)

lemma command_wp: "wp (handle_command auth ident c key) (outcome auth u) u"
proof -
  have run: "wp (apply_command auth ident c) (\<lambda>r u'. outcome auth u r (record_outcome auth key fp r f u')) u"
    if "map_of (incidents u) ident = Some i" "ic_tenant_id i = cx_tenant auth" for i fp f key
    using that by (intro wp_recorded apply_command_wp) (simp add: owned_def)
  show ?thesis
    by (simp add: handle_command_def uow_wp Let_def split: option.split IdempotencyCheck.split StoredOutcome.split)
      (auto intro!: outcome_err outcome_still run simp: step_defs)
qed

end
