(* ===== verification/Incident_Safety.thy ===== *)
theory Incident_Safety
  imports Incident_Steps
begin

text \<open>
  The properties of the unit of work, over histories of calls by any callers: one active incident per
  correlation key, tenant isolation, legal and logged changes, idempotent replays, manual closure of
  critical incidents, and the two limits that a resolution note escapes.
\<close>

section \<open>Histories\<close>

datatype uow_call =
  IngestCall AuthorizationContext DetectionEvent
| ManualCall AuthorizationContext ManualIncident "IdempotencyKey option"
| CommandCall AuthorizationContext IncidentId Command "IdempotencyKey option"
| ExportCall AuthorizationContext IncidentId
| NotificationCall AuthorizationContext IncidentId rust_str rust_str NotificationOutcome
| RecoverCall AuthorizationContext IncidentId DetectionEndReason
| SilenceCall AuthorizationContext IncidentId nat
| ConfirmCall AuthorizationContext IncidentId nat
| AbortCall AuthorizationContext IncidentId
| ClosureCall AuthorizationContext IncidentId

primrec caller :: "uow_call \<Rightarrow> AuthorizationContext" where
  "caller (IngestCall auth _) = auth"
| "caller (ManualCall auth _ _) = auth"
| "caller (CommandCall auth _ _ _) = auth"
| "caller (ExportCall auth _) = auth"
| "caller (NotificationCall auth _ _ _ _) = auth"
| "caller (RecoverCall auth _ _) = auth"
| "caller (SilenceCall auth _ _) = auth"
| "caller (ConfirmCall auth _ _) = auth"
| "caller (AbortCall auth _) = auth"
| "caller (ClosureCall auth _) = auth"

text \<open>A call leaves a state and whether it panicked.\<close>

definition after :: "'a uow \<Rightarrow> Uow \<Rightarrow> bool \<times> Uow" where
  "after m u = (case m u of (r, u') \<Rightarrow> (case r of Inl Panic \<Rightarrow> True | _ \<Rightarrow> False, u'))"

primrec perform :: "uow_call \<Rightarrow> Uow \<Rightarrow> bool \<times> Uow" where
  "perform (IngestCall auth ev) = after (ingest_detection_event auth ev)"
| "perform (ManualCall auth req key) = after (create_manual_incident auth req key)"
| "perform (CommandCall auth ident c key) = after (handle_command auth ident c key)"
| "perform (ExportCall auth ident) = after (record_export auth ident)"
| "perform (NotificationCall auth ident c t res) = after (record_notification_result auth ident c t res)"
| "perform (RecoverCall auth ident reason) = after (enter_recovering auth ident reason)"
| "perform (SilenceCall auth ident d) = after (enter_recovering_if_silent auth ident d)"
| "perform (ConfirmCall auth ident d) = after (confirm_recovery_if_due auth ident d)"
| "perform (AbortCall auth ident) = after (abort_recovery auth ident)"
| "perform (ClosureCall auth ident) = after (attempt_automatic_closure auth ident)"

definition uow_run :: "uow_call list \<Rightarrow> Uow \<Rightarrow> Uow" where
  "uow_run calls u = fold (\<lambda>c u. snd (perform c u)) calls u"

text \<open>The contract of an identifier generator: it never gives one identifier twice. The generator of the
  crate, called again and again from a counter of 0, keeps it.\<close>

locale id_source =
  fixes ids :: "nat \<Rightarrow> IncidentError + IncidentId"
  assumes fresh: "ids m = Inr ident \<Longrightarrow> ids n = Inr ident \<Longrightarrow> m = n"

primrec placeholder_counter :: "u64 \<Rightarrow> nat \<Rightarrow> u64" where
  "placeholder_counter salt 0 = 0"
| "placeholder_counter salt (Suc n) = snd (placeholder_generate salt (placeholder_counter salt n))"

definition placeholder_ids :: "u64 \<Rightarrow> nat \<Rightarrow> IncidentError + IncidentId" where
  "placeholder_ids salt n =
     ok_or (fst (placeholder_generate salt (placeholder_counter salt n))) (CapacityExceeded ''incident identity counter exhausted'')"

lemma placeholder_counter_steps: "placeholder_counter salt n \<noteq> - 1 \<Longrightarrow> unat (placeholder_counter salt n) = n"
proof (induction n)
  case (Suc n)
  obtain r c where inc: "checked_increment (placeholder_counter salt n) = (r, c)" by fastforce
  with Suc checked_increment_next[of "placeholder_counter salt n"] show ?case
    by (cases r) (auto simp: placeholder_generate_def checked_increment_def split: if_splits)
qed simp

lemma placeholder_ids_counter:
  "placeholder_ids salt n = Inr ident \<Longrightarrow> ident = mix salt (placeholder_counter salt n) \<and> unat (placeholder_counter salt n) = n"
  using placeholder_counter_steps[of salt n]
  by (auto simp: placeholder_ids_def placeholder_generate_def checked_increment_def ok_or_def split: if_splits)

interpretation placeholder: id_source "placeholder_ids salt"
proof
  fix m n ident
  assume "placeholder_ids salt m = Inr ident" "placeholder_ids salt n = Inr ident"
  then show "m = n" using placeholder_ids_counter[of salt m] placeholder_ids_counter[of salt n] mix_inj by metis
qed

section \<open>The invariant\<close>

definition filed :: "Uow \<Rightarrow> IncidentId \<Rightarrow> Incident \<Rightarrow> bool" where
  "filed u ident i \<longleftrightarrow> ic_incident_id i = ident \<and> incident_ok i \<and> (\<exists>n < uw_generated u. uw_ids u n = Inr ident)"

lemma uow_ok_iff:
  "uow_ok u \<longleftrightarrow> distinct (map fst (incidents u)) \<and> distinct (map fst (open_index u)) \<and>
     (\<forall>ident i. map_of (incidents u) ident = Some i \<longrightarrow> filed u ident i) \<and>
     (\<forall>k ident. map_of (open_index u) k = Some ident \<longleftrightarrow>
        (\<exists>i. map_of (incidents u) ident = Some i \<and> ic_correlation_key i = k \<and> active i))"
  by (simp add: uow_ok_def filed_def)

lemma filed_later: "same_environment u u' \<Longrightarrow> filed u ident i \<Longrightarrow> filed u' ident i"
  by (auto simp: filed_def same_environment_def intro: order.strict_trans2)

lemma uow_ok_quiet: "quiet u u' \<Longrightarrow> uow_ok u \<Longrightarrow> uow_ok u'"
  using filed_later[of u u'] by (simp add: uow_ok_iff quiet_def)

lemma uow_ok_changes:
  assumes "changes auth ident u u'" "uow_ok u"
  shows "uow_ok u'"
proof -
  from assms(1) obtain i i' where i: "map_of (incidents u) ident = Some i"
      "map_of (incidents u') = (map_of (incidents u))(ident \<mapsto> i')" "good_change i i'"
      "index_moves ident i i' (open_index u) (open_index u')"
    and frame: "map fst (incidents u') = map fst (incidents u)" "same_environment u u'"
    unfolding changes_def by blast
  have old: "filed u ident i" using assms(2) i(1) by (simp add: uow_ok_iff)
  with i(3) have new: "filed u ident i'" "ic_correlation_key i' = ic_correlation_key i"
    by (auto simp: filed_def good_change_def same_identity_def)
  have idx: "map_of (open_index u) k = Some x \<longleftrightarrow> (\<exists>j. map_of (incidents u) x = Some j \<and> ic_correlation_key j = k \<and> active j)" for k x
    using assms(2) by (simp add: uow_ok_iff)
  have "map_of (open_index u') k = Some x \<longleftrightarrow> (\<exists>j. map_of (incidents u') x = Some j \<and> ic_correlation_key j = k \<and> active j)" for k x
  proof (cases "x = ident")
    case True
    with i new idx[of k ident] idx[of "ic_correlation_key i" ident] show ?thesis
      by (auto simp: index_moves_def delete_conv' update_conv' split: if_splits)
  next
    case False
    then have "map_of (incidents u') x = map_of (incidents u) x" using i(2) by simp
    moreover have "map_of (open_index u') k = Some x \<longleftrightarrow> map_of (open_index u) k = Some x"
      using i False idx[of "ic_correlation_key i" ident] idx[of "ic_correlation_key i" x]
      by (auto simp: index_moves_def delete_conv' update_conv' split: if_splits)
    ultimately show ?thesis using idx by simp
  qed
  moreover have "distinct (map fst (open_index u'))"
    using assms(2) i(4) by (simp add: uow_ok_iff index_moves_def distinct_delete distinct_update split: if_splits)
  moreover have "filed u' x j" if "map_of (incidents u') x = Some j" for x j
    using that assms(2) i(2) new(1) by (intro filed_later[OF frame(2)]) (simp add: uow_ok_iff split: if_splits)
  moreover have "distinct (map fst (incidents u'))" using assms(2) frame(1) by (simp add: uow_ok_iff)
  ultimately show ?thesis unfolding uow_ok_iff by blast
qed

lemma uow_ok_creates:
  assumes "creates auth ident u u'" "uow_ok u" "id_source (uw_ids u)"
  shows "uow_ok u'"
proof -
  from assms(1) obtain i' where i: "incidents u' = AList.update ident i' (incidents u)"
      "ic_incident_id i' = ident" "incident_ok i'" "ic_state i' = Open"
      "map_of (open_index u) (ic_correlation_key i') = None"
      "open_index u' = AList.update (ic_correlation_key i') ident (open_index u)"
    and g: "uw_ids u (uw_generated u) = Inr ident" "uw_generated u < uw_generated u'" "same_environment u u'"
    unfolding creates_def by blast
  have new: "map_of (incidents u) ident = None"
  proof (rule ccontr)
    assume "map_of (incidents u) ident \<noteq> None"
    then obtain j where "map_of (incidents u) ident = Some j" by blast
    with assms(2) obtain n where "n < uw_generated u" "uw_ids u n = Inr ident" unfolding uow_ok_def by blast
    with g(1) id_source.fresh[OF assms(3)] show False by fastforce
  qed
  have inc: "map_of (incidents u') = (map_of (incidents u))(ident \<mapsto> i')" by (simp add: i(1) update_conv')
  have act: "active i'" by (simp add: active_def i(4))
  have idx: "map_of (open_index u) k = Some x \<longleftrightarrow> (\<exists>j. map_of (incidents u) x = Some j \<and> ic_correlation_key j = k \<and> active j)" for k x
    using assms(2) by (simp add: uow_ok_iff)
  have "map_of (open_index u') k = Some x \<longleftrightarrow> (\<exists>j. map_of (incidents u') x = Some j \<and> ic_correlation_key j = k \<and> active j)" for k x
    using idx[of k x] idx[of k ident] i(5) new act inc by (auto simp: i(6) update_conv' split: if_splits)
  moreover have "filed u' x j" if "map_of (incidents u') x = Some j" for x j
  proof (cases "x = ident")
    case True
    with that inc i g show ?thesis by (auto simp: filed_def same_environment_def)
  next
    case False
    with that inc assms(2) show ?thesis by (intro filed_later[OF g(3)]) (simp add: uow_ok_iff)
  qed
  moreover have "distinct (map fst (incidents u'))" "distinct (map fst (open_index u'))"
    using assms(2) by (simp_all add: uow_ok_iff i(1,6) distinct_update)
  ultimately show ?thesis unfolding uow_ok_iff by blast
qed

lemma step_ids: "uow_step auth u u' \<Longrightarrow> uw_ids u' = uw_ids u"
  by (erule uow_step.cases) (simp_all add: quiet_def changes_def creates_def same_environment_def)

lemma uow_ok_step:
  assumes "uow_step auth u u'" "uow_ok u" "id_source (uw_ids u)"
  shows "uow_ok u' \<and> id_source (uw_ids u')"
proof
  show "id_source (uw_ids u')" using step_ids[OF assms(1)] assms(3) by simp
  from assms show "uow_ok u'" by (cases rule: uow_step.cases) (blast intro: uow_ok_quiet uow_ok_changes uow_ok_creates)+
qed

lemma uow_ok_steps:
  "(uow_step auth)\<^sup>*\<^sup>* u u' \<Longrightarrow> uow_ok u \<Longrightarrow> id_source (uw_ids u) \<Longrightarrow> uow_ok u' \<and> id_source (uw_ids u')"
  by (induction rule: rtranclp_induct) (auto dest: uow_ok_step)

lemma uow_ok_new: "uow_ok (with_policies cp rp (new_uow ids clock encode))"
  by (simp add: uow_ok_def with_policies_def new_uow_def new_incident_store_def)

lemma outcome_after: "wp m (outcome auth u) u \<Longrightarrow> \<not> fst (after m u) \<and> (uow_step auth)\<^sup>*\<^sup>* u (snd (after m u))"
  by (auto simp: wp_def outcome_def after_def split: prod.splits sum.splits failure.splits)

lemma perform_steps:
  assumes "uow_ok u"
  shows "\<not> fst (perform c u) \<and> (uow_step (caller c))\<^sup>*\<^sup>* u (snd (perform c u))"
proof -
  have "list_all (incident_ok \<circ> snd) (incidents u)"
    using assms by (auto simp: uow_ok_def list_all_iff)
  note facts = this assms
  show ?thesis
    by (cases c; simp only: perform.simps caller.simps; rule outcome_after;
        simp add: facts ingest_wp manual_wp command_wp export_wp notification_wp enter_recovering_wp
          silent_wp confirm_wp abort_recovery_wp closure_wp)
qed

lemma uow_run_ok:
  "uow_ok u \<Longrightarrow> id_source (uw_ids u) \<Longrightarrow> uow_ok (uow_run calls u) \<and> id_source (uw_ids (uow_run calls u))"
  unfolding uow_run_def
proof (induction calls arbitrary: u)
  case (Cons c calls)
  from perform_steps[OF Cons(2), of c] uow_ok_steps Cons(2,3)
  have "uow_ok (snd (perform c u)) \<and> id_source (uw_ids (snd (perform c u)))" by blast
  with Cons.IH show ?case by simp
qed simp


context id_source
begin

lemma reachable_ok: "uow_ok (uow_run calls (with_policies cp rp (new_uow ids clock encode)))"
proof -
  have "id_source (uw_ids (with_policies cp rp (new_uow ids clock encode)))"
    using id_source_axioms by (simp add: new_uow_def with_policies_def)
  then show ?thesis using uow_run_ok uow_ok_new by blast
qed

lemma reachable_ids: "id_source (uw_ids (uow_run calls (with_policies cp rp (new_uow ids clock encode))))"
proof -
  have "id_source (uw_ids (with_policies cp rp (new_uow ids clock encode)))"
    using id_source_axioms by (simp add: new_uow_def with_policies_def)
  then show ?thesis using uow_run_ok uow_ok_new by blast
qed

end

section \<open>Properties\<close>

text \<open>
  Property C7. At most one incident is active per correlation key. In every history of calls by any
  callers, the open index lists exactly the incidents that are neither resolved nor closed, each
  under its own key; two active incidents with the same key are the same incident. It needs only
  that the identifier generator never repeats itself.\<close>

theorem one_active_incident_per_key:
  assumes "id_source ids" "u = uow_run calls (with_policies cp rp (new_uow ids clock encode))"
  shows "(map_of (sto_open_index (uw_store u)) k = Some ident \<longleftrightarrow>
      (\<exists>i. map_of (sto_incidents (uw_store u)) ident = Some i \<and> ic_correlation_key i = k \<and>
         ic_state i \<noteq> Resolved \<and> ic_state i \<noteq> Closed)) \<and>
    (\<forall>i j. map_of (sto_incidents (uw_store u)) a = Some i \<longrightarrow> map_of (sto_incidents (uw_store u)) b = Some j \<longrightarrow>
       ic_state i \<notin> {Resolved, Closed} \<longrightarrow> ic_state j \<notin> {Resolved, Closed} \<longrightarrow>
       ic_correlation_key i = ic_correlation_key j \<longrightarrow> a = b)"
proof -
  have ok: "uow_ok u" using id_source.reachable_ok[OF assms(1)] assms(2) by simp
  have idx: "map_of (open_index u) k = Some x \<longleftrightarrow>
      (\<exists>j. map_of (incidents u) x = Some j \<and> ic_correlation_key j = k \<and> active j)" for k x
    using ok by (simp add: uow_ok_iff)
  have "a = b" if "map_of (incidents u) a = Some i" "map_of (incidents u) b = Some j" "active i" "active j"
      "ic_correlation_key i = ic_correlation_key j" for i j
    using that idx[of "ic_correlation_key i" a] idx[of "ic_correlation_key i" b] by auto
  with idx[of k ident] show ?thesis by (auto simp: active_def)
qed

lemma step_incident:
  assumes "uow_step auth u u'" "uow_ok u" "id_source (uw_ids u)" "map_of (incidents u) ident = Some i"
  shows "\<exists>i'. map_of (incidents u') ident = Some i' \<and> same_identity i i' \<and> (ic_ever_critical i \<longrightarrow> ic_ever_critical i') \<and>
    (ic_tenant_id i \<noteq> cx_tenant auth \<longrightarrow> i' = i)"
  using assms(1)
proof cases
  case unchanged
  with assms(4) show ?thesis by (auto simp: quiet_def same_identity_def)
next
  case (changed x)
  then show ?thesis using assms(4) by (cases "x = ident") (auto simp: changes_def good_change_def same_identity_def)
next
  case (created x)
  have "x \<noteq> ident"
  proof
    assume "x = ident"
    have "filed u ident i" using assms(2,4) unfolding uow_ok_iff by blast
    then obtain n where "n < uw_generated u" "uw_ids u n = Inr ident" by (auto simp: filed_def)
    with created \<open>x = ident\<close> id_source.fresh[OF assms(3), of n ident "uw_generated u"] show False
      by (auto simp: creates_def)
  qed
  with created assms(4) show ?thesis by (auto simp: creates_def update_conv' same_identity_def)
qed

lemma steps_incident:
  assumes "(uow_step auth)\<^sup>*\<^sup>* u u'" "uow_ok u" "id_source (uw_ids u)" "map_of (incidents u) ident = Some i"
  shows "\<exists>i'. map_of (incidents u') ident = Some i' \<and> same_identity i i' \<and> (ic_ever_critical i \<longrightarrow> ic_ever_critical i') \<and>
    (ic_tenant_id i \<noteq> cx_tenant auth \<longrightarrow> i' = i)"
  using assms(1)
proof (induction rule: rtranclp_induct)
  case base
  with assms(4) show ?case by (simp add: same_identity_def)
next
  case (step v w)
  then obtain j where j: "map_of (incidents v) ident = Some j" "same_identity i j" "ic_ever_critical i \<longrightarrow> ic_ever_critical j"
      "ic_tenant_id i \<noteq> cx_tenant auth \<longrightarrow> j = i" by blast
  from uow_ok_steps[OF step(1) assms(2,3)] have "uow_ok v" "id_source (uw_ids v)" by simp_all
  from step_incident[OF step(2) this j(1)] j show ?case by (auto simp: same_identity_def)
qed


lemma step_new_incident:
  "uow_step auth u u' \<Longrightarrow> map_of (incidents u) ident = None \<Longrightarrow> map_of (incidents u') ident = Some i \<Longrightarrow>
     ic_tenant_id i = cx_tenant auth"
  by (erule uow_step.cases) (auto simp: quiet_def changes_def creates_def update_conv' split: if_splits)

lemma steps_new_incident:
  assumes "(uow_step auth)\<^sup>*\<^sup>* u u'" "map_of (incidents u) ident = None" "map_of (incidents u') ident = Some i"
  shows "ic_tenant_id i = cx_tenant auth"
  using assms(1,3)
proof (induction arbitrary: i rule: rtranclp_induct)
  case (step v w)
  show ?case
  proof (cases "map_of (incidents v) ident")
    case None
    with step_new_incident[OF step(2)] step(4) show ?thesis by simp
  next
    case (Some j)
    from step(2) have "\<exists>i'. map_of (incidents w) ident = Some i' \<and> ic_tenant_id i' \<in> {ic_tenant_id j, cx_tenant auth}"
      using Some by cases (auto simp: quiet_def changes_def creates_def good_change_def same_identity_def update_conv' split: if_splits)
    with step(3)[OF Some] step(4) show ?thesis by auto
  qed
qed (use assms(2) in simp)

lemma run_incident:
  assumes "uow_ok u" "id_source (uw_ids u)" "map_of (incidents u) ident = Some i"
  shows "\<exists>i'. map_of (incidents (uow_run calls u)) ident = Some i' \<and> same_identity i i' \<and> (ic_ever_critical i \<longrightarrow> ic_ever_critical i')"
  using assms
proof (induction calls arbitrary: u i)
  case Nil
  then show ?case by (simp add: uow_run_def same_identity_def)
next
  case (Cons c calls)
  let ?v = "snd (perform c u)"
  have steps: "(uow_step (caller c))\<^sup>*\<^sup>* u ?v" using perform_steps[OF Cons(2), of c] by simp
  obtain j where j: "map_of (incidents ?v) ident = Some j" "same_identity i j" "ic_ever_critical i \<longrightarrow> ic_ever_critical j"
    using steps_incident[OF steps Cons(2-4)] by blast
  have "uow_ok ?v" "id_source (uw_ids ?v)" using uow_ok_steps[OF steps Cons(2,3)] by simp_all
  from Cons.IH[OF this j(1)] j show ?case by (auto simp: uow_run_def same_identity_def)
qed

lemma step_policy: "uow_step auth u u' \<Longrightarrow> uw_closure_policy u' = uw_closure_policy u"
  by (erule uow_step.cases) (simp_all add: quiet_def changes_def creates_def same_environment_def)

lemma run_policy:
  "uow_ok u \<Longrightarrow> id_source (uw_ids u) \<Longrightarrow> uw_closure_policy (uow_run calls u) = uw_closure_policy u"
proof (induction calls arbitrary: u)
  case (Cons c calls)
  let ?v = "snd (perform c u)"
  have steps: "(uow_step (caller c))\<^sup>*\<^sup>* u ?v" using perform_steps[OF Cons(2), of c] by simp
  then have "uw_closure_policy ?v = uw_closure_policy u" by (induction rule: rtranclp_induct) (auto dest: step_policy)
  moreover have "uow_ok ?v" "id_source (uw_ids ?v)" using uow_ok_steps[OF steps Cons(2,3)] by simp_all
  ultimately show ?case using Cons.IH[of ?v] by (simp add: uow_run_def)
qed (simp add: uow_run_def)

text \<open>
  Property C8. No panic, and every change is legal and logged. In every reachable state, a call does
  not panic and amounts to a sequence of steps, each of which leaves the incidents alone, opens one
  incident of the caller's tenant, or changes one incident of that tenant: along a legal edge, with
  the next version number, with the open index following it, and with a timeline entry and an allowed
  audit entry in the caller's name for exactly that incident.\<close>

theorem calls_refine_steps:
  assumes "id_source ids" "u = uow_run calls (with_policies cp rp (new_uow ids clock encode))"
  shows "\<not> fst (perform c u) \<and> (uow_step (caller c))\<^sup>*\<^sup>* u (snd (perform c u))"
  using perform_steps id_source.reachable_ok[OF assms(1)] assms(2) by blast

text \<open>
  Property C22. Tenants are isolated. No call by a caller of one tenant changes or removes an incident
  of another, and every incident it adds belongs to the caller's tenant. A command on another
  tenant's incident is answered exactly like one on an incident that does not exist, without effect.\<close>

theorem tenants_are_isolated:
  assumes "id_source ids" "u = uow_run calls (with_policies cp rp (new_uow ids clock encode))" "u' = snd (perform c u)"
  shows "(\<forall>i. map_of (sto_incidents (uw_store u)) ident = Some i \<longrightarrow> ic_tenant_id i \<noteq> cx_tenant (caller c) \<longrightarrow>
      map_of (sto_incidents (uw_store u')) ident = Some i) \<and>
    (\<forall>i. map_of (sto_incidents (uw_store u)) ident = None \<longrightarrow> map_of (sto_incidents (uw_store u')) ident = Some i \<longrightarrow>
      ic_tenant_id i = cx_tenant (caller c)) \<and>
    ((\<forall>i. map_of (sto_incidents (uw_store u)) ident = Some i \<longrightarrow> ic_tenant_id i \<noteq> cx_tenant auth) \<longrightarrow>
      has auth (required_permission command) \<longrightarrow> handle_command auth ident command key u = (Inl (Err NotFound), u))"
proof -
  have ok: "uow_ok u" "id_source (uw_ids u)"
    using id_source.reachable_ok[OF assms(1)] id_source.reachable_ids[OF assms(1)] assms(2) by simp_all
  have steps: "(uow_step (caller c))\<^sup>*\<^sup>* u u'" using perform_steps[OF ok(1), of c] assms(3) by simp
  have "ic_tenant_id i = cx_tenant (caller c)"
    if "map_of (incidents u) ident = None" "map_of (incidents u') ident = Some i" for i
    using steps that by (rule steps_new_incident)
  moreover have "handle_command auth ident command key u = (Inl (Err NotFound), u)"
    if "\<forall>i. map_of (incidents u) ident = Some i \<longrightarrow> ic_tenant_id i \<noteq> cx_tenant auth" "has auth (required_permission command)"
    using that by (auto simp: handle_command_def bind_uow_def check_permission_def ret_def get_incident_def from_result_def
        ok_or_def check_tenant_def fail_def split: option.splits)
  ultimately show ?thesis using steps_incident[OF steps ok, of ident] by blast
qed

text \<open>
  Property C24. Critical incidents never close themselves. Once an incident has been critical, then
  under a policy that requires manual closure of critical incidents no automatic closure attempt
  changes any incident, whatever happened in between, downgrades included.\<close>

theorem critical_incidents_stay_open:
  assumes "id_source ids" "u = uow_run calls (with_policies cp rp (new_uow ids clock encode))"
    and "map_of (sto_incidents (uw_store u)) ident = Some i" "ic_severity i = Critical"
    and "u' = uow_run calls' u" "cp_critical_manual_closure_required cp"
  shows "sto_incidents (uw_store (snd (attempt_automatic_closure auth ident u'))) = sto_incidents (uw_store u')"
proof -
  have ok: "uow_ok u" "id_source (uw_ids u)"
    using id_source.reachable_ok[OF assms(1)] id_source.reachable_ids[OF assms(1)] assms(2) by simp_all
  have "incident_ok i" using ok(1) assms(3) unfolding uow_ok_iff filed_def by blast
  then have "ic_ever_critical i" using assms(4) by (simp add: incident_ok_def)
  then obtain i' where i': "map_of (incidents u') ident = Some i'" "ic_ever_critical i'"
    using run_incident[OF ok assms(3), of calls'] assms(5) by auto
  moreover have "uw_closure_policy u' = cp"
    using run_policy[OF ok, of calls'] run_policy[OF uow_ok_new, of cp rp ids clock encode calls] assms(1,2,5)
    by (simp add: with_policies_def new_uow_def)
  ultimately show ?thesis
    using assms(6)
    by (auto simp: attempt_automatic_closure_def bind_uow_def check_permission_def append_audit_def modify_store_def Let_def
        ret_def get_incident_def from_result_def ok_or_def check_tenant_def fail_def reads_def decide_automatic_closure_def
        allows_automatic_closure_def)
qed


lemma step_encode: "uow_step auth u u' \<Longrightarrow> uw_encode u' = uw_encode u"
  by (erule uow_step.cases) (simp_all add: quiet_def changes_def creates_def same_environment_def)

lemma command_run_cases:
  assumes "has auth (required_permission c)"
  shows "handle_command auth ident c (Some k) u =
    (case map_of (incidents u) ident of
       None \<Rightarrow> (Inl (Err NotFound), u)
     | Some i \<Rightarrow>
         if ic_tenant_id i \<noteq> cx_tenant auth then (Inl (Err NotFound), u)
         else case idempotency_check (cx_tenant auth) k (uw_encode u (CommandRequest ident c)) (sto_idempotency (uw_store u)) of
             CheckReplay (Mutated _ version) \<Rightarrow> (Inr version, u)
           | CheckReplay (Failed e) \<Rightarrow> (Inl (Err e), u)
           | CheckConflict \<Rightarrow> (Inl (Err IdempotencyConflict), u)
           | CheckNew \<Rightarrow>
               if expected_version c \<noteq> None \<and> expected_version c \<noteq> Some (ic_version i)
               then (Inl (Err (VersionConflict (the (expected_version c)) (ic_version i) (ic_state i))), u)
               else case apply_command auth ident c u of
                   (r, u1) \<Rightarrow> (r, record_outcome auth (Some k) (uw_encode u (CommandRequest ident c)) r (Mutated ident) u1))"
  using assms
  by (simp add: handle_command_def bind_uow_def check_permission_def ret_def get_incident_def from_result_def
      ok_or_def check_tenant_def fail_def reads_def and_then_def Let_def
      split: option.split IdempotencyCheck.split StoredOutcome.split)

lemma command_run_shape:
  assumes "handle_command auth ident c (Some k) u = (r, u')" "has auth (required_permission c)"
  shows "u' = u \<or> (\<exists>i u1. map_of (incidents u) ident = Some i \<and> ic_tenant_id i = cx_tenant auth
      \<and> apply_command auth ident c u = (r, u1)
      \<and> u' = record_outcome auth (Some k) (uw_encode u (CommandRequest ident c)) r (Mutated ident) u1)"
  using assms(1) unfolding command_run_cases[OF assms(2)]
  by (simp split: option.splits if_split_asm IdempotencyCheck.splits StoredOutcome.splits prod.splits)

lemma recorded_outcome:
  assumes "r \<noteq> Inl Panic" "\<And>s. r \<noteq> Inl (Err (InternalInvariantViolation s))"
  shows "record_outcome auth (Some k) bytes r stored u = u\<lparr>uw_store := (uw_store u)\<lparr>sto_idempotency :=
      idempotency_record (cx_tenant auth) k bytes
        (case r of Inl e \<Rightarrow> (case e of Err x \<Rightarrow> Failed x) | Inr a \<Rightarrow> stored a)
        (sto_idempotency (uw_store u))\<rparr>\<rparr>"
  using assms by (auto simp: record_outcome_def Let_def split: sum.split failure.split IncidentError.split)

lemma recorded_is_replayed: "idempotency_check t k bytes (idempotency_record t k bytes kept records) = CheckReplay kept"
  by (simp add: idempotency_check_def idempotency_record_def update_conv')

text \<open>
  Property C23. Replaying a command is harmless. When a permitted command carrying an idempotency key
  has been answered, with any result but an internal invariant violation, then sending it again is
  answered the same way and changes nothing.\<close>

theorem command_replay_is_idempotent:
  assumes "id_source ids" "u = uow_run calls (with_policies cp rp (new_uow ids clock encode))" "has auth (required_permission c)"
    and run: "handle_command auth ident c (Some k) u = (r, u')"
    and "\<And>s. r \<noteq> Inl (Err (InternalInvariantViolation s))"
  shows "handle_command auth ident c (Some k) u' = (r, u')"
proof -
  have ok: "uow_ok u" "id_source (uw_ids u)"
    using id_source.reachable_ok[OF assms(1)] id_source.reachable_ids[OF assms(1)] assms(2) by simp_all
  consider (same) "u' = u" | (ran) i u1 where "map_of (incidents u) ident = Some i" "ic_tenant_id i = cx_tenant auth"
      "apply_command auth ident c u = (r, u1)"
      "u' = record_outcome auth (Some k) (uw_encode u (CommandRequest ident c)) r (Mutated ident) u1"
    using command_run_shape[OF run assms(3)] by blast
  then show ?thesis
  proof cases
    case same
    with run show ?thesis by simp
  next
    case (ran i u1)
    have "owned auth ident u" using ran by (simp add: owned_def)
    from apply_command_wp[OF this, of c] ran(3) have r: "r \<noteq> Inl Panic" "(uow_step auth)\<^sup>*\<^sup>* u u1"
      by (simp_all add: wp_def outcome_def)
    obtain i' where i': "map_of (incidents u1) ident = Some i'" "same_identity i i'"
      using steps_incident[OF r(2) ok ran(1)] by blast
    have "uw_encode u1 = uw_encode u" using r(2) by (induction rule: rtranclp_induct) (auto dest: step_encode)
    with i' ran(2) assms(3) have "handle_command auth ident c (Some k) u' =
        (case r of Inl e \<Rightarrow> (case e of Err x \<Rightarrow> Inl (Err x)) | Inr v \<Rightarrow> Inr v, u')"
      using r(1) unfolding ran(4) recorded_outcome[OF r(1) assms(5)]
      by (cases r) (simp_all add: command_run_cases recorded_is_replayed same_identity_def split: failure.split)
    then show ?thesis using r(1) by (auto split: sum.split failure.split)
  qed
qed


definition recovering_from :: "IncidentId \<Rightarrow> DurableTimestamp option \<Rightarrow> Uow \<Rightarrow> bool" where
  "recovering_from ident since u \<longleftrightarrow>
     (\<exists>i. map_of (incidents u) ident = Some i \<and> ic_state i = Recovering \<and> ic_recovering_since i = since)"

lemma recovering_frame:
  "incidents (u\<lparr>uw_audit_sequence := n, uw_store := st\<rparr>) = incidents u \<Longrightarrow>
     recovering_from ident since (u\<lparr>uw_audit_sequence := n, uw_store := st\<rparr>) = recovering_from ident since u"
  by (simp add: recovering_from_def)

lemma wp_mono: "wp m P u \<Longrightarrow> (\<And>r u'. P r u' \<Longrightarrow> Q r u') \<Longrightarrow> wp m Q u"
  by (auto simp: wp_def)

lemma note_policy_state [simp]:
  "ic_state (note_policy event i) = ic_state i" "ic_recovering_since (note_policy event i) = ic_recovering_since i"
  by (simp_all add: note_policy_def split: option.split)

lemma recovering_while_linking:
  "recovering_from ident since u \<Longrightarrow> wp (link_event auth ident event late) (\<lambda>_. recovering_from ident since) u"
  by (auto simp: recovering_from_def link_event_def uow_wp Let_def update_conv' linked_incident_def split: sum.split)

lemma recovering_while_recovering:
  assumes "recovering_from ident since u"
  shows "wp (ignore_error (enter_recovering auth ident reason)) (\<lambda>_. recovering_from ident since) u"
proof -
  have "wp (enter_recovering auth ident reason) (\<lambda>_. recovering_from ident since) u"
    using assms by (auto simp: recovering_from_def enter_recovering_def uow_wp decide_enter_recovering_def split: sum.split)
  then show ?thesis by (auto simp: wp_def ignore_error_def split: prod.splits sum.splits failure.splits)
qed

lemma recovering_while_ingesting:
  assumes "recovering_from ident since u"
  shows "wp (ingest_open auth event ident) (\<lambda>_. recovering_from ident since) u"
  unfolding ingest_open_def wp_bind wp_dedup_record sum.case
  by (rule wp_mono[OF recovering_while_linking])
    (use assms in \<open>auto simp: recovering_from_def wp_ret intro!: wp_mono[OF recovering_while_recovering] split: sum.splits\<close>)

text \<open>
  Property C36. A recurring attack does not interrupt recovery. While an incident is recovering, an
  event on its target, whatever it reports, leaves the incident recovering and leaves the start of
  its confirmation period where it was, so that the period runs on under a live attack.\<close>

theorem events_do_not_abort_recovery:
  assumes "map_of (sto_open_index (uw_store u)) (event_key event) = Some ident"
    and "map_of (sto_incidents (uw_store u)) ident = Some i" "ic_state i = Recovering"
  shows "\<exists>i'. map_of (sto_incidents (uw_store (snd (ingest_detection_event auth event u)))) ident = Some i' \<and>
    ic_state i' = Recovering \<and> ic_recovering_since i' = ic_recovering_since i"
proof -
  have at: "recovering_from ident (ic_recovering_since i) u" using assms by (simp add: recovering_from_def)
  have "wp (ingest_detection_event auth event) (\<lambda>_. recovering_from ident (ic_recovering_since i)) u"
    using at recovering_while_ingesting[OF at] assms(1)
    by (simp add: ingest_detection_event_def uow_wp Let_def recovering_frame split: option.split)
  then show ?thesis by (auto dest!: wp_snd simp: recovering_from_def)
qed

lemma timestamp_floor: "- ((- w) div 1000 + (if (- w) mod 1000 \<noteq> 0 then 1 else 0)) = w div (1000 :: int)"
  using pos_mod_bound[of 1000 w] by (auto simp: zdiv_zminus1_eq_if zmod_zminus1_eq_if)

lemma from_system_time_floor:
  "from_system_time wall = (if - i64_max \<le> wall div 1000 \<and> wall div 1000 \<le> i64_max then Inr (wall div 1000) else Inl out_of_range)"
proof (cases "wall \<ge> 0")
  case True
  moreover from this have "0 \<le> wall div 1000" by simp
  ultimately show ?thesis by (auto simp: from_system_time_def Let_def i64_max_def)
next
  case False
  let ?down = "(- wall) div 1000 + (if (- wall) mod 1000 \<noteq> 0 then 1 else 0)"
  have "wall div 1000 = - ?down" using timestamp_floor[of wall] by simp
  moreover have "wall div 1000 < 0" using False by (simp add: neg_imp_zdiv_neg_iff)
  moreover have "(- wall) div 1000 \<le> ?down" by simp
  moreover have "0 \<le> i64_max" by (simp add: i64_max_def)
  ultimately show ?thesis using False unfolding from_system_time_def Let_def
    by (simp only: if_False not_le if_splits) (linarith | auto)
qed

text \<open>
  Property C38. Durable timestamps round towards the past on both sides of the epoch: a wall-clock reading
  in nanoseconds converts to the whole microseconds before it whenever they fit in an \<open>i64\<close>, with one
  exception. The least \<open>i64\<close> fits and is refused, because the magnitude is converted before its sign.
  Later readings never get an earlier timestamp.\<close>

theorem durable_timestamps_are_floors:
  "from_system_time wall =
     (if wall div 1000 \<in> {- (2 ^ 63) .. 2 ^ 63 - 1} \<and> wall div 1000 \<noteq> - (2 ^ 63) then Inr (wall div 1000)
      else Inl out_of_range) \<and>
   (from_system_time wall = Inr t \<and> from_system_time (wall + later) = Inr t' \<and> 0 \<le> later \<longrightarrow> t \<le> t')"
  using zdiv_mono1[of wall "wall + later" 1000]
  by (auto simp: from_system_time_floor i64_max_def split: if_splits)

theorem durable_timestamps_are_floors_witness:
  "from_system_time (- 1001) = Inr (- 2) \<and> from_system_time (- (2 ^ 63) * 1000) = Inl out_of_range"
  using durable_timestamps_are_floors[of "- 1001"] durable_timestamps_are_floors[of "- (2 ^ 63) * 1000"] by simp


text \<open>
  Property C37. A resolution note escapes the limits on notes. A permitted resolve command on the
  caller's active incident appends its note whatever its length and however many notes are there,
  where adding the same note on its own is refused and changes nothing.\<close>

theorem resolution_note_escapes_limits:
  assumes "map_of (sto_incidents (uw_store u)) ident = Some i" "ic_tenant_id i = cx_tenant auth"
    and "has auth IncidentResolve" "has auth IncidentNoteCreate" "ic_state i \<notin> {Resolved, Closed}"
    and "ic_version i \<noteq> - 1" "from_system_time (uw_clock u (uw_reads u)) = Inr now"
    and "length body > NOTE_BODY_MAX_LEN \<or> length (ic_notes i) \<ge> NOTES_PER_INCIDENT_MAX"
  shows "(\<exists>i'. map_of (sto_incidents (uw_store (snd (handle_command auth ident
        (ResolveIncident (ic_version i) (Some body)) None u)))) ident = Some i' \<and> ic_state i' = Resolved \<and>
        map nt_body (ic_notes i') = map nt_body (ic_notes i) @ [body]) \<and>
    (case handle_command auth ident (AddNote body Internal) None u of
       (r, u') \<Rightarrow> isl r \<and> sto_incidents (uw_store u') = sto_incidents (uw_store u))"
proof
  have legal: "can_operator_transition_to (ic_state i) Resolved" using assms(5) by (cases "ic_state i") auto
  have "wp (handle_command auth ident (ResolveIncident (ic_version i) (Some body)) None) (\<lambda>_ u'.
      \<exists>i'. map_of (incidents u') ident = Some i' \<and> ic_state i' = Resolved \<and>
        map nt_body (ic_notes i') = map nt_body (ic_notes i) @ [body]) u"
    using assms(1-3,5-7) legal
    by (simp add: handle_command_def resolve_internal_def uow_wp update_conv' Let_def record_outcome_def new_note_def)
  from wp_snd[OF this] show "\<exists>i'. map_of (incidents (snd (handle_command auth ident
      (ResolveIncident (ic_version i) (Some body)) None u))) ident = Some i' \<and> ic_state i' = Resolved \<and>
      map nt_body (ic_notes i') = map nt_body (ic_notes i) @ [body]" by simp
next
  have "wp (handle_command auth ident (AddNote body Internal) None) (\<lambda>r u'. isl r \<and> incidents u' = incidents u) u"
    using assms(1,2,4,7,8)
    by (auto simp: handle_command_def add_note_def validate_note_body_def uow_wp Let_def record_outcome_def split: sum.split)
  then show "case handle_command auth ident (AddNote body Internal) None u of (r, u') \<Rightarrow> isl r \<and> incidents u' = incidents u"
    by (simp add: wp_def)
qed

section \<open>Witnesses\<close>

text \<open>A lead opens a critical incident by hand; the identifier is the generator's first.\<close>

definition desk_lead :: AuthorizationContext where
  "desk_lead = \<lparr>cx_tenant = TenantId (lit ''acme''), cx_actor = Operator (lit ''lead''),
     cx_granted = IncidentIngest # permissions_for ''noc_lead''\<rparr>"

definition desk_stranger :: AuthorizationContext where
  "desk_stranger = desk_lead\<lparr>cx_tenant := TenantId (lit ''other'')\<rparr>"

definition desk_manual :: ManualIncident where
  "desk_manual = \<lparr>mi_title = lit ''flood'', mi_description = None, mi_severity = Critical, mi_priority = None,
     mi_target_type = HostScope, mi_target_identity = HostId (V4 1), mi_direction = TrafficIncoming, mi_address_family = Ipv4\<rparr>"

abbreviation desk_id :: IncidentId where
  "desk_id \<equiv> mix 7 0"

definition desk_uow :: Uow where
  "desk_uow = with_policies default_closure_policy default_reopen_policy
     (new_uow (placeholder_ids 7) (\<lambda>n. int n * 10 ^ 9) (\<lambda>_. []))"

definition desk_incident :: Incident where
  "desk_incident = manual_incident desk_id (from_sequence 2026 1) (cx_tenant desk_lead)
     (manual_correlation_key desk_manual (cx_tenant desk_lead)) (cx_actor desk_lead) 0 desk_manual"

definition desk_start :: Uow where
  "desk_start = uow_run [ManualCall desk_lead desk_manual None] desk_uow"

lemma desk_may: "has desk_lead IncidentCreate" "has desk_lead IncidentIngest" "has desk_lead IncidentResolve"
    "has desk_lead IncidentNoteCreate" "has desk_lead IncidentSeverityChange"
    "has desk_lead IncidentAssign" "has desk_stranger IncidentAssign"
  by (simp_all add: has_def desk_stranger_def desk_lead_def permissions_for_def Let_def)

lemma desk_valid: "validate_manual desk_manual = Inr ()"
  by (simp add: validate_manual_def Let_def desk_manual_def trim_def is_whitespace_def lit_def TITLE_MAX_LEN_def manual_target_ok_def)

lemma desk_first_id: "placeholder_ids 7 0 = Inr desk_id"
  by (simp add: placeholder_ids_def placeholder_generate_def checked_increment_def ok_or_def)

lemma desk_opens:
  "wp (create_manual_incident desk_lead desk_manual None) (\<lambda>_ u. sto_incidents (uw_store u) = [(desk_id, desk_incident)] \<and>
     sto_open_index (uw_store u) = [(ic_correlation_key desk_incident, desk_id)] \<and> uw_reads u = 1 \<and>
     uw_clock u = (\<lambda>n. int n * 10 ^ 9) \<and> sto_idempotency (uw_store u) = []) desk_uow"
  by (simp add: create_manual_incident_def open_manual_incident_def uow_wp desk_may desk_valid desk_uow_def with_policies_def
      new_uow_def new_incident_store_def from_system_time_def i64_max_def desk_first_id allocate_number_def Let_def
      record_outcome_def desk_incident_def manual_incident_def)

lemma desk_opened:
  "sto_incidents (uw_store desk_start) = [(desk_id, desk_incident)]"
  "sto_open_index (uw_store desk_start) = [(ic_correlation_key desk_incident, desk_id)]"
  "uw_reads desk_start = 1" "uw_clock desk_start = (\<lambda>n. int n * 10 ^ 9)"
  "sto_idempotency (uw_store desk_start) = []"
  using wp_snd[OF desk_opens] by (simp_all add: desk_start_def uow_run_def after_def split_beta)

lemma desk_tenants: "ic_tenant_id desk_incident = cx_tenant desk_lead" "cx_tenant desk_lead \<noteq> cx_tenant desk_stranger"
  by (simp_all add: desk_incident_def manual_incident_def desk_stranger_def desk_lead_def lit_def)

lemma desk_state: "ic_state desk_incident = Open" "ic_severity desk_incident = Critical" "ic_version desk_incident = 1"
    "ic_notes desk_incident = []"
  by (simp_all add: desk_incident_def manual_incident_def desk_manual_def)

lemma desk_run: "desk_start = uow_run [ManualCall desk_lead desk_manual None]
    (with_policies default_closure_policy default_reopen_policy (new_uow (placeholder_ids 7) (\<lambda>n. int n * 10 ^ 9) (\<lambda>_. [])))"
  by (simp add: desk_start_def desk_uow_def)

theorem one_active_incident_per_key_witness:
  "map_of (sto_open_index (uw_store desk_start)) (ic_correlation_key desk_incident) = Some desk_id \<and>
   (\<exists>i. map_of (sto_incidents (uw_store desk_start)) desk_id = Some i \<and>
      ic_correlation_key i = ic_correlation_key desk_incident \<and> ic_state i \<noteq> Resolved \<and> ic_state i \<noteq> Closed)"
  using one_active_incident_per_key[OF placeholder.id_source_axioms desk_run, THEN conjunct1,
      of "ic_correlation_key desk_incident" desk_id]
  by (simp add: desk_opened(2))

theorem calls_refine_steps_witness:
  "\<not> fst (perform (RecoverCall desk_lead desk_id EndTrafficCleared) desk_start) \<and>
   (uow_step desk_lead)\<^sup>*\<^sup>* desk_start (snd (perform (RecoverCall desk_lead desk_id EndTrafficCleared) desk_start))"
  by (rule calls_refine_steps[OF placeholder.id_source_axioms desk_run,
      of "RecoverCall desk_lead desk_id EndTrafficCleared", unfolded caller.simps])

theorem tenants_are_isolated_witness:
  "map_of (sto_incidents (uw_store (snd (perform (RecoverCall desk_stranger desk_id EndTrafficCleared) desk_start)))) desk_id =
     Some desk_incident \<and>
   handle_command desk_stranger desk_id (UnassignIncident 1) None desk_start = (Inl (Err NotFound), desk_start)"
proof -
  let ?c = "RecoverCall desk_stranger desk_id EndTrafficCleared"
  have i: "map_of (sto_incidents (uw_store desk_start)) desk_id = Some desk_incident" by (simp add: desk_opened)
  have t: "ic_tenant_id desk_incident \<noteq> cx_tenant desk_stranger" using desk_tenants by simp
  note isolated = tenants_are_isolated[OF placeholder.id_source_axioms desk_run refl, where c = ?c and ident = desk_id
      and auth = desk_stranger and command = "UnassignIncident 1" and key = None, unfolded caller.simps]
  have "map_of (sto_incidents (uw_store (snd (perform ?c desk_start)))) desk_id = Some desk_incident"
    using isolated[THEN conjunct1] i t by blast
  moreover have "handle_command desk_stranger desk_id (UnassignIncident 1) None desk_start = (Inl (Err NotFound), desk_start)"
    by (rule isolated[THEN conjunct2, THEN conjunct2, rule_format]) (use i t in \<open>simp_all add: desk_may\<close>)
  ultimately show ?thesis ..
qed

theorem critical_incidents_stay_open_witness:
  "sto_incidents (uw_store (snd (attempt_automatic_closure desk_lead desk_id
     (uow_run [CommandCall desk_lead desk_id (ChangeSeverity 1 Info (Some (lit ''calm''))) None] desk_start)))) =
   sto_incidents (uw_store (uow_run [CommandCall desk_lead desk_id (ChangeSeverity 1 Info (Some (lit ''calm''))) None] desk_start))"
  by (rule critical_incidents_stay_open[OF placeholder.id_source_axioms desk_run, of desk_id desk_incident])
    (simp_all add: desk_opened desk_state default_closure_policy_def)

lemma desk_unassigns:
  "\<exists>u'. handle_command desk_lead desk_id (UnassignIncident 1) (Some (lit ''key'')) desk_start = (Inr 2, u')"
proof -
  have "wp (handle_command desk_lead desk_id (UnassignIncident 1) (Some (lit ''key''))) (\<lambda>r _. r = Inr 2) desk_start"
    by (simp add: handle_command_def assign_def uow_wp desk_may desk_opened desk_tenants desk_state Let_def
        idempotency_check_def from_system_time_def i64_max_def update_conv')
  then show ?thesis by (auto simp: wp_def split: prod.splits)
qed

theorem command_replay_is_idempotent_witness:
  "\<exists>u'. handle_command desk_lead desk_id (UnassignIncident 1) (Some (lit ''key'')) desk_start = (Inr 2, u') \<and>
     handle_command desk_lead desk_id (UnassignIncident 1) (Some (lit ''key'')) u' = (Inr 2, u')"
proof -
  obtain u' where run: "handle_command desk_lead desk_id (UnassignIncident 1) (Some (lit ''key'')) desk_start = (Inr 2, u')"
    using desk_unassigns by blast
  moreover have "handle_command desk_lead desk_id (UnassignIncident 1) (Some (lit ''key'')) u' = (Inr 2, u')"
    by (rule command_replay_is_idempotent[OF placeholder.id_source_axioms desk_run _ run]) (simp_all add: desk_may)
  ultimately show ?thesis by blast
qed

theorem resolution_note_escapes_limits_witness:
  "isl (fst (handle_command desk_lead desk_id (AddNote (replicate 16001 65) Internal) None desk_start)) \<and>
   (\<exists>i'. map_of (sto_incidents (uw_store (snd (handle_command desk_lead desk_id
      (ResolveIncident 1 (Some (replicate 16001 65))) None desk_start)))) desk_id = Some i' \<and> ic_state i' = Resolved \<and>
      map nt_body (ic_notes i') = [replicate 16001 65])"
  using resolution_note_escapes_limits[of desk_start desk_id desk_incident desk_lead 1000000 "replicate 16001 65"]
  by (simp add: desk_opened desk_tenants desk_may desk_state from_system_time_def i64_max_def NOTE_BODY_MAX_LEN_def split_beta)

definition desk_recovering :: Uow where
  "desk_recovering = snd (enter_recovering desk_lead desk_id EndTrafficCleared desk_start)"

lemma desk_recovers:
  "\<exists>i. map_of (sto_incidents (uw_store desk_recovering)) desk_id = Some i \<and> ic_state i = Recovering"
  "sto_open_index (uw_store desk_recovering) = [(ic_correlation_key desk_incident, desk_id)]"
proof -
  have "wp (enter_recovering desk_lead desk_id EndTrafficCleared) (\<lambda>_ u.
      (\<exists>i. map_of (incidents u) desk_id = Some i \<and> ic_state i = Recovering) \<and>
      open_index u = [(ic_correlation_key desk_incident, desk_id)]) desk_start"
    by (simp add: enter_recovering_def uow_wp desk_may desk_opened desk_tenants desk_state decide_enter_recovering_def
        from_system_time_def i64_max_def)
  from wp_snd[OF this] show "\<exists>i. map_of (incidents desk_recovering) desk_id = Some i \<and> ic_state i = Recovering"
    "open_index desk_recovering = [(ic_correlation_key desk_incident, desk_id)]" by (simp_all add: desk_recovering_def)
qed

definition desk_event :: DetectionEvent where
  "desk_event = \<lparr>de_schema_version = 1, de_event_id = lit ''e'', de_detection_id = lit ''d'', de_sequence = 1,
     de_kind = EventStarted, de_dedup_key = lit ''e'', de_policy_id = lit ''p1'', de_policy_name = lit ''p1'',
     de_policy_version = 1, de_severity = Critical, de_execution_mode = AlertOnly, de_action = Alerted, de_labels = [],
     de_target = \<lparr>tg_tenant = lit ''acme'', tg_scope_type = HostScope, tg_scope_id = HostId (V4 1), tg_display = [],
       tg_direction = TrafficIncoming, tg_address_family = Ipv4\<rparr>,
     de_previous_state = Idle, de_state = Active, de_reason = TriggerSustained, de_detected_at_ms = 0,
     de_observed_at_ms = 0, de_duration_ms = 0, de_window_ms = 5000, de_matched = [], de_peak = [], de_skipped = [],
     de_rates = default_rates, de_completeness = default_completeness, de_sampling = default_sampling,
     de_flows_observed = 1, de_exporters_observed = 1, de_snapshots_in_detection = 1, de_executed = False,
     de_summary = lit ''flood''\<rparr>"

theorem events_do_not_abort_recovery_witness:
  "\<exists>i. map_of (sto_incidents (uw_store (snd (ingest_detection_event desk_lead desk_event desk_recovering)))) desk_id = Some i \<and>
     ic_state i = Recovering"
proof -
  obtain i where "map_of (sto_incidents (uw_store desk_recovering)) desk_id = Some i" "ic_state i = Recovering"
    using desk_recovers(1) by blast
  moreover have "map_of (sto_open_index (uw_store desk_recovering)) (event_key desk_event) = Some desk_id"
    by (simp add: desk_recovers(2) event_key_def desk_event_def desk_incident_def manual_incident_def
        manual_correlation_key_def desk_manual_def desk_lead_def)
  ultimately show ?thesis using events_do_not_abort_recovery[of desk_recovering desk_event desk_id i desk_lead] by blast
qed

end
