(* ===== verification/Spec2Isabelle.thy ===== *)
theory Spec2Isabelle
  imports Ipfix_Replay Normalize Exporter Classifier Aggregator Mitigation Detection_Engine Detection_Window Detection_Config Incident_Safety
begin

text \<open>
  A verification library for Tidegard (WeTechi NetMon), a network flow monitor: IPFIX datagrams are
  decoded, normalized into flows, classified against the operator's prefixes, counted, compared with
  detection policies, and turned into detection events, incidents and guarded mitigations.

  \<^bold>\<open>Parts and theories.\<close> Paths are relative to \<open>src/\<close>; a definition carries the name of the Rust item it
  translates, with a suffix or prefix where two items share a name.

  \<^item> \<open>Prelude\<close>, \<open>Net\<close>, \<open>Rust_Text\<close>, \<open>Ordered_Map\<close>: Rust integers as words, results and panics as sum
    types, slices, byte order, \<open>HashMap\<close> and \<open>BTreeMap\<close> as association lists, addresses and their text
    form, strings as lists of scalar values.
  \<^item> \<open>Ipfix_Wire\<close> (\<open>crates/protocol-ipfix\<close>: header, template, record, error), \<open>Ipfix_Decoder\<close>
    (template_cache, decoder) and \<open>Ipfix_Replay\<close> (\<open>tools/flow-replay\<close>): parsing refines a declarative
    byte layout, the template cache stays within its two limits, no datagram makes the decoder panic,
    replayed batches decode to the records written, and a refused message leaves its earlier templates
    applied.
  \<^item> \<open>Flow\<close> (\<open>crates/common\<close>: sampling, flow), \<open>Normalize\<close> and \<open>Exporter\<close> (\<open>crates/collector\<close>): sampling tiers,
    exact scaling of the counters, and the exporter registry with its allowlist and limits.
  \<^item> \<open>Prefix_Trie\<close>, \<open>Classifier\<close> (\<open>crates/classifier\<close>): lookups are longest-prefix matches, configuration is
    accepted exactly when its prefixes fit and are distinct, direction follows coverage.
  \<^item> \<open>Bounded_Map\<close>, \<open>Aggregator\<close> (\<open>crates/aggregator\<close>): eviction of the stalest entry, counters as saturated
    sums, rate windows, and memory bounds. Each map has a limit of its own; the two host maps together
    reach twice the configured limit.
  \<^item> \<open>Detection_Input\<close>, \<open>Detection_Policy\<close>, \<open>Detection_State\<close> (\<open>crates/detector\<close>: input, policy, evaluate,
    precedence, state): validation, evaluation, the governing policy as the maximum of a total order,
    and the per-scope state machine with its table; histories are lists of operations, and the
    signals of a scope follow a small protocol automaton.
  \<^item> \<open>Detection_Window\<close> (window): the accumulators that count classified flows per host, network and host
    group. The tick that closes a window without displaced scopes emits one snapshot per scope, folded
    from exactly the flows of that scope; byte rates nobody measures never alert.
  \<^item> \<open>Detection_Config\<close> (config): policy documents with their durations, magnitudes and networks, the
    standard library's address parser included. A document loads whole or not at all, and loaded
    policies can be written out and loaded again.
  \<^item> \<open>Detection_Event\<close>, \<open>Detection_Engine\<close> (event, sink, engine): the events built from signals and the
    engine's calls on a sink. The sink receives only alerts, and the events of a scope are bracketed
    like the signals of the state machine below it.
  \<^item> \<open>Authorization\<close> (\<open>crates/incident\<close>: authorization, id), \<open>Mitigation_Guard\<close>, \<open>Lifecycle\<close>, \<open>Mitigation\<close>
    (\<open>crates/mitigation\<close>): permissions and role bundles, incident identifiers, the guard that every
    mitigation must pass, and the mitigation state machine as an instance of the lifecycle locales.
  \<^item> \<open>Incident_Domain\<close> (\<open>crates/incident\<close>: the record, transition tables, closure, reopening, suppression,
    correlation, limits, durable time, store), \<open>Unit_Of_Work\<close> (unit_of_work: every operation that changes
    state, in a state monad with a weakest-precondition calculus), \<open>Incident_Steps\<close> and
    \<open>Incident_Safety\<close>: every call refines a sequence of steps of an inductive relation, and the relation
    gives at most one active incident per key, tenant isolation, idempotent replay of commands and that
    critical incidents stay open until a person closes them.

  \<^bold>\<open>Conventions and bounds.\<close> \<open>usize\<close> is \<open>nat\<close>; other integers keep their width wherever they can overflow.
  Instants and durations are nanoseconds as \<open>nat\<close>, clocks are arguments, and \<open>saturating_duration_since\<close> is
  subtraction on \<open>nat\<close>; the wall-clock times of detection and incidents are \<open>int\<close>, negative before the epoch. The state that Rust mutates in place is threaded
  through and returned; errors are values and panics are a separate failure value where a panic can
  occur. Loops are structural recursions or folds, or carry a termination proof, with one exception: the
  loop that rolls a rate window forward (\<open>roll_if_elapsed\<close>) would not end for a window of length zero, so it
  is a partial function, proved to return for every positive length and with it for every window the
  aggregator builds. No definition uses fuel. Plain arithmetic wraps, as in a build without overflow
  checks; the address masks of the aggregator, where a configured prefix length decides whether it
  does, take the build profile as an argument and return \<open>None\<close> for the panic. Floating-point arithmetic is a parameter of the aggregator's rate windows.

  \<^bold>\<open>Not modelled.\<close> The \<open>main\<close> functions, the threads, sockets and channels of the collector, the PostgreSQL
  and ClickHouse adapters, the HTTP API, the command line and the web application are I/O around the
  parts above or translate to SQL and JSON of libraries outside the repository; logging and metrics
  have no effect on the modelled state; \<open>configuration\<close>, \<open>protocol-netflow\<close>, \<open>protocol-sflow\<close> and three of the
  tools are empty crates.
\<close>

end
